(* ===== verification/Prelude.thy ===== *)
theory Prelude
  imports Main "HOL-Library.Word" "HOL-Library.Char_ord" "HOL-Library.List_Lexorder"
begin

text \<open>
  Shared ground of the development: the machine types of the Rust code, its fallible
  computations as sums (\<open>Inl\<close> is Rust's \<open>Err\<close>, \<open>Inr\<close> is \<open>Ok\<close>), its effectful fallible
  computations (\<open>async fn ... -> Result\<close>) as functions on an explicit world, and the
  collections of simplification rules that the component theories extend.
\<close>

section \<open>Collections and machine types\<close>

named_theorems result_simps \<open>unfolding rules of fallible computations\<close>
named_theorems act_simps \<open>unfolding rules of effectful computations\<close>

type_synonym byte = "8 word"
type_synonym bytes = "8 word list"
type_synonym u16 = "16 word"
type_synonym u64 = "64 word"

section \<open>Fallible computations\<close>

text \<open>Rust's \<open>?\<close> on a \<open>Result\<close>, \<open>Option::ok_or\<close>, \<open>Result::map_err\<close> and \<open>Result::ok\<close>.\<close>

definition and_then :: "'e + 'a \<Rightarrow> ('a \<Rightarrow> 'e + 'b) \<Rightarrow> 'e + 'b" where
  "and_then r k = (case r of Inl e \<Rightarrow> Inl e | Inr a \<Rightarrow> k a)"

definition ok_or :: "'e \<Rightarrow> 'a option \<Rightarrow> 'e + 'a" where
  "ok_or e v = (case v of None \<Rightarrow> Inl e | Some a \<Rightarrow> Inr a)"

definition map_err :: "('e \<Rightarrow> 'f) \<Rightarrow> 'e + 'a \<Rightarrow> 'f + 'a" where
  "map_err f r = (case r of Inl e \<Rightarrow> Inl (f e) | Inr a \<Rightarrow> Inr a)"

definition result_ok :: "'e + 'a \<Rightarrow> 'a option" where
  "result_ok r = (case r of Inl e \<Rightarrow> None | Inr a \<Rightarrow> Some a)"

text \<open>\<open>iter().map(f).collect::<Result<Vec<_>, _>>()\<close>: the first error wins.\<close>

fun collect_results :: "('a \<Rightarrow> 'e + 'b) \<Rightarrow> 'a list \<Rightarrow> 'e + 'b list" where
  "collect_results f [] = Inr []"
| "collect_results f (x # xs) =
     and_then (f x) (\<lambda>y. and_then (collect_results f xs) (\<lambda>ys. Inr (y # ys)))"

lemma and_then_simps [simp, result_simps]:
  "and_then (Inl e) k = Inl e" "and_then (Inr a) k = k a"
  by (simp_all add: and_then_def)

lemma ok_or_simps [simp, result_simps]:
  "ok_or e None = Inl e" "ok_or e (Some a) = Inr a"
  by (simp_all add: ok_or_def)

lemma map_err_simps [simp, result_simps]:
  "map_err f (Inl e) = Inl (f e)" "map_err f (Inr a) = Inr a"
  by (simp_all add: map_err_def)

lemma result_ok_simps [simp, result_simps]:
  "result_ok (Inl e) = None" "result_ok (Inr a) = Some a"
  by (simp_all add: result_ok_def)

lemma and_then_Inr_iff: "and_then r k = Inr b \<longleftrightarrow> (\<exists>a. r = Inr a \<and> k a = Inr b)"
  by (cases r) auto

lemma and_then_InrE [elim]:
  assumes "and_then r k = Inr b"
  obtains a where "r = Inr a" "k a = Inr b"
  using assms by (auto simp: and_then_Inr_iff)

lemma ok_or_Inr_iff [simp]: "ok_or e v = Inr a \<longleftrightarrow> v = Some a"
  by (cases v) auto

lemma map_err_Inr_iff [simp]: "map_err f r = Inr a \<longleftrightarrow> r = Inr a"
  by (cases r) auto

lemma result_ok_Some_iff [simp]: "result_ok r = Some a \<longleftrightarrow> r = Inr a"
  by (cases r) auto

lemma collect_results_Inr_iff:
  "collect_results f xs = Inr ys \<longleftrightarrow> list_all2 (\<lambda>x y. f x = Inr y) xs ys"
  by (induction xs arbitrary: ys)
    (auto simp: and_then_Inr_iff list_all2_Cons1)

section \<open>Effectful fallible computations\<close>

text \<open>
  An \<open>async fn\<close> over a shared resource is a function from the state of the resource to a
  result and the next state. The state changes made before an error stay made.
\<close>

type_synonym ('w, 'e, 'a) act = "'w \<Rightarrow> ('e + 'a) \<times> 'w"

definition aret :: "'a \<Rightarrow> ('w, 'e, 'a) act" where
  "aret a = (\<lambda>w. (Inr a, w))"

definition afail :: "'e \<Rightarrow> ('w, 'e, 'a) act" where
  "afail e = (\<lambda>w. (Inl e, w))"

definition alift :: "'e + 'a \<Rightarrow> ('w, 'e, 'a) act" where
  "alift r = (\<lambda>w. (r, w))"

definition abind :: "('w, 'e, 'a) act \<Rightarrow> ('a \<Rightarrow> ('w, 'e, 'b) act) \<Rightarrow> ('w, 'e, 'b) act" where
  "abind m k = (\<lambda>w. case m w of (Inl e, w') \<Rightarrow> (Inl e, w') | (Inr a, w') \<Rightarrow> k a w')"

text \<open>An infallible read of, or step of, the state.\<close>

definition agets :: "('w \<Rightarrow> 'a) \<Rightarrow> ('w, 'e, 'a) act" where
  "agets f = (\<lambda>w. (Inr (f w), w))"

definition aupd :: "('w \<Rightarrow> 'w) \<Rightarrow> ('w, 'e, unit) act" where
  "aupd f = (\<lambda>w. (Inr (), f w))"

lemma aret_apply [simp, act_simps]: "aret a w = (Inr a, w)"
  by (simp add: aret_def)

lemma afail_apply [simp, act_simps]: "afail e w = (Inl e, w)"
  by (simp add: afail_def)

lemma alift_apply [simp, act_simps]: "alift r w = (r, w)"
  by (simp add: alift_def)

lemma agets_apply [simp, act_simps]: "agets f w = (Inr (f w), w)"
  by (simp add: agets_def)

lemma aupd_apply [simp, act_simps]: "aupd f w = (Inr (), f w)"
  by (simp add: aupd_def)

lemma abind_apply [act_simps]:
  "abind m k w = (case m w of (Inl e, w') \<Rightarrow> (Inl e, w') | (Inr a, w') \<Rightarrow> k a w')"
  by (simp add: abind_def)

lemma abind_step:
  "m w = (Inr a, w') \<Longrightarrow> abind m k w = k a w'"
  "m w = (Inl e, w') \<Longrightarrow> abind m k w = (Inl e, w')"
  by (simp_all add: abind_apply)

lemma abind_InrE [elim]:
  assumes "abind m k w = (Inr b, w')"
  obtains a v where "m w = (Inr a, v)" "k a v = (Inr b, w')"
  using assms by (auto simp: abind_apply split: prod.splits sum.splits)

lemma abind_Inr_iff:
  "abind m k w = (Inr b, w') \<longleftrightarrow> (\<exists>a v. m w = (Inr a, v) \<and> k a v = (Inr b, w'))"
  by (auto simp: abind_apply split: prod.splits sum.splits)

lemma abind_InlE:
  assumes "abind m k w = (Inl e, w')"
  obtains (first) "m w = (Inl e, w')"
    | (second) a v where "m w = (Inr a, v)" "k a v = (Inl e, w')"
  using assms by (auto simp: abind_apply split: prod.splits sum.splits)

text \<open>
  An invariant of the state that both halves of a sequence keep is kept by the sequence.
\<close>

definition keeps :: "('w \<Rightarrow> bool) \<Rightarrow> ('w, 'e, 'a) act \<Rightarrow> bool" where
  "keeps I m \<longleftrightarrow> (\<forall>w. I w \<longrightarrow> I (snd (m w)))"

lemma keepsI [intro?]: "(\<And>w. I w \<Longrightarrow> I (snd (m w))) \<Longrightarrow> keeps I m"
  by (simp add: keeps_def)

lemma keepsD: "keeps I m \<Longrightarrow> I w \<Longrightarrow> m w = (r, w') \<Longrightarrow> I w'"
  by (auto simp: keeps_def dest: spec [of _ w])

lemma keeps_basic [simp, intro]:
  "keeps I (aret a)" "keeps I (afail e)" "keeps I (alift r)" "keeps I (agets f)"
  by (simp_all add: keeps_def)

lemma keeps_abind [intro]:
  assumes "keeps I m" and "\<And>a. keeps I (k a)"
  shows "keeps I (abind m k)"
proof (rule keepsI)
  fix w
  assume "I w"
  then have w: "I (snd (m w))" using assms(1) by (simp add: keeps_def)
  show "I (snd (abind m k w))"
  proof (cases "m w")
    case (Pair r v)
    with w assms(2) show ?thesis
      by (cases r) (auto simp: abind_apply keeps_def)
  qed
qed

section \<open>Lists\<close>

lemma take_drop_split: "n \<le> length xs \<Longrightarrow> xs = take n xs @ drop n xs"
  by simp

lemma append_eq_same_length:
  "length xs = length ys \<Longrightarrow> xs @ us = ys @ vs \<longleftrightarrow> xs = ys \<and> us = vs"
  by (rule append_eq_append_conv) simp

lemma append_sep_eq:
  "x \<notin> set xs \<Longrightarrow> x \<notin> set ys \<Longrightarrow> xs @ x # us = ys @ x # vs \<longleftrightarrow> xs = ys \<and> us = vs"
proof (induction xs arbitrary: ys)
  case Nil
  then show ?case by (cases ys) auto
next
  case (Cons a xs)
  then show ?case by (cases ys) auto
qed

lemma list_all_replicate_iff: "list_all P (replicate n x) \<longleftrightarrow> n = 0 \<or> P x"
  by (induction n) auto

end
