(* ===== verification/Rust_Std.thy ===== *)
theory Rust_Std
  imports Prelude
begin

text \<open>
  The part of Rust's standard library that the crates use on \<open>str\<close>, \<open>String\<close> and integers.
  A \<open>str\<close> is the list of its UTF-8 bytes as a \<^typ>\<open>string\<close>, so \<open>len\<close>, \<open>find\<close> and slicing count
  bytes as Rust does; \<open>chars_of\<close> cuts a text into its characters, each given by its bytes.
  A \<open>Vec<u8>\<close> is a list of 8-bit words.
\<close>

section \<open>Bytes and text\<close>

definition byte_of :: "char \<Rightarrow> byte" where
  "byte_of c = word_of_nat (of_char c)"

definition char_of_byte :: "byte \<Rightarrow> char" where
  "char_of_byte b = char_of (unat b)"

definition bytes_of :: "string \<Rightarrow> bytes" where
  "bytes_of s = map byte_of s"

definition text_of :: "bytes \<Rightarrow> string" where
  "text_of bs = map char_of_byte bs"

lemma unat_byte_of: "unat (byte_of c) = of_char c"
  by (simp add: byte_of_def unat_of_nat)

lemma char_of_byte_of [simp]: "char_of_byte (byte_of c) = c"
  by (simp add: char_of_byte_def unat_byte_of)

lemma byte_of_char_of [simp]: "byte_of (char_of_byte b) = b"
proof -
  have "unat b < 256" using unsigned_less [where ?'a = nat, of b] by simp
  then show ?thesis by (simp add: byte_of_def char_of_byte_def)
qed

lemma text_of_bytes_of [simp]: "text_of (bytes_of s) = s"
  by (simp add: text_of_def bytes_of_def o_def)

lemma bytes_of_text_of [simp]: "bytes_of (text_of bs) = bs"
  by (simp add: text_of_def bytes_of_def o_def)

lemma length_bytes_of [simp]: "length (bytes_of s) = length s"
  by (simp add: bytes_of_def)

lemma length_text_of [simp]: "length (text_of bs) = length bs"
  by (simp add: text_of_def)

lemma bytes_of_append [simp]: "bytes_of (s @ t) = bytes_of s @ bytes_of t"
  by (simp add: bytes_of_def)

lemma bytes_of_inject [simp]: "bytes_of s = bytes_of t \<longleftrightarrow> s = t"
  by (metis text_of_bytes_of)

lemma text_of_inject [simp]: "text_of s = text_of t \<longleftrightarrow> s = t"
  by (metis bytes_of_text_of)

section \<open>UTF-8\<close>

text \<open>
  One step of \<open>core::str::Utf8Chunks\<close>: whether the text starts with a well-formed
  character, and the number of bytes of it or of the ill-formed prefix. A byte that is
  missing reads as 0, which continues nothing.
\<close>

definition byte_at :: "string \<Rightarrow> nat \<Rightarrow> nat" where
  "byte_at s i = (if i < length s then of_char (s ! i) else 0)"

definition cont_byte :: "nat \<Rightarrow> bool" where
  "cont_byte b \<longleftrightarrow> 128 \<le> b \<and> b \<le> 191"

definition utf8_step :: "string \<Rightarrow> bool \<times> nat" where
  "utf8_step s =
     (let b0 = byte_at s 0; b1 = byte_at s 1; b2 = byte_at s 2; b3 = byte_at s 3 in
      if b0 < 128 then (True, 1)
      else if 194 \<le> b0 \<and> b0 \<le> 223 then
        (if cont_byte b1 then (True, 2) else (False, 1))
      else if 224 \<le> b0 \<and> b0 \<le> 239 then
        (if \<not> (if b0 = 224 then 160 \<le> b1 \<and> b1 \<le> 191
               else if b0 = 237 then 128 \<le> b1 \<and> b1 \<le> 159
               else cont_byte b1) then (False, 1)
         else if \<not> cont_byte b2 then (False, 2)
         else (True, 3))
      else if 240 \<le> b0 \<and> b0 \<le> 244 then
        (if \<not> (if b0 = 240 then 144 \<le> b1 \<and> b1 \<le> 191
               else if b0 = 244 then 128 \<le> b1 \<and> b1 \<le> 143
               else cont_byte b1) then (False, 1)
         else if \<not> cont_byte b2 then (False, 2)
         else if \<not> cont_byte b3 then (False, 3)
         else (True, 4))
      else (False, 1))"

fun utf8_chunks :: "string \<Rightarrow> (bool \<times> string) list" where
  "utf8_chunks [] = []"
| "utf8_chunks (c # cs) =
     (let (v, n) = utf8_step (c # cs)
      in (v, c # take (n - 1) cs) # utf8_chunks (drop (n - 1) cs))"

definition chars_of :: "string \<Rightarrow> string list" where
  "chars_of s = map snd (utf8_chunks s)"

text \<open>Every Rust \<open>str\<close> satisfies \<open>utf8_valid\<close>; \<open>from_utf8\<close> is its decision on bytes.\<close>

definition utf8_valid :: "string \<Rightarrow> bool" where
  "utf8_valid s = list_all fst (utf8_chunks s)"

definition from_utf8 :: "bytes \<Rightarrow> string option" where
  "from_utf8 bs = (if utf8_valid (text_of bs) then Some (text_of bs) else None)"

definition from_utf8_lossy :: "bytes \<Rightarrow> string" where
  "from_utf8_lossy bs =
     concat (map (\<lambda>(v, c). if v then c else [CHR 0xEF, CHR 0xBF, CHR 0xBD])
       (utf8_chunks (text_of bs)))"

definition ascii :: "char \<Rightarrow> bool" where
  "ascii c \<longleftrightarrow> (of_char c :: nat) < 128"

lemma concat_chunks: "concat (map snd (utf8_chunks s)) = s"
proof (induction s rule: utf8_chunks.induct)
  case 1
  then show ?case by simp
next
  case (2 c cs)
  obtain v n where vn: "utf8_step (c # cs) = (v, n)" by fastforce
  with "2.IH" [OF vn [symmetric] refl] show ?case by simp
qed

lemma concat_chars_of [simp]: "concat (chars_of s) = s"
  by (simp add: chars_of_def concat_chunks)

lemma chars_of_Nil [simp]: "chars_of [] = []"
  by (simp add: chars_of_def)

lemma chars_of_eq_Nil [simp]: "chars_of s = [] \<longleftrightarrow> s = []"
  by (cases s) (auto simp: chars_of_def split: prod.splits)

lemma chunks_ascii: "ascii c \<Longrightarrow> utf8_chunks (c # cs) = (True, [c]) # utf8_chunks cs"
  by (simp add: utf8_step_def byte_at_def ascii_def)

lemma chars_of_ascii: "ascii c \<Longrightarrow> chars_of (c # cs) = [c] # chars_of cs"
  by (simp add: chars_of_def chunks_ascii del: utf8_chunks.simps)

lemma chars_of_ascii_text: "list_all ascii s \<Longrightarrow> chars_of s = map (\<lambda>c. [c]) s"
  by (induction s) (auto simp: chars_of_ascii)

lemma utf8_valid_ascii: "list_all ascii s \<Longrightarrow> utf8_valid s"
  unfolding utf8_valid_def
  by (induction s) (auto simp: chunks_ascii simp del: utf8_chunks.simps(2))

lemma from_utf8_bytes_of: "utf8_valid s \<Longrightarrow> from_utf8 (bytes_of s) = Some s"
  by (simp add: from_utf8_def)

lemma from_utf8_Some_iff: "from_utf8 bs = Some s \<longleftrightarrow> utf8_valid s \<and> bs = bytes_of s"
  by (auto simp: from_utf8_def)

lemma from_utf8_lossy_valid: "utf8_valid s \<Longrightarrow> from_utf8_lossy (bytes_of s) = s"
proof -
  assume v: "utf8_valid s"
  then have "map (\<lambda>(v, c). if v then c else [CHR 0xEF, CHR 0xBF, CHR 0xBD]) (utf8_chunks s)
      = map snd (utf8_chunks s)"
    by (auto simp: utf8_valid_def list_all_iff)
  then have "from_utf8_lossy (bytes_of s) = concat (map snd (utf8_chunks s))"
    by (simp only: from_utf8_lossy_def text_of_bytes_of)
  then show ?thesis by (simp only: concat_chunks)
qed

section \<open>Searching and cutting\<close>

text \<open>\<open>str::find\<close>, \<open>str::rfind\<close> and \<open>str::split\<close> with an ASCII character.\<close>

fun find_char :: "char \<Rightarrow> string \<Rightarrow> nat option" where
  "find_char c [] = None"
| "find_char c (x # xs) = (if x = c then Some 0 else map_option Suc (find_char c xs))"

fun rfind_char :: "char \<Rightarrow> string \<Rightarrow> nat option" where
  "rfind_char c [] = None"
| "rfind_char c (x # xs) =
     (case rfind_char c xs of Some i \<Rightarrow> Some (Suc i) | None \<Rightarrow> if x = c then Some 0 else None)"

fun split_char :: "char \<Rightarrow> string \<Rightarrow> string list" where
  "split_char c [] = [[]]"
| "split_char c (x # xs) =
     (if x = c then [] # split_char c xs
      else (case split_char c xs of [] \<Rightarrow> [[x]] | p # ps \<Rightarrow> (x # p) # ps))"

fun strip_prefix :: "string \<Rightarrow> string \<Rightarrow> string option" where
  "strip_prefix [] s = Some s"
| "strip_prefix (p # ps) [] = None"
| "strip_prefix (p # ps) (x # xs) = (if p = x then strip_prefix ps xs else None)"

definition starts_with :: "string \<Rightarrow> string \<Rightarrow> bool" where
  "starts_with p s \<longleftrightarrow> strip_prefix p s \<noteq> None"

definition ends_with :: "string \<Rightarrow> string \<Rightarrow> bool" where
  "ends_with p s \<longleftrightarrow> strip_prefix (rev p) (rev s) \<noteq> None"

fun contains_str :: "string \<Rightarrow> string \<Rightarrow> bool" where
  "contains_str p [] \<longleftrightarrow> p = []"
| "contains_str p (x # xs) \<longleftrightarrow> starts_with p (x # xs) \<or> contains_str p xs"

text \<open>\<open>str::split_once\<close> with an ASCII character.\<close>

definition split_once :: "char \<Rightarrow> string \<Rightarrow> (string \<times> string) option" where
  "split_once c s = map_option (\<lambda>i. (take i s, drop (Suc i) s)) (find_char c s)"

fun join_with :: "string \<Rightarrow> string list \<Rightarrow> string" where
  "join_with sep [] = []"
| "join_with sep [s] = s"
| "join_with sep (s # t # us) = s @ sep @ join_with sep (t # us)"

lemma strip_prefix_Some_iff: "strip_prefix p s = Some t \<longleftrightarrow> s = p @ t"
  by (induction p s rule: strip_prefix.induct) auto

lemma strip_prefix_append [simp]: "strip_prefix p (p @ t) = Some t"
  by (simp add: strip_prefix_Some_iff)

lemma starts_with_iff: "starts_with p s \<longleftrightarrow> (\<exists>t. s = p @ t)"
  by (auto simp: starts_with_def strip_prefix_Some_iff)

lemma starts_with_append [simp]: "starts_with p (p @ t)"
  by (simp add: starts_with_iff)

lemma ends_with_iff: "ends_with p s \<longleftrightarrow> (\<exists>t. s = t @ p)"
proof -
  have "ends_with p s \<longleftrightarrow> (\<exists>t. rev s = rev p @ t)"
    by (auto simp: ends_with_def strip_prefix_Some_iff)
  also have "\<dots> \<longleftrightarrow> (\<exists>t. s = t @ p)"
    by (metis rev_append rev_rev_ident)
  finally show ?thesis .
qed

lemma ends_with_single [simp]: "ends_with [c] s \<longleftrightarrow> s \<noteq> [] \<and> last s = c"
  by (auto simp: ends_with_iff) (metis append_butlast_last_id)

lemma find_char_None_iff [simp]: "find_char c s = None \<longleftrightarrow> c \<notin> set s"
  by (induction s) auto

lemma find_char_Some_iff:
  "find_char c s = Some i \<longleftrightarrow> i < length s \<and> s ! i = c \<and> c \<notin> set (take i s)"
proof (induction s arbitrary: i)
  case Nil
  then show ?case by simp
next
  case (Cons x xs)
  then show ?case by (cases i) auto
qed

lemma find_char_append [simp]:
  "c \<notin> set p \<Longrightarrow> find_char c (p @ c # t) = Some (length p)"
  by (simp add: find_char_Some_iff)

lemma rfind_char_None_iff [simp]: "rfind_char c s = None \<longleftrightarrow> c \<notin> set s"
  by (induction s) (auto split: option.splits)

lemma rfind_char_Some_iff:
  "rfind_char c s = Some i \<longleftrightarrow> i < length s \<and> s ! i = c \<and> c \<notin> set (drop (Suc i) s)"
proof (induction s arbitrary: i)
  case Nil
  then show ?case by simp
next
  case (Cons x xs)
  show ?case
  proof (cases "rfind_char c xs")
    case None
    then have eq: "rfind_char c (x # xs) = (if x = c then Some 0 else None)"
      by (simp only: rfind_char.simps option.case)
    from None have "c \<notin> set xs" by simp
    show ?thesis
    proof (cases i)
      case 0
      with \<open>c \<notin> set xs\<close> show ?thesis unfolding eq by simp
    next
      case (Suc j)
      have "j < length xs \<Longrightarrow> xs ! j \<noteq> c"
        using \<open>c \<notin> set xs\<close> nth_mem by blast
      with Suc show ?thesis unfolding eq by auto
    qed
  next
    case (Some j)
    then have eq: "rfind_char c (x # xs) = Some (Suc j)"
      by (simp only: rfind_char.simps option.case)
    show ?thesis
    proof (cases i)
      case 0
      from Some Cons.IH [of j] have "c \<in> set xs" by auto
      with 0 show ?thesis unfolding eq by simp
    next
      case (Suc k)
      from Some have "j = k \<longleftrightarrow> rfind_char c xs = Some k" by simp
      with Suc Cons.IH [of k] show ?thesis unfolding eq by simp
    qed
  qed
qed

lemma rfind_char_append [simp]:
  "c \<notin> set t \<Longrightarrow> rfind_char c (p @ c # t) = Some (length p)"
  by (simp add: rfind_char_Some_iff)

lemma split_char_nonempty [simp]: "split_char c s \<noteq> []"
  by (induction s) (auto split: list.splits)

lemma split_char_no_sep: "p \<in> set (split_char c s) \<Longrightarrow> c \<notin> set p"
  by (induction s arbitrary: p) (auto split: list.splits if_splits)

lemma split_char_absent: "c \<notin> set s \<Longrightarrow> split_char c s = [s]"
  by (induction s) auto

lemma split_char_append:
  "c \<notin> set p \<Longrightarrow> split_char c (p @ c # t) = p # split_char c t"
  by (induction p) auto

lemma join_split_char: "join_with [c] (split_char c s) = s"
proof (induction s)
  case Nil
  then show ?case by simp
next
  case (Cons x xs)
  obtain p ps where ps: "split_char c xs = p # ps"
    by (cases "split_char c xs") auto
  with Cons show ?case by (cases ps) auto
qed

lemma split_join_char:
  "ps \<noteq> [] \<Longrightarrow> \<forall>p \<in> set ps. c \<notin> set p \<Longrightarrow> split_char c (join_with [c] ps) = ps"
proof (induction "[c]" ps rule: join_with.induct)
  case (3 s t us)
  then show ?case by (simp add: split_char_append)
qed (simp_all add: split_char_absent)

lemma split_once_Some_iff:
  "split_once c s = Some (k, v) \<longleftrightarrow> s = k @ c # v \<and> c \<notin> set k"
proof
  assume "split_once c s = Some (k, v)"
  then obtain i where i: "find_char c s = Some i" "k = take i s" "v = drop (Suc i) s"
    by (auto simp: split_once_def)
  then have "s = take i s @ c # drop (Suc i) s"
    by (auto simp: find_char_Some_iff id_take_nth_drop)
  with i show "s = k @ c # v \<and> c \<notin> set k" by (auto simp: find_char_Some_iff)
qed (auto simp: split_once_def)

lemma split_once_append [simp]: "c \<notin> set k \<Longrightarrow> split_once c (k @ c # v) = Some (k, v)"
  by (simp add: split_once_Some_iff)

section \<open>White space and ASCII classes\<close>

text \<open>\<open>char::is_whitespace\<close> (Unicode \<open>White_Space\<close>) on the bytes of one character.\<close>

definition char_is_whitespace :: "string \<Rightarrow> bool" where
  "char_is_whitespace ch =
     (case map (of_char :: char \<Rightarrow> nat) ch of
        [b] \<Rightarrow> (9 \<le> b \<and> b \<le> 13) \<or> b = 32
      | [b0, b1] \<Rightarrow> b0 = 194 \<and> (b1 = 133 \<or> b1 = 160)
      | [b0, b1, b2] \<Rightarrow>
          (b0 = 225 \<and> b1 = 154 \<and> b2 = 128)
          \<or> (b0 = 226 \<and> b1 = 128 \<and> (128 \<le> b2 \<and> b2 \<le> 138 \<or> b2 = 168 \<or> b2 = 169 \<or> b2 = 175))
          \<or> (b0 = 226 \<and> b1 = 129 \<and> b2 = 159)
          \<or> (b0 = 227 \<and> b1 = 128 \<and> b2 = 128)
      | _ \<Rightarrow> False)"

definition trim :: "string \<Rightarrow> string" where
  "trim s = concat (rev (dropWhile char_is_whitespace
              (rev (dropWhile char_is_whitespace (chars_of s)))))"

text \<open>\<open>str::trim_end_matches\<close> with an ASCII character.\<close>

definition trim_end_char :: "char \<Rightarrow> string \<Rightarrow> string" where
  "trim_end_char c s = rev (dropWhile (\<lambda>x. x = c) (rev s))"

definition is_digit :: "char \<Rightarrow> bool" where
  "is_digit c \<longleftrightarrow> (48::nat) \<le> of_char c \<and> of_char c \<le> (57::nat)"

definition is_upper :: "char \<Rightarrow> bool" where
  "is_upper c \<longleftrightarrow> (65::nat) \<le> of_char c \<and> of_char c \<le> (90::nat)"

definition is_lower :: "char \<Rightarrow> bool" where
  "is_lower c \<longleftrightarrow> (97::nat) \<le> of_char c \<and> of_char c \<le> (122::nat)"

definition is_alnum :: "char \<Rightarrow> bool" where
  "is_alnum c \<longleftrightarrow> is_digit c \<or> is_upper c \<or> is_lower c"

definition is_hexdigit :: "char \<Rightarrow> bool" where
  "is_hexdigit c \<longleftrightarrow> is_digit c \<or> ((65::nat) \<le> of_char c \<and> of_char c \<le> (70::nat))
     \<or> ((97::nat) \<le> of_char c \<and> of_char c \<le> (102::nat))"

definition is_lower_hexdigit :: "char \<Rightarrow> bool" where
  "is_lower_hexdigit c \<longleftrightarrow> is_digit c \<or> ((97::nat) \<le> of_char c \<and> of_char c \<le> (102::nat))"

definition to_ascii_upper :: "char \<Rightarrow> char" where
  "to_ascii_upper c = (if is_lower c then char_of (of_char c - (32::nat)) else c)"

text \<open>The regular expression \<open>^[0-9a-f]{64}$\<close>, which the crates name \<open>HEX64\<close>.\<close>

definition hex64 :: "string \<Rightarrow> bool" where
  "hex64 s \<longleftrightarrow> length s = 64 \<and> list_all is_lower_hexdigit s"

lemma trim_ascii_id:
  assumes "list_all ascii s" and "\<not> char_is_whitespace [hd s]" and "\<not> char_is_whitespace [last s]"
  shows "trim s = s"
proof (cases "s = []")
  case True
  then show ?thesis by (simp add: trim_def)
next
  case False
  have c: "chars_of s = map (\<lambda>c. [c]) s" using assms(1) by (rule chars_of_ascii_text)
  have front: "dropWhile char_is_whitespace (chars_of s) = chars_of s"
    unfolding c using False assms(2) by (cases s) auto
  from False obtain t x where s: "s = t @ [x]" by (metis rev_exhaust)
  have "rev (chars_of s) = [last s] # rev (map (\<lambda>c. [c]) t)"
    unfolding c unfolding s by simp
  then have rear: "dropWhile char_is_whitespace (rev (chars_of s)) = rev (chars_of s)"
    using assms(3) by simp
  show ?thesis by (simp add: trim_def front rear)
qed

lemma is_lower_hexdigit_classes:
  "is_lower_hexdigit c \<longleftrightarrow> is_hexdigit c \<and> \<not> is_upper c"
  by (auto simp: is_lower_hexdigit_def is_hexdigit_def is_upper_def is_digit_def)

lemma is_lower_hexdigit_ascii: "is_lower_hexdigit c \<Longrightarrow> ascii c"
  by (auto simp: is_lower_hexdigit_def is_digit_def ascii_def)

lemma hex64_ascii: "hex64 s \<Longrightarrow> list_all ascii s"
  by (auto simp: hex64_def list_all_iff is_lower_hexdigit_ascii)

lemma hex64_no_char: "hex64 s \<Longrightarrow> \<not> is_lower_hexdigit c \<Longrightarrow> c \<notin> set s"
  by (auto simp: hex64_def list_all_iff)

section \<open>Numbers as text\<close>

text \<open>\<open>Display\<close> of unsigned and signed integers.\<close>

fun show_nat :: "nat \<Rightarrow> string" where
  "show_nat n =
     (if n < 10 then [char_of (48 + n)] else show_nat (n div 10) @ [char_of (48 + n mod 10)])"

declare show_nat.simps [simp del]

definition show_int :: "int \<Rightarrow> string" where
  "show_int i = (if i < 0 then CHR ''-'' # show_nat (nat (- i)) else show_nat (nat i))"

definition digit_val :: "char \<Rightarrow> nat" where
  "digit_val c = of_char c - 48"

definition digits_val :: "string \<Rightarrow> nat" where
  "digits_val s = foldl (\<lambda>acc c. 10 * acc + digit_val c) 0 s"

text \<open>
  \<open><i64 as FromStr>::from_str\<close>: an optional sign, at least one decimal digit, and a value
  in range. Reading on after an intermediate overflow cannot come back into range, so the
  range test on the whole value is the checked arithmetic of the library.
\<close>

definition parse_i64 :: "string \<Rightarrow> int option" where
  "parse_i64 s =
     (let (neg, ds) = (case s of [] \<Rightarrow> (False, [])
                        | c # cs \<Rightarrow> if c = CHR ''-'' then (True, cs)
                                   else if c = CHR ''+'' then (False, cs) else (False, c # cs));
          v = (if neg then - int (digits_val ds) else int (digits_val ds))
      in if ds = [] \<or> \<not> list_all is_digit ds then None
         else if - (2 ^ 63) \<le> v \<and> v < 2 ^ 63 then Some v else None)"

lemma of_char_digit: "d < 10 \<Longrightarrow> (of_char (char_of (48 + d :: nat)) :: nat) = 48 + d"
  by simp

lemma is_digit_char_of: "d < 10 \<Longrightarrow> is_digit (char_of (48 + d :: nat))"
  by (simp add: is_digit_def)

lemma digits_val_snoc: "digits_val (s @ [c]) = 10 * digits_val s + digit_val c"
  by (simp add: digits_val_def)

lemma show_nat_nonempty [simp]: "show_nat n \<noteq> []"
  by (subst show_nat.simps) simp

lemma show_nat_digits: "list_all is_digit (show_nat n)"
proof (induction n rule: show_nat.induct)
  case (1 n)
  then show ?case by (subst show_nat.simps) (simp add: is_digit_char_of)
qed

lemma digits_val_show_nat [simp]: "digits_val (show_nat n) = n"
proof (induction n rule: show_nat.induct)
  case (1 n)
  show ?case
  proof (cases "n < 10")
    case True
    then show ?thesis by (subst show_nat.simps) (simp add: digits_val_def digit_val_def)
  next
    case False
    with 1 have "digits_val (show_nat (n div 10)) = n div 10" by simp
    with False show ?thesis
      by (subst show_nat.simps) (simp add: digits_val_snoc digit_val_def)
  qed
qed

lemma show_nat_inject [simp]: "show_nat m = show_nat n \<longleftrightarrow> m = n"
  by (metis digits_val_show_nat)

lemma show_nat_no_char: "\<not> is_digit c \<Longrightarrow> c \<notin> set (show_nat n)"
  using show_nat_digits [of n] by (auto simp: list_all_iff)

lemma show_int_chars: "c \<in> set (show_int i) \<Longrightarrow> is_digit c \<or> c = CHR ''-''"
  using show_nat_no_char by (auto simp: show_int_def split: if_splits)

lemma show_int_inject [simp]: "show_int i = show_int j \<longleftrightarrow> i = j"
proof
  have minus: "CHR ''-'' \<notin> set (show_nat n)" for n
    by (rule show_nat_no_char) (simp add: is_digit_def)
  assume "show_int i = show_int j"
  then show "i = j"
    using minus by (auto simp: show_int_def split: if_splits) (metis list.set_intros(1))+
qed simp

lemma parse_i64_show_int:
  assumes "- (2 ^ 63) \<le> i" and "i < 2 ^ 63"
  shows "parse_i64 (show_int i) = Some i"
proof (cases "i < 0")
  case True
  then show ?thesis
    using assms by (simp add: show_int_def parse_i64_def show_nat_digits)
next
  case False
  have h: "hd (show_nat (nat i)) \<noteq> CHR ''-''" "hd (show_nat (nat i)) \<noteq> CHR ''+''"
    using show_nat_no_char [of "CHR ''-''" "nat i"] show_nat_no_char [of "CHR ''+''" "nat i"]
    by (simp_all add: is_digit_def) (metis hd_in_set show_nat_nonempty)+
  obtain c cs where "show_nat (nat i) = c # cs" by (cases "show_nat (nat i)") auto
  then show ?thesis
    using False assms h show_nat_digits [of "nat i"] digits_val_show_nat [of "nat i"]
    by (simp add: show_int_def parse_i64_def)
qed

section \<open>Hexadecimal\<close>

text \<open>The formats \<open>{:x}\<close> of a digit, \<open>{:02x}\<close> and \<open>{:02X}\<close> of a byte.\<close>

definition lower_digit :: "nat \<Rightarrow> char" where
  "lower_digit n = (if n < 10 then char_of (48 + n) else char_of (87 + n))"

definition upper_digit :: "nat \<Rightarrow> char" where
  "upper_digit n = (if n < 10 then char_of (48 + n) else char_of (55 + n))"

definition lower_hex2 :: "byte \<Rightarrow> string" where
  "lower_hex2 b = [lower_digit (unat b div 16), lower_digit (unat b mod 16)]"

definition upper_hex2 :: "byte \<Rightarrow> string" where
  "upper_hex2 b = [upper_digit (unat b div 16), upper_digit (unat b mod 16)]"

definition lower_hex :: "bytes \<Rightarrow> string" where
  "lower_hex bs = concat (map lower_hex2 bs)"

definition upper_hex :: "bytes \<Rightarrow> string" where
  "upper_hex bs = concat (map upper_hex2 bs)"

lemma unat_byte_less [simp]: "unat (b :: byte) < 256"
  using unsigned_less [where ?'a = nat, of b] by simp

lemma byte_nibbles: "unat (b :: byte) div 16 < 16" "unat b mod 16 < 16"
  by (simp_all add: div_less_iff_less_mult)

lemma length_lower_hex [simp]: "length (lower_hex bs) = 2 * length bs"
  by (induction bs) (simp_all add: lower_hex_def lower_hex2_def)

lemma length_upper_hex [simp]: "length (upper_hex bs) = 2 * length bs"
  by (induction bs) (simp_all add: upper_hex_def upper_hex2_def)

lemma lower_hex_eq_Nil: "lower_hex bs = [] \<longleftrightarrow> bs = []"
  by (metis length_lower_hex length_0_conv mult_is_0 zero_neq_numeral)

lemma lower_digit_class: "n < 16 \<Longrightarrow> is_lower_hexdigit (lower_digit n)"
  by (auto simp: lower_digit_def is_lower_hexdigit_def is_digit_def)

lemma upper_digit_class:
  "n < 16 \<Longrightarrow> is_digit (upper_digit n) \<or>
     (65::nat) \<le> of_char (upper_digit n) \<and> of_char (upper_digit n) \<le> (70::nat)"
  by (auto simp: upper_digit_def is_digit_def)

lemma lower_hex_class: "list_all is_lower_hexdigit (lower_hex bs)"
  by (induction bs)
    (simp_all add: lower_hex_def lower_hex2_def lower_digit_class byte_nibbles)

lemma lower_hex_64: "length bs = 32 \<Longrightarrow> hex64 (lower_hex bs)"
  by (simp add: hex64_def lower_hex_class)

lemma lower_digit_inject: "m < 16 \<Longrightarrow> n < 16 \<Longrightarrow> lower_digit m = lower_digit n \<longleftrightarrow> m = n"
  by (auto simp: lower_digit_def)

lemma upper_digit_inject: "m < 16 \<Longrightarrow> n < 16 \<Longrightarrow> upper_digit m = upper_digit n \<longleftrightarrow> m = n"
  by (auto simp: upper_digit_def)

lemma lower_hex2_inject [simp]: "lower_hex2 a = lower_hex2 b \<longleftrightarrow> a = b"
  by (auto simp: lower_hex2_def lower_digit_inject byte_nibbles)
    (metis div_mult_mod_eq unsigned_word_eqI)

lemma lower_hex_inject [simp]: "lower_hex as = lower_hex bs \<longleftrightarrow> as = bs"
proof (induction as arbitrary: bs)
  case Nil
  then show ?case by (cases bs) (simp_all add: lower_hex_def lower_hex2_def)
next
  case (Cons a as)
  show ?case
  proof (cases bs)
    case Nil
    then show ?thesis by (simp add: lower_hex_def lower_hex2_def)
  next
    case (Cons b cs)
    have "lower_hex (a # as) = lower_hex (b # cs) \<longleftrightarrow>
        lower_hex2 a @ lower_hex as = lower_hex2 b @ lower_hex cs"
      by (simp add: lower_hex_def)
    also have "\<dots> \<longleftrightarrow> lower_hex2 a = lower_hex2 b \<and> lower_hex as = lower_hex cs"
      by (rule append_eq_same_length) (simp add: lower_hex2_def)
    finally show ?thesis using Cons.IH \<open>bs = b # cs\<close> by simp
  qed
qed

end
