(* ===== verification/Json.thy ===== *)
theory Json
  imports Rust_Std
begin

text \<open>
  The \<open>serde_json::Value\<close> of the crates. Both build \<open>serde_json\<close> without its
  \<open>preserve_order\<close> feature (see \<open>Cargo.lock\<close>), so a \<open>Map<String, Value>\<close> is ordered by key:
  an association list whose keys increase. A number is an integer or a float; nothing in the
  crates computes with a float, so it is kept as the text it prints as.
\<close>

section \<open>Values\<close>

datatype json =
    JNull
  | JBool bool
  | JInt int
  | JFloat string
  | JStr string
  | JArr "json list"
  | JObj "(string \<times> json) list"

type_synonym jmap = "(string \<times> json) list"

text \<open>\<open>Map::insert\<close>, \<open>Map::remove\<close> and \<open>Map::get\<close>.\<close>

fun obj_insert :: "string \<Rightarrow> 'v \<Rightarrow> (string \<times> 'v) list \<Rightarrow> (string \<times> 'v) list" where
  "obj_insert k v [] = [(k, v)]"
| "obj_insert k v ((a, b) # r) =
     (if k < a then (k, v) # (a, b) # r
      else if k = a then (k, v) # r
      else (a, b) # obj_insert k v r)"

definition obj_remove :: "string \<Rightarrow> (string \<times> 'v) list \<Rightarrow> (string \<times> 'v) list" where
  "obj_remove k m = filter (\<lambda>(a, b). a \<noteq> k) m"

definition obj_get :: "(string \<times> 'v) list \<Rightarrow> string \<Rightarrow> 'v option" where
  "obj_get m k = map_of m k"

definition obj_has :: "(string \<times> 'v) list \<Rightarrow> string \<Rightarrow> bool" where
  "obj_has m k = (obj_get m k \<noteq> None)"

text \<open>The map that inserting the entries one after the other builds; \<open>json!({ ... })\<close>.\<close>

definition obj_of :: "(string \<times> 'v) list \<Rightarrow> (string \<times> 'v) list" where
  "obj_of kvs = fold (\<lambda>(k, v) m. obj_insert k v m) kvs []"

definition jobj :: "(string \<times> json) list \<Rightarrow> json" where
  "jobj kvs = JObj (obj_of kvs)"

text \<open>The order of a \<open>BTreeMap\<close>: keys strictly increase.\<close>

definition ordered_map :: "(string \<times> 'v) list \<Rightarrow> bool" where
  "ordered_map m = sorted_wrt (<) (map fst m)"

section \<open>Accessors\<close>

fun as_object :: "json \<Rightarrow> jmap option" where
  "as_object (JObj m) = Some m"
| "as_object _ = None"

fun as_array :: "json \<Rightarrow> json list option" where
  "as_array (JArr a) = Some a"
| "as_array _ = None"

fun as_str :: "json \<Rightarrow> string option" where
  "as_str (JStr s) = Some s"
| "as_str _ = None"

fun as_i64 :: "json \<Rightarrow> int option" where
  "as_i64 (JInt i) = (if - (2 ^ 63) \<le> i \<and> i < 2 ^ 63 then Some i else None)"
| "as_i64 _ = None"

fun as_u64 :: "json \<Rightarrow> u64 option" where
  "as_u64 (JInt i) = (if 0 \<le> i \<and> i < 2 ^ 64 then Some (word_of_int i) else None)"
| "as_u64 _ = None"

definition is_object :: "json \<Rightarrow> bool" where
  "is_object v = (as_object v \<noteq> None)"

text \<open>\<open>Value::get\<close> with a string index, and the common \<open>get(k).and_then(as_str)\<close>.\<close>

definition jget :: "json \<Rightarrow> string \<Rightarrow> json option" where
  "jget v k = Option.bind (as_object v) (\<lambda>m. obj_get m k)"

definition get_str :: "jmap \<Rightarrow> string \<Rightarrow> string option" where
  "get_str m k = Option.bind (obj_get m k) as_str"

definition jget_str :: "json \<Rightarrow> string \<Rightarrow> string option" where
  "jget_str v k = Option.bind (jget v k) as_str"

definition ju64 :: "u64 \<Rightarrow> json" where
  "ju64 n = JInt (uint n)"

section \<open>Laws\<close>

lemma obj_get_insert [simp]:
  "obj_get (obj_insert k v m) k' = (if k' = k then Some v else obj_get m k')"
  by (induction k v m rule: obj_insert.induct) (auto simp: obj_get_def)

lemma obj_get_Nil [simp]: "obj_get [] k = None"
  by (simp add: obj_get_def)

lemma obj_get_remove [simp]:
  "obj_get (obj_remove k m) k' = (if k' = k then None else obj_get m k')"
  by (induction m) (auto simp: obj_get_def obj_remove_def)

lemma obj_has_insert [simp]: "obj_has (obj_insert k v m) k' \<longleftrightarrow> k' = k \<or> obj_has m k'"
  by (simp add: obj_has_def)

lemma obj_has_iff: "obj_has m k \<longleftrightarrow> k \<in> fst ` set m"
  by (simp add: obj_has_def obj_get_def map_of_eq_None_iff)

lemma set_obj_insert: "fst ` set (obj_insert k v m) = insert k (fst ` set m)"
  by (induction k v m rule: obj_insert.induct) auto

lemma ordered_map_Nil [simp]: "ordered_map []"
  by (simp add: ordered_map_def)

lemma ordered_obj_insert [simp]: "ordered_map m \<Longrightarrow> ordered_map (obj_insert k v m)"
proof (induction k v m rule: obj_insert.induct)
  case (1 k v)
  then show ?case by (simp add: ordered_map_def)
next
  case (2 k v a b r)
  show ?case
  proof (cases "k < a \<or> k = a")
    case True
    with "2.prems" show ?thesis by (auto simp: ordered_map_def)
  next
    case False
    moreover have "\<forall>x \<in> fst ` set (obj_insert k v r). a < x"
      using "2.prems" False by (auto simp: set_obj_insert ordered_map_def)
    ultimately show ?thesis using "2" by (auto simp: ordered_map_def)
  qed
qed

lemma ordered_obj_remove [simp]: "ordered_map m \<Longrightarrow> ordered_map (obj_remove k m)"
  by (induction m) (auto simp: ordered_map_def obj_remove_def)

lemma ordered_fold_insert:
  "ordered_map m \<Longrightarrow> ordered_map (fold (\<lambda>(k, v) m. obj_insert k v m) kvs m)"
  by (induction kvs arbitrary: m) auto

lemma ordered_obj_of [simp]: "ordered_map (obj_of kvs)"
  by (simp add: obj_of_def ordered_fold_insert)

lemma obj_get_fold_insert:
  "obj_get (fold (\<lambda>(k, v) m. obj_insert k v m) kvs m) k =
     (case map_of (rev kvs) k of Some v \<Rightarrow> Some v | None \<Rightarrow> obj_get m k)"
proof (induction kvs arbitrary: m)
  case Nil
  then show ?case by simp
next
  case (Cons p kvs)
  obtain a v where p: "p = (a, v)" by fastforce
  show ?case
    by (simp add: p Cons.IH map_add_def split: option.split)
qed

lemma obj_get_obj_of: "obj_get (obj_of kvs) k = map_of (rev kvs) k"
  by (simp add: obj_of_def obj_get_fold_insert split: option.split)

text \<open>Ordered maps with the same lookups are the same list.\<close>

lemma ordered_map_distinct: "ordered_map m \<Longrightarrow> distinct (map fst m)"
  unfolding ordered_map_def by (metis strict_sorted_iff)

lemma ordered_map_ext:
  assumes "ordered_map m" and "ordered_map n" and "\<And>k. obj_get m k = obj_get n k"
  shows "m = n"
proof -
  have m: "sorted (map fst m)" "distinct (map fst m)"
    and n: "sorted (map fst n)" "distinct (map fst n)"
    using assms(1,2) unfolding ordered_map_def by (simp_all add: strict_sorted_iff)
  have eq: "map_of m = map_of n"
    using assms(3) by (auto simp: obj_get_def fun_eq_iff)
  then have keys: "set (map fst m) = set (map fst n)"
    by (metis dom_map_of_conv_image_fst set_map)
  have "map fst m = map fst n"
    using sorted_distinct_set_unique [OF m n keys] .
  moreover have "snd (m ! i) = snd (n ! i)" if "i < length m" for i
  proof -
    have len: "length m = length n" using calculation by (metis length_map)
    have "fst (m ! i) = fst (n ! i)"
      using calculation that len by (metis nth_map)
    moreover have "map_of m (fst (m ! i)) = Some (snd (m ! i))"
      using m(2) that by (simp add: map_of_eq_Some_iff)
    moreover have "map_of n (fst (n ! i)) = Some (snd (n ! i))"
      using n(2) that len by (simp add: map_of_eq_Some_iff)
    ultimately show ?thesis using eq by simp
  qed
  ultimately show ?thesis
    by (metis nth_equalityI length_map nth_map prod_eqI)
qed

lemma as_u64_ju64 [simp]: "as_u64 (ju64 n) = Some n"
  using uint_lt2p [of n] by (simp add: ju64_def)

lemma as_object_Some_iff [simp]: "as_object v = Some m \<longleftrightarrow> v = JObj m"
  by (cases v) auto

lemma as_str_Some_iff [simp]: "as_str v = Some s \<longleftrightarrow> v = JStr s"
  by (cases v) auto

lemma as_array_Some_iff [simp]: "as_array v = Some a \<longleftrightarrow> v = JArr a"
  by (cases v) auto

lemma is_object_iff: "is_object v \<longleftrightarrow> (\<exists>m. v = JObj m)"
  by (cases v) (auto simp: is_object_def)

lemma jget_JObj [simp]: "jget (JObj m) k = obj_get m k"
  by (simp add: jget_def)

lemma jget_jobj [simp]: "jget (jobj kvs) k = map_of (rev kvs) k"
  by (simp add: jobj_def obj_get_obj_of)

lemma get_str_Some_iff [simp]: "get_str m k = Some s \<longleftrightarrow> obj_get m k = Some (JStr s)"
  by (auto simp: get_str_def bind_eq_Some_conv)

lemma jget_str_Some_iff [simp]: "jget_str v k = Some s \<longleftrightarrow> jget v k = Some (JStr s)"
  by (auto simp: jget_str_def bind_eq_Some_conv)

end
