(* ===== verification/Deps.thy ===== *)
theory Deps
  imports Json
begin

text \<open>
  The third-party crates that both crates call are parameters: a record of functions that
  every definition using them takes as an argument. What the code relies on is stated below
  as named predicates over the record, each the documented behaviour of one crate; theorems
  take those they need as hypotheses. \<open>sample_deps\<close> is a concrete record that satisfies all
  of them; the witnesses evaluate the model on it.
\<close>

section \<open>The parameters\<close>

record deps =
  sha1 :: "bytes \<Rightarrow> bytes"
  sha256 :: "bytes \<Rightarrow> bytes"
  sha512 :: "bytes \<Rightarrow> bytes"
  hmac_sha256 :: "bytes \<Rightarrow> bytes \<Rightarrow> bytes"
  hex_encode :: "bytes \<Rightarrow> string"
  hex_encode_upper :: "bytes \<Rightarrow> string"
  hex_decode :: "string \<Rightarrow> string + bytes"
  b64url_encode :: "bytes \<Rightarrow> string" \<comment> \<open>\<open>URL_SAFE_NO_PAD.encode\<close>\<close>
  b64url_decode :: "string \<Rightarrow> string + bytes" \<comment> \<open>\<open>URL_SAFE_NO_PAD.decode\<close>\<close>
  b64url_pad_decode :: "string \<Rightarrow> string + bytes" \<comment> \<open>\<open>URL_SAFE.decode\<close>\<close>
  b64_decode :: "string \<Rightarrow> string + bytes" \<comment> \<open>\<open>STANDARD.decode\<close>\<close>
  jcs :: "json \<Rightarrow> string + string" \<comment> \<open>RFC 8785 canonical JSON\<close>
  json_print :: "json \<Rightarrow> string" \<comment> \<open>\<open>serde_json::to_string\<close>\<close>
  json_parse :: "string \<Rightarrow> string + json" \<comment> \<open>\<open>serde_json::from_str\<close>\<close>
  url_encode :: "string \<Rightarrow> string" \<comment> \<open>\<open>urlencoding::encode\<close>\<close>
  to_lowercase :: "string \<Rightarrow> string" \<comment> \<open>Unicode case tables\<close>
  to_uppercase :: "string \<Rightarrow> string"
  nfc :: "string \<Rightarrow> string" \<comment> \<open>Unicode normalization\<close>
  uni_letter :: "string \<Rightarrow> bool" \<comment> \<open>\<open>\p{L}\<close> of one character\<close>
  uni_number :: "string \<Rightarrow> bool" \<comment> \<open>\<open>\p{N}\<close>\<close>
  uni_mark :: "string \<Rightarrow> bool" \<comment> \<open>\<open>\p{M}\<close>\<close>
  uni_digit :: "string \<Rightarrow> bool" \<comment> \<open>\<open>\d\<close>\<close>
  uni_control :: "string \<Rightarrow> bool" \<comment> \<open>\<open>\p{Cc}\<close>\<close>
  uni_format :: "string \<Rightarrow> bool" \<comment> \<open>\<open>\p{Cf}\<close>\<close>

section \<open>Documented behaviour\<close>

definition hash_lengths :: "deps \<Rightarrow> bool" where
  "hash_lengths D \<longleftrightarrow>
     (\<forall>bs. length (sha1 D bs) = 20 \<and> length (sha256 D bs) = 32 \<and> length (sha512 D bs) = 64
        \<and> (\<forall>k. length (hmac_sha256 D k bs) = 32))"

definition hex_doc :: "deps \<Rightarrow> bool" where
  "hex_doc D \<longleftrightarrow>
     (\<forall>bs. hex_encode D bs = lower_hex bs \<and> hex_encode_upper D bs = upper_hex bs)"

text \<open>
  Base64url without padding decodes what it encodes, and uses letters, digits, \<open>-\<close> and \<open>_\<close>.
\<close>

definition b64url_char :: "char \<Rightarrow> bool" where
  "b64url_char c \<longleftrightarrow> is_alnum c \<or> c = CHR ''-'' \<or> c = CHR ''_''"

definition b64url_doc :: "deps \<Rightarrow> bool" where
  "b64url_doc D \<longleftrightarrow>
     (\<forall>bs. b64url_decode D (b64url_encode D bs) = Inr bs
        \<and> list_all b64url_char (b64url_encode D bs))"

text \<open>
  The values that \<open>serde_json\<close> reads back from the text it prints for them: integers of an
  \<open>i64\<close> or a \<open>u64\<close>, no floats, strings of UTF-8, maps in the order of their keys, and a
  nesting below the recursion limit of its parser, which is 128.
\<close>

function plain_json :: "nat \<Rightarrow> json \<Rightarrow> bool" where
  "plain_json n JNull = True"
| "plain_json n (JBool b) = True"
| "plain_json n (JInt i) = (- (2 ^ 63) \<le> i \<and> i < 2 ^ 64)"
| "plain_json n (JFloat s) = False"
| "plain_json n (JStr s) = utf8_valid s"
| "plain_json n (JArr vs) = (if n = 0 then False else list_all (plain_json (n - 1)) vs)"
| "plain_json n (JObj m) =
     (if n = 0 then False
      else ordered_map m \<and> list_all (\<lambda>(k, v). utf8_valid k \<and> plain_json (n - 1) v) m)"
  by pat_completeness auto
termination by (relation "measure fst") auto

definition json_doc :: "deps \<Rightarrow> bool" where
  "json_doc D \<longleftrightarrow> (\<forall>v. plain_json 127 v \<longrightarrow> json_parse D (json_print D v) = Inr v)"

lemma hash_lengthsD:
  assumes "hash_lengths D"
  shows "length (sha1 D bs) = 20" "length (sha256 D bs) = 32" "length (sha512 D bs) = 64"
    "length (hmac_sha256 D k bs) = 32"
  using assms by (auto simp: hash_lengths_def)

lemma hex_docD:
  assumes "hex_doc D"
  shows "hex_encode D bs = lower_hex bs" "hex_encode_upper D bs = upper_hex bs"
  using assms by (auto simp: hex_doc_def)

lemma b64url_docD:
  assumes "b64url_doc D"
  shows "b64url_decode D (b64url_encode D bs) = Inr bs"
    "list_all b64url_char (b64url_encode D bs)"
  using assms by (auto simp: b64url_doc_def)

lemma b64url_inject: "b64url_doc D \<Longrightarrow> b64url_encode D as = b64url_encode D bs \<longleftrightarrow> as = bs"
  by (metis b64url_docD(1) sum.inject(2))

lemma b64url_char_ascii: "b64url_char c \<Longrightarrow> ascii c"
  by (auto simp: b64url_char_def is_alnum_def is_digit_def is_upper_def is_lower_def ascii_def)

section \<open>A concrete record\<close>

text \<open>
  Truncating to a fixed length stands for a hash, and lower-case hexadecimal, whose digits
  are base64url characters, for the reversible text encodings.
\<close>

definition fix_len :: "nat \<Rightarrow> bytes \<Rightarrow> bytes" where
  "fix_len n bs = take n (bs @ replicate n 0)"

definition hex_val :: "char \<Rightarrow> nat" where
  "hex_val c = (if is_digit c then of_char c - 48 else of_char c - 87)"

fun unhex :: "string \<Rightarrow> string + bytes" where
  "unhex [] = Inr []"
| "unhex [a] = Inl ''odd length''"
| "unhex (a # b # r) =
     (if is_lower_hexdigit a \<and> is_lower_hexdigit b
      then and_then (unhex r) (\<lambda>bs. Inr (word_of_nat (16 * hex_val a + hex_val b) # bs))
      else Inl ''invalid character'')"

definition sample_deps :: deps where
  "sample_deps = \<lparr>
     sha1 = fix_len 20, sha256 = fix_len 32, sha512 = fix_len 64,
     hmac_sha256 = (\<lambda>k bs. fix_len 32 (k @ bs)),
     hex_encode = lower_hex, hex_encode_upper = upper_hex, hex_decode = unhex,
     b64url_encode = lower_hex, b64url_decode = unhex, b64url_pad_decode = unhex,
     b64_decode = unhex,
     jcs = (\<lambda>v. Inr ''{}''), json_print = (\<lambda>v. ''{}''), json_parse = (\<lambda>s. Inr (JObj [])),
     url_encode = id, to_lowercase = id, to_uppercase = map to_ascii_upper, nfc = id,
     uni_letter = (\<lambda>ch. length ch = 1 \<and> (is_upper (hd ch) \<or> is_lower (hd ch))),
     uni_number = (\<lambda>ch. length ch = 1 \<and> is_digit (hd ch)),
     uni_mark = (\<lambda>ch. False),
     uni_digit = (\<lambda>ch. length ch = 1 \<and> is_digit (hd ch)),
     uni_control = (\<lambda>ch. length ch = 1 \<and> (of_char (hd ch) :: nat) < 32),
     uni_format = (\<lambda>ch. False)\<rparr>"

lemma length_fix_len [simp]: "length (fix_len n bs) = n"
  by (simp add: fix_len_def)

lemma hex_val_lower_digit: "n < 16 \<Longrightarrow> hex_val (lower_digit n) = n"
  by (auto simp: hex_val_def lower_digit_def is_digit_def)

lemma unhex_lower_hex [simp]: "unhex (lower_hex bs) = Inr bs"
proof (induction bs)
  case Nil
  then show ?case by (simp add: lower_hex_def)
next
  case (Cons b bs)
  have "lower_hex (b # bs) =
      lower_digit (unat b div 16) # lower_digit (unat b mod 16) # lower_hex bs"
    by (simp add: lower_hex_def lower_hex2_def)
  moreover have "word_of_nat (16 * (unat b div 16) + unat b mod 16) = b"
    by simp
  ultimately show ?case
    by (simp add: Cons.IH lower_digit_class byte_nibbles hex_val_lower_digit
        del: of_nat_add of_nat_mult)
qed

lemma lower_hexdigit_b64url: "is_lower_hexdigit c \<Longrightarrow> b64url_char c"
  by (auto simp: is_lower_hexdigit_def b64url_char_def is_alnum_def is_lower_def)

lemma sample_deps_ok [simp]:
  "hash_lengths sample_deps" "hex_doc sample_deps" "b64url_doc sample_deps"
  using lower_hex_class
  by (auto simp: sample_deps_def hash_lengths_def hex_doc_def b64url_doc_def list_all_iff
      lower_hexdigit_b64url)

end
