(* ===== verification/Ckvf.thy ===== *)
theory Ckvf
  imports Deps
begin

text \<open>
  What \<open>crates/scomm-vault\<close> uses of the \<open>ckvf\<close> container crate (library name \<open>scomm_vault\<close>, a
  git dependency that is not part of this repository): the fields of its structures that
  the client reads or writes, and its functions as one record of parameters. A function that
  draws random bytes or reads the clock acts on the environment \<open>'h\<close>; the others are pure.
  \<open>errors.rs\<close>, the error type of the vault client, is modelled here too, because both sides
  of the interface use it.
\<close>

section \<open>Errors\<close>

datatype ckvf_error = Code string | WithMessage string string

fun ckvf_code :: "ckvf_error \<Rightarrow> string" where
  "ckvf_code (Code c) = c"
| "ckvf_code (WithMessage c m) = c"

record verr =
  verr_code :: string
  verr_message :: "string option"
  verr_status :: "u16 option"
  verr_details :: "jmap option"

definition verr_with_status ::
  "string \<Rightarrow> string option \<Rightarrow> u16 option \<Rightarrow> jmap option \<Rightarrow> verr" where
  "verr_with_status code msg status details =
     \<lparr>verr_code = code, verr_message = msg, verr_status = status, verr_details = details\<rparr>"

definition verr_new :: "string \<Rightarrow> string option \<Rightarrow> verr" where
  "verr_new code msg = verr_with_status code msg None None"

definition verr_code_str :: "string \<Rightarrow> verr" where
  "verr_code_str code = verr_new code None"

definition verr_msg :: "string \<Rightarrow> string \<Rightarrow> verr" where
  "verr_msg code msg = verr_new code (Some msg)"

definition verr_display :: "verr \<Rightarrow> string" where
  "verr_display e =
     ''VaultClientException('' @ verr_code e
     @ (case verr_status e of Some s \<Rightarrow> '' '' @ show_nat (unat s) | None \<Rightarrow> [])
     @ (case verr_message e of Some m \<Rightarrow> '': '' @ m | None \<Rightarrow> [])
     @ '')''"

text \<open>\<open>impl From<CkvfError> for VaultClientError\<close>, which \<open>?\<close> and \<open>into\<close> apply.\<close>

fun from_ckvf :: "ckvf_error \<Rightarrow> verr" where
  "from_ckvf (Code c) = verr_new c None"
| "from_ckvf (WithMessage c m) = verr_new c (Some m)"

lemma verr_code_simps [simp]:
  "verr_code (verr_with_status c m s d) = c" "verr_code (verr_new c m) = c"
  "verr_code (verr_code_str c) = c" "verr_code (verr_msg c x) = c"
  by (simp_all add: verr_with_status_def verr_new_def verr_code_str_def verr_msg_def)

lemma verr_code_from_ckvf [simp]: "verr_code (from_ckvf e) = ckvf_code e"
  by (cases e) simp_all

section \<open>Structures\<close>

text \<open>\<open>_rest\<close> stands for the fields this repository never reads; they are copied along.\<close>

record slot_oprf =
  so_kid :: string
  so_public_key :: string

record unlock_slot =
  sl_id :: string
  sl_method :: string
  sl_oprf :: "slot_oprf option"
  sl_rest :: json

record container =
  c_vault_id :: string
  c_generation :: u64
  c_generation_hash :: string
  c_slots :: "unlock_slot list"
  c_rest :: json

record msk_keys =
  m_private :: string
  m_public :: string
  m_history :: "string list"
  m_rest :: json

record key_record =
  k_id :: string
  k_status :: string
  k_rest :: json

record extension =
  e_id :: string
  e_critical :: bool
  e_data :: json

record payload =
  p_identity :: json
  p_msk :: msk_keys
  p_keys :: "key_record list"
  p_preferred_keys :: jmap
  p_metadata :: json
  p_tombstones :: json
  p_extensions :: "extension list"
  p_critical_extensions :: json

record unlocked =
  u_container :: container
  u_payload :: payload
  u_vek :: bytes

section \<open>Functions\<close>

record pepper_key =
  pk_kid :: string
  pk_public :: bytes

text \<open>The trait \<open>PepperOprf\<close>: \<open>finalize(vault_id, slot_id, kid, public_key, secret)\<close>.\<close>

type_synonym 'h pepper_oprf =
  "string \<Rightarrow> string \<Rightarrow> string \<Rightarrow> bytes \<Rightarrow> bytes \<Rightarrow> ('h, ckvf_error, bytes) act"

record 'h create_options =
  co_identity_type :: string
  co_identity_value :: string
  co_password :: "string option"
  co_now :: string
  co_msk_seed :: "bytes option"
  co_extensions :: "extension list"
  co_extra_slots :: "string \<Rightarrow> bytes \<Rightarrow> ('h, ckvf_error, unlock_slot list) act"

record 'h ckvf =
  ck_recovery_method :: string \<comment> \<open>\<open>RECOVERY_CODE_OPRF_METHOD\<close>\<close>
  ck_password_method :: string \<comment> \<open>\<open>PASSWORD_OPRF_METHOD\<close>\<close>
  ck_random :: "nat \<Rightarrow> 'h \<Rightarrow> bytes \<times> 'h"
  ck_now_ms :: "'h \<Rightarrow> int \<times> 'h" \<comment> \<open>\<open>SystemTime::now()\<close> in Unix milliseconds\<close>
  ck_rfc3339 :: "string option \<Rightarrow> 'h \<Rightarrow> string \<times> 'h"
  ck_b64_encode :: "bytes \<Rightarrow> string"
  ck_b64_decode :: "string \<Rightarrow> string + bytes"
  ck_canonicalize :: "json \<Rightarrow> string + string"
  ck_ed_public :: "bytes \<Rightarrow> bytes"
  ck_ed_sign :: "bytes \<Rightarrow> bytes \<Rightarrow> ckvf_error + bytes"
  ck_ed_verify :: "bytes \<Rightarrow> bytes \<Rightarrow> bytes \<Rightarrow> bool"
  ck_aes_encrypt :: "bytes \<Rightarrow> bytes \<Rightarrow> bytes \<Rightarrow> bytes \<Rightarrow> ckvf_error + bytes \<times> bytes"
  ck_aes_decrypt :: "bytes \<Rightarrow> bytes \<Rightarrow> bytes \<Rightarrow> bytes \<Rightarrow> bytes \<Rightarrow> ckvf_error + bytes"
  ck_to_json :: "container \<Rightarrow> json"
  ck_serialize :: "container \<Rightarrow> ckvf_error + string"
  ck_validate_shape :: "json \<Rightarrow> ckvf_error + container"
  ck_open_device :: "json \<Rightarrow> string \<Rightarrow> bytes \<Rightarrow> ckvf_error + unlocked"
  ck_open_vek :: "json \<Rightarrow> bytes \<Rightarrow> ckvf_error + unlocked"
  ck_open_pepper ::
    "json \<Rightarrow> string \<Rightarrow> 'h pepper_oprf \<Rightarrow> string \<Rightarrow> string option
       \<Rightarrow> ('h, ckvf_error, unlocked) act"
  ck_open_password :: "json \<Rightarrow> string \<Rightarrow> ckvf_error + unlocked"
  ck_pepper_secret :: "string \<Rightarrow> string \<Rightarrow> ckvf_error + bytes"
  ck_create :: "'h create_options \<Rightarrow> ('h, ckvf_error, unlocked) act"
  ck_wrap_device_slot ::
    "string \<Rightarrow> bytes \<Rightarrow> bytes \<Rightarrow> string \<Rightarrow> string \<Rightarrow> ('h, ckvf_error, unlock_slot) act"
  ck_wrap_pepper_slot ::
    "string \<Rightarrow> bytes \<Rightarrow> string \<Rightarrow> string \<Rightarrow> 'h pepper_oprf \<Rightarrow> pepper_key
       \<Rightarrow> ('h, ckvf_error, unlock_slot) act"
  ck_commit_slots :: "unlocked \<Rightarrow> unlock_slot list \<Rightarrow> ('h, ckvf_error, unlocked) act"
  ck_remove_slot :: "unlocked \<Rightarrow> string \<Rightarrow> ('h, ckvf_error, unlocked) act"
  ck_update_extensions :: "unlocked \<Rightarrow> extension list \<Rightarrow> ('h, ckvf_error, unlocked) act"
  ck_import_key ::
    "unlocked \<Rightarrow> string \<Rightarrow> string \<Rightarrow> string \<Rightarrow> string list \<Rightarrow> bytes \<Rightarrow> bytes \<Rightarrow> string option
       \<Rightarrow> ('h, ckvf_error, unlocked) act"
  ck_get_key :: "unlocked \<Rightarrow> string \<Rightarrow> key_record option"
  ck_key_ids :: "bytes \<Rightarrow> ckvf_error + string \<times> string"
  ck_canonical_openpgp :: "bytes \<Rightarrow> bytes \<Rightarrow> ckvf_error + bytes"
  ck_retire :: "unlocked \<Rightarrow> string \<Rightarrow> ('h, ckvf_error, unlocked) act"
  ck_revoke :: "unlocked \<Rightarrow> string \<Rightarrow> ('h, ckvf_error, unlocked) act"
  ck_delete_private :: "unlocked \<Rightarrow> string \<Rightarrow> string \<Rightarrow> ('h, ckvf_error, unlocked) act"
  ck_set_preferred ::
    "unlocked \<Rightarrow> string \<Rightarrow> string \<Rightarrow> string option \<Rightarrow> ('h, ckvf_error, unlocked) act"
  ck_generate_recovery_code :: "'h \<Rightarrow> string \<times> 'h"
  ck_merge :: "unlocked \<Rightarrow> unlocked \<Rightarrow> ('h, ckvf_error, unlocked \<times> json list) act"
  ck_rechain :: "unlocked \<Rightarrow> u64 \<Rightarrow> string option \<Rightarrow> ('h, ckvf_error, unlocked) act"

text \<open>A \<open>ckvf\<close> call followed by \<open>?\<close> or \<open>map_err(Into::into)\<close>.\<close>

definition ckvf_act :: "('h, ckvf_error, 'a) act \<Rightarrow> ('h, verr, 'a) act" where
  "ckvf_act m = (\<lambda>h. case m h of (r, h') \<Rightarrow> (map_err from_ckvf r, h'))"

text \<open>An effect that cannot fail, as an effectful computation.\<close>

definition effect :: "('h \<Rightarrow> 'a \<times> 'h) \<Rightarrow> ('h, 'e, 'a) act" where
  "effect f = (\<lambda>h. case f h of (a, h') \<Rightarrow> (Inr a, h'))"

lemma ckvf_act_Inr_iff [simp]: "ckvf_act m h = (Inr a, h') \<longleftrightarrow> m h = (Inr a, h')"
  by (auto simp: ckvf_act_def split: prod.splits)

lemma ckvf_act_Inl_iff: "ckvf_act m h = (Inl e, h') \<longleftrightarrow> (\<exists>c. m h = (Inl c, h') \<and> e = from_ckvf c)"
  by (cases "m h"; cases "fst (m h)") (auto simp: ckvf_act_def)

lemma effect_not_Inl [simp]: "effect f h \<noteq> (Inl e, h')"
  by (auto simp: effect_def split: prod.splits)

lemma effect_Inr_iff [simp]: "effect f h = (Inr a, h') \<longleftrightarrow> f h = (a, h')"
  by (auto simp: effect_def split: prod.splits)

section \<open>Documented behaviour\<close>

definition ck_b64_doc :: "'h ckvf \<Rightarrow> bool" where
  "ck_b64_doc K \<longleftrightarrow>
     (\<forall>bs. ck_b64_decode K (ck_b64_encode K bs) = Inr bs
        \<and> list_all b64url_char (ck_b64_encode K bs)
        \<and> (ck_b64_encode K bs = [] \<longleftrightarrow> bs = []))"

definition ck_random_doc :: "'h ckvf \<Rightarrow> bool" where
  "ck_random_doc K \<longleftrightarrow> (\<forall>n h. length (fst (ck_random K n h)) = n)"

definition ck_signature_doc :: "'h ckvf \<Rightarrow> bool" where
  "ck_signature_doc K \<longleftrightarrow>
     (\<forall>seed m sig. length seed = 32 \<longrightarrow> ck_ed_sign K seed m = Inr sig
        \<longrightarrow> length sig = 64 \<and> ck_ed_verify K (ck_ed_public K seed) m sig)"

lemma ck_b64_docD:
  assumes "ck_b64_doc K"
  shows "ck_b64_decode K (ck_b64_encode K bs) = Inr bs" "list_all b64url_char (ck_b64_encode K bs)"
    "ck_b64_encode K bs = [] \<longleftrightarrow> bs = []"
  using assms by (auto simp: ck_b64_doc_def)

lemma ck_b64_inject:
  "ck_b64_doc K \<Longrightarrow> ck_b64_encode K as = ck_b64_encode K bs \<longleftrightarrow> as = bs"
  by (metis ck_b64_docD(1) sum.inject(2))

text \<open>AES-256-GCM: a 16-byte tag, and decryption undoes encryption.\<close>

definition ck_aes_doc :: "'h ckvf \<Rightarrow> bool" where
  "ck_aes_doc K \<longleftrightarrow>
     (\<forall>key iv pt aad ct tag. ck_aes_encrypt K key iv pt aad = Inr (ct, tag)
        \<longrightarrow> length tag = 16 \<and> ck_aes_decrypt K key iv ct tag aad = Inr pt)"

lemma ck_aes_docD:
  "ck_aes_doc K \<Longrightarrow> ck_aes_encrypt K key iv pt aad = Inr (ct, tag)
     \<Longrightarrow> length tag = 16 \<and> ck_aes_decrypt K key iv ct tag aad = Inr pt"
  by (auto simp: ck_aes_doc_def)

lemma ck_signature_docD:
  "ck_signature_doc K \<Longrightarrow> length seed = 32 \<Longrightarrow> ck_ed_sign K seed m = Inr sig
     \<Longrightarrow> length sig = 64 \<and> ck_ed_verify K (ck_ed_public K seed) m sig"
  by (auto simp: ck_signature_doc_def)

section \<open>A concrete record\<close>

text \<open>
  A counter stands for the environment: it seeds the random bytes and is the clock. A new
  generation gets a longer generation hash, a signature is the signed prefix of the message,
  and the AEAD tag is a prefix of the key. The witnesses run the client on this record.
\<close>

definition sample_container :: container where
  "sample_container = \<lparr>c_vault_id = ''v1'', c_generation = 1, c_generation_hash = ''h'',
     c_slots = [], c_rest = JNull\<rparr>"

definition sample_payload :: payload where
  "sample_payload = \<lparr>p_identity = JNull,
     p_msk = \<lparr>m_private = lower_hex (replicate 32 7), m_public = lower_hex (replicate 32 7),
       m_history = [], m_rest = JNull\<rparr>,
     p_keys = [], p_preferred_keys = [], p_metadata = JNull, p_tombstones = JNull,
     p_extensions = [], p_critical_extensions = JNull\<rparr>"

definition sample_vault :: unlocked where
  "sample_vault = \<lparr>u_container = sample_container, u_payload = sample_payload,
     u_vek = replicate 32 9\<rparr>"

definition sample_step :: "container \<Rightarrow> container" where
  "sample_step c = c\<lparr>c_generation := c_generation c + 1,
     c_generation_hash := c_generation_hash c @ ''+''\<rparr>"

definition sample_edit :: "(unlocked \<Rightarrow> unlocked) \<Rightarrow> unlocked \<Rightarrow> (nat, ckvf_error, unlocked) act" where
  "sample_edit f v = aret (f (v\<lparr>u_container := sample_step (u_container v)\<rparr>))"

definition sample_slot :: "string \<Rightarrow> string \<Rightarrow> unlock_slot" where
  "sample_slot sid method =
     \<lparr>sl_id = sid, sl_method = method, sl_oprf = None, sl_rest = JNull\<rparr>"

definition sample_ckvf :: "nat ckvf" where
  "sample_ckvf = \<lparr>
     ck_recovery_method = ''code'', ck_password_method = ''password'',
     ck_random = (\<lambda>n h. (replicate n (word_of_nat h), Suc h)),
     ck_now_ms = (\<lambda>h. (int h, Suc h)),
     ck_rfc3339 = (\<lambda>now h. (case now of Some t \<Rightarrow> t | None \<Rightarrow> ''2026-01-01T00:00:00Z'', h)),
     ck_b64_encode = lower_hex,
     ck_b64_decode = unhex,
     ck_canonicalize = (\<lambda>v. Inr ''{}''),
     ck_ed_public = id,
     ck_ed_sign = (\<lambda>seed m. Inr (fix_len 64 (seed @ m))),
     ck_ed_verify = (\<lambda>pk m sig. sig = fix_len 64 (pk @ m)),
     ck_aes_encrypt = (\<lambda>key iv pt aad. Inr (pt, fix_len 16 key)),
     ck_aes_decrypt = (\<lambda>key iv ct tag aad.
       if tag = fix_len 16 key then Inr ct else Inl (Code ''ERR_WRAP_DECRYPT'')),
     ck_to_json = (\<lambda>c. JStr (c_generation_hash c)),
     ck_serialize = (\<lambda>c. Inr (c_generation_hash c)),
     ck_validate_shape = (\<lambda>j. Inr sample_container),
     ck_open_device = (\<lambda>j sid kek. Inr sample_vault),
     ck_open_vek = (\<lambda>j k. Inr (sample_vault\<lparr>u_vek := k\<rparr>)),
     ck_open_pepper = (\<lambda>j secret pepper method sid. aret sample_vault),
     ck_open_password = (\<lambda>j pw. Inr sample_vault),
     ck_pepper_secret = (\<lambda>method secret. Inr (bytes_of secret)),
     ck_create = (\<lambda>opts. abind (co_extra_slots opts ''v1'' (replicate 32 9)) (\<lambda>slots.
       aret (sample_vault\<lparr>u_container := sample_container\<lparr>c_slots := slots\<rparr>,
         u_payload := sample_payload\<lparr>p_extensions := co_extensions opts\<rparr>\<rparr>))),
     ck_wrap_device_slot = (\<lambda>vid k kek sid ts. aret (sample_slot sid ''device-wrap-a256gcm'')),
     ck_wrap_pepper_slot = (\<lambda>vid k method secret pepper key. aret (sample_slot ''p'' method)),
     ck_commit_slots = (\<lambda>v slots.
       sample_edit (\<lambda>v. v\<lparr>u_container := (u_container v)\<lparr>c_slots := slots\<rparr>\<rparr>) v),
     ck_remove_slot = (\<lambda>v sid.
       sample_edit (\<lambda>v. v\<lparr>u_container := (u_container v)\<lparr>c_slots :=
         filter (\<lambda>s. sl_id s \<noteq> sid) (c_slots (u_container v))\<rparr>\<rparr>) v),
     ck_update_extensions = (\<lambda>v e.
       sample_edit (\<lambda>v. v\<lparr>u_payload := (u_payload v)\<lparr>p_extensions := e\<rparr>\<rparr>) v),
     ck_import_key = (\<lambda>v family enc alg purpose priv pub created.
       sample_edit (\<lambda>v. v\<lparr>u_payload := (u_payload v)\<lparr>p_keys :=
         p_keys (u_payload v) @ [\<lparr>k_id = lower_hex pub, k_status = ''active'', k_rest = JNull\<rparr>]\<rparr>\<rparr>) v),
     ck_get_key = (\<lambda>v kid. find (\<lambda>k. k_id k = kid) (p_keys (u_payload v))),
     ck_key_ids = (\<lambda>pub. Inr (lower_hex pub, lower_hex pub)),
     ck_canonical_openpgp = (\<lambda>pub priv. Inr pub),
     ck_retire = (\<lambda>v kid. if find (\<lambda>k. k_id k = kid) (p_keys (u_payload v)) = None
       then afail (Code ''ERR_KEY_ID'') else sample_edit id v),
     ck_revoke = (\<lambda>v kid. if find (\<lambda>k. k_id k = kid) (p_keys (u_payload v)) = None
       then afail (Code ''ERR_KEY_ID'') else sample_edit id v),
     ck_delete_private = (\<lambda>v kid reason. sample_edit id v),
     ck_set_preferred = (\<lambda>v family purpose kid. sample_edit id v),
     ck_generate_recovery_code = (\<lambda>h. (''CODE'', Suc h)),
     ck_merge = (\<lambda>hd lc. abind (sample_edit id hd) (\<lambda>v. aret (v, []))),
     ck_rechain = (\<lambda>v g prev. aret (v\<lparr>u_container := (u_container v)\<lparr>c_generation := g,
       c_generation_hash := CHR ''r'' # c_generation_hash (u_container v)\<rparr>\<rparr>))\<rparr>"

lemma sample_ckvf_ok [simp]:
  "ck_b64_doc sample_ckvf" "ck_random_doc sample_ckvf" "ck_signature_doc sample_ckvf"
  "ck_aes_doc sample_ckvf"
  using lower_hex_class
  by (auto simp: sample_ckvf_def ck_b64_doc_def ck_random_doc_def ck_signature_doc_def
      ck_aes_doc_def list_all_iff lower_hexdigit_b64url lower_hex_eq_Nil)

end
