(* ===== verification/Signed_Text.thy ===== *)
theory Signed_Text
  imports Ckvf
begin

text \<open>
  The texts that an MSK or a device key signs: \<open>crates/discovery/src/canonical.rs\<close> and
  \<open>crates/scomm-vault/src/signing.rs\<close>. One seed signs all of them, so what matters is that
  a text determines its fields and that no text of one kind is a text of another kind.
\<close>

section \<open>canonical.rs\<close>

definition nl :: string where
  "nl = [CHR 0x0A]"

definition domain_separator :: "int \<Rightarrow> string \<Rightarrow> string" where
  "domain_separator version operation =
     ''SComm/Pubkey'' @ ''/'' @ show_int version @ ''/'' @ operation"

definition payload_sha256_hex :: "deps \<Rightarrow> json \<Rightarrow> string + string" where
  "payload_sha256_hex D payload =
     and_then (jcs D payload) (\<lambda>j. Inr (hex_encode D (sha256 D (bytes_of j))))"

definition canonical_signed_utf8 ::
  "deps \<Rightarrow> int \<Rightarrow> string \<Rightarrow> string \<Rightarrow> int \<Rightarrow> string \<Rightarrow> json \<Rightarrow> string + string" where
  "canonical_signed_utf8 D protocol_version operation prin timestamp nonce payload =
     and_then (payload_sha256_hex D payload) (\<lambda>payload_hash.
       Inr (domain_separator protocol_version operation
         @ nl @ ''principal='' @ prin
         @ nl @ ''timestamp='' @ show_int timestamp
         @ nl @ ''nonce='' @ nonce
         @ nl @ ''payload_sha256='' @ payload_hash @ nl))"

definition canonical_signed_bytes ::
  "deps \<Rightarrow> int \<Rightarrow> string \<Rightarrow> string \<Rightarrow> int \<Rightarrow> string \<Rightarrow> json \<Rightarrow> string + bytes" where
  "canonical_signed_bytes D protocol_version operation prin timestamp nonce payload =
     and_then (canonical_signed_utf8 D protocol_version operation prin timestamp nonce payload)
       (\<lambda>t. Inr (bytes_of t))"

definition encode_base64url :: "deps \<Rightarrow> bytes \<Rightarrow> string" where
  "encode_base64url D bs = b64url_encode D bs"

text \<open>Both alphabets and padding are accepted; the standard alphabet is the fallback.\<close>

definition decode_base64url :: "deps \<Rightarrow> string \<Rightarrow> string + bytes" where
  "decode_base64url D value =
     (let normalized = filter (\<lambda>c. c \<noteq> CHR ''='')
            (map (\<lambda>c. if c = CHR ''+'' then CHR ''-'' else if c = CHR ''/'' then CHR ''_'' else c)
              value)
      in case b64url_decode D normalized of
           Inr bs \<Rightarrow> Inr bs
         | Inl _ \<Rightarrow> b64_decode D value)"

section \<open>signing.rs\<close>

definition PROTOCOL_VERSION :: nat where
  "PROTOCOL_VERSION = 1"

definition vault_domain_separator :: "string \<Rightarrow> string" where
  "vault_domain_separator operation =
     ''SComm/Pubkey/'' @ show_nat PROTOCOL_VERSION @ ''/'' @ operation"

definition vault_payload_sha256_hex :: "deps \<Rightarrow> 'h ckvf \<Rightarrow> json \<Rightarrow> verr + string" where
  "vault_payload_sha256_hex D K payload =
     and_then (map_err (\<lambda>e. verr_msg ''bad_response'' e) (ck_canonicalize K payload))
       (\<lambda>j. Inr (hex_encode D (sha256 D (bytes_of j))))"

definition fresh_nonce :: "'h ckvf \<Rightarrow> 'h \<Rightarrow> string \<times> 'h" where
  "fresh_nonce K h = (case ck_random K 16 h of (bs, h') \<Rightarrow> (ck_b64_encode K bs, h'))"

definition now_ms :: "'h ckvf \<Rightarrow> int option \<Rightarrow> 'h \<Rightarrow> int \<times> 'h" where
  "now_ms K now h = (case now of Some t \<Rightarrow> (t, h) | None \<Rightarrow> ck_now_ms K h)"

definition vault_records_signing_text :: "string \<Rightarrow> string \<Rightarrow> u64 \<Rightarrow> string \<Rightarrow> string" where
  "vault_records_signing_text identity_id vid gen ghash =
     vault_domain_separator ''vault_records_put''
     @ nl @ ''principal='' @ identity_id
     @ nl @ ''vault_id='' @ vid
     @ nl @ ''generation='' @ show_nat (unat gen)
     @ nl @ ''generation_hash='' @ ghash @ nl"

text \<open>The texts that \<open>envelope\<close> and \<open>device_read_authorization\<close> format and sign.\<close>

definition envelope_text :: "string \<Rightarrow> string \<Rightarrow> int \<Rightarrow> string \<Rightarrow> string \<Rightarrow> string" where
  "envelope_text operation prin timestamp nonce payload_hash =
     vault_domain_separator operation
     @ nl @ ''principal='' @ prin
     @ nl @ ''timestamp='' @ show_int timestamp
     @ nl @ ''nonce='' @ nonce
     @ nl @ ''payload_sha256='' @ payload_hash @ nl"

definition device_read_text ::
  "string \<Rightarrow> string \<Rightarrow> string \<Rightarrow> int \<Rightarrow> string \<Rightarrow> string \<Rightarrow> string" where
  "device_read_text operation identity_id vid timestamp nonce payload_hash =
     vault_domain_separator operation
     @ nl @ ''principal='' @ identity_id
     @ nl @ ''vault_id='' @ vid
     @ nl @ ''timestamp='' @ show_int timestamp
     @ nl @ ''nonce='' @ nonce
     @ nl @ ''payload_sha256='' @ payload_hash @ nl"

text \<open>The struct \<open>MskSigner\<close>: a 32-byte seed.\<close>

record msk_signer =
  signer_seed :: bytes

definition msk_signer_new :: "bytes \<Rightarrow> verr + msk_signer" where
  "msk_signer_new seed =
     (if length seed \<noteq> 32 then Inl (verr_msg ''bad_response'' ''seed must be 32 bytes'')
      else Inr \<lparr>signer_seed = seed\<rparr>)"

definition msk_signer_from_vault :: "'h ckvf \<Rightarrow> unlocked \<Rightarrow> verr + msk_signer" where
  "msk_signer_from_vault K v =
     and_then (map_err (\<lambda>e. verr_msg ''bad_response'' e)
                (ck_b64_decode K (m_private (p_msk (u_payload v)))))
       (\<lambda>pk. msk_signer_new pk)"

definition signer_public_key :: "'h ckvf \<Rightarrow> msk_signer \<Rightarrow> bytes" where
  "signer_public_key K s = ck_ed_public K (signer_seed s)"

definition signer_sign :: "'h ckvf \<Rightarrow> msk_signer \<Rightarrow> bytes \<Rightarrow> verr + bytes" where
  "signer_sign K s message = map_err from_ckvf (ck_ed_sign K (signer_seed s) message)"

definition envelope ::
  "deps \<Rightarrow> 'h ckvf \<Rightarrow> msk_signer \<Rightarrow> string \<Rightarrow> string \<Rightarrow> json \<Rightarrow> int option \<Rightarrow> ('h, verr, json) act"
where
  "envelope D K s prin operation payload now =
     abind (effect (now_ms K now)) (\<lambda>timestamp.
     abind (effect (fresh_nonce K)) (\<lambda>nonce.
     abind (alift (vault_payload_sha256_hex D K payload)) (\<lambda>payload_hash.
     let text = envelope_text operation prin timestamp nonce payload_hash in
     abind (alift (signer_sign K s (bytes_of text))) (\<lambda>signature.
     aret (jobj [
       (''protocol_version'', JInt (int PROTOCOL_VERSION)),
       (''principal'', JStr prin),
       (''operation'', JStr operation),
       (''timestamp'', JInt timestamp),
       (''nonce'', JStr nonce),
       (''payload'', payload),
       (''signature'', jobj [
         (''algorithm'', JStr ''ed25519''),
         (''value'', JStr (ck_b64_encode K signature))])])))))"

definition record_signature ::
  "'h ckvf \<Rightarrow> msk_signer \<Rightarrow> string \<Rightarrow> container \<Rightarrow> verr + jmap" where
  "record_signature K s identity_id c =
     (let text = vault_records_signing_text identity_id (c_vault_id c) (c_generation c)
            (c_generation_hash c)
      in and_then (signer_sign K s (bytes_of text)) (\<lambda>signature.
           Inr (obj_of [
             (''algorithm'', JStr ''ed25519''),
             (''value'', JStr (ck_b64_encode K signature))])))"

section \<open>Texts as lines\<close>

definition lines_text :: "string list \<Rightarrow> string" where
  "lines_text ls = concat (map (\<lambda>l. l @ nl) ls)"

definition one_line :: "string \<Rightarrow> bool" where
  "one_line s \<longleftrightarrow> CHR 0x0A \<notin> set s"

lemma one_line_append [simp]: "one_line (s @ t) \<longleftrightarrow> one_line s \<and> one_line t"
  by (auto simp: one_line_def)

lemma one_line_Cons [simp]: "one_line (c # s) \<longleftrightarrow> c \<noteq> CHR 0x0A \<and> one_line s"
  "one_line []"
  by (auto simp: one_line_def)

lemma one_line_show_nat [simp]: "one_line (show_nat n)"
  unfolding one_line_def by (rule show_nat_no_char) (simp add: is_digit_def)

lemma one_line_show_int [simp]: "one_line (show_int i)"
  using show_int_chars [of "CHR 0x0A" i] by (auto simp: one_line_def is_digit_def)

lemma one_line_hex64: "hex64 s \<Longrightarrow> one_line s"
  unfolding one_line_def by (rule hex64_no_char) (auto simp: is_lower_hexdigit_def is_digit_def)

lemma one_line_b64url: "list_all b64url_char s \<Longrightarrow> one_line s"
  by (auto simp: one_line_def list_all_iff b64url_char_def is_alnum_def is_digit_def is_upper_def
      is_lower_def)

lemma split_lines_text:
  "list_all one_line ls \<Longrightarrow> split_char (CHR 0x0A) (lines_text ls) = ls @ [[]]"
proof (induction ls)
  case Nil
  then show ?case by (simp add: lines_text_def)
next
  case (Cons l ls)
  have "lines_text (l # ls) = l @ CHR 0x0A # lines_text ls"
    by (simp add: lines_text_def nl_def)
  with Cons show ?case by (simp add: split_char_append one_line_def)
qed

lemma lines_text_inject:
  assumes "list_all one_line ls" and "list_all one_line ms"
  shows "lines_text ls = lines_text ms \<longleftrightarrow> ls = ms"
  using assms split_lines_text by (metis butlast_snoc)

lemma one_line_domain [simp]:
  "one_line (domain_separator v op) \<longleftrightarrow> one_line op"
  "one_line (vault_domain_separator op) \<longleftrightarrow> one_line op"
  by (simp_all add: domain_separator_def vault_domain_separator_def)

lemma vault_domain_separator_canonical: "vault_domain_separator op = domain_separator 1 op"
  by (simp add: vault_domain_separator_def domain_separator_def PROTOCOL_VERSION_def show_int_def)

lemma domain_separator_inject:
  "domain_separator v op = domain_separator v' op' \<longleftrightarrow> v = v' \<and> op = op'"
proof
  have no_slash: "CHR ''/'' \<notin> set (show_int i)" for i
    using show_int_chars [of "CHR ''/''" i] by (auto simp: is_digit_def)
  have s: "split_once (CHR ''/'') (show_int i @ ''/'' @ p) = Some (show_int i, p)" for i p
    using no_slash [of i] by simp
  assume "domain_separator v op = domain_separator v' op'"
  then have "show_int v @ ''/'' @ op = show_int v' @ ''/'' @ op'"
    by (simp add: domain_separator_def)
  then have "Some (show_int v, op) = Some (show_int v', op')"
    using s by metis
  then show "v = v' \<and> op = op'" by simp
qed simp

section \<open>The formats as lines\<close>

lemma records_lines:
  "vault_records_signing_text i v g h =
     lines_text [vault_domain_separator ''vault_records_put'', ''principal='' @ i,
       ''vault_id='' @ v, ''generation='' @ show_nat (unat g), ''generation_hash='' @ h]"
  by (simp add: lines_text_def vault_records_signing_text_def)

lemma envelope_lines:
  "envelope_text op p t n h =
     lines_text [vault_domain_separator op, ''principal='' @ p, ''timestamp='' @ show_int t,
       ''nonce='' @ n, ''payload_sha256='' @ h]"
  by (simp add: lines_text_def envelope_text_def)

lemma device_read_lines:
  "device_read_text op i v t n h =
     lines_text [vault_domain_separator op, ''principal='' @ i, ''vault_id='' @ v,
       ''timestamp='' @ show_int t, ''nonce='' @ n, ''payload_sha256='' @ h]"
  by (simp add: lines_text_def device_read_text_def)

lemmas text_lines = records_lines envelope_lines device_read_lines

lemma canonical_signed_utf8_Inr_iff:
  "canonical_signed_utf8 D v op p t n payload = Inr s \<longleftrightarrow>
     (\<exists>h. payload_sha256_hex D payload = Inr h \<and>
        s = lines_text [domain_separator v op, ''principal='' @ p, ''timestamp='' @ show_int t,
              ''nonce='' @ n, ''payload_sha256='' @ h])"
  by (auto simp: canonical_signed_utf8_def and_then_Inr_iff lines_text_def)

lemma payload_sha256_hex_hex64:
  assumes "hash_lengths D" "hex_doc D" "payload_sha256_hex D payload = Inr h"
  shows "hex64 h"
  using assms by (auto simp: payload_sha256_hex_def and_then_Inr_iff hex_docD hash_lengthsD lower_hex_64)

section \<open>What a signed text says\<close>

text \<open>
  C1. Of fields without line breaks, a canonical signed text determines every one it was built
  from: two requests whose operation, principal and nonce are single lines and that give the
  same text have the same protocol version, operation, principal, timestamp and nonce, and
  payloads of the same hash. The code refuses no line break, and with one the text is ambiguous
  (\<open>canonical_text_ambiguous\<close>).
\<close>

theorem canonical_signed_injective:
  assumes "canonical_signed_utf8 D v op p t n payload = Inr s"
    and "canonical_signed_utf8 D v' op' p' t' n' payload' = Inr s"
    and "hash_lengths D" "hex_doc D"
    and "one_line op" "one_line p" "one_line n" "one_line op'" "one_line p'" "one_line n'"
  shows "v = v' \<and> op = op' \<and> p = p' \<and> t = t' \<and> n = n'
    \<and> payload_sha256_hex D payload = payload_sha256_hex D payload'"
proof -
  obtain h h' where h: "payload_sha256_hex D payload = Inr h" "payload_sha256_hex D payload' = Inr h'"
    and eq: "lines_text [domain_separator v op, ''principal='' @ p, ''timestamp='' @ show_int t,
        ''nonce='' @ n, ''payload_sha256='' @ h]
      = lines_text [domain_separator v' op', ''principal='' @ p', ''timestamp='' @ show_int t',
        ''nonce='' @ n', ''payload_sha256='' @ h']"
    using assms(1,2) unfolding canonical_signed_utf8_Inr_iff by blast
  have "one_line h" "one_line h'"
    using h assms(3,4) payload_sha256_hex_hex64 one_line_hex64 by blast+
  with eq have "[domain_separator v op, ''principal='' @ p, ''timestamp='' @ show_int t,
        ''nonce='' @ n, ''payload_sha256='' @ h]
      = [domain_separator v' op', ''principal='' @ p', ''timestamp='' @ show_int t',
        ''nonce='' @ n', ''payload_sha256='' @ h']"
    using assms by (subst (asm) lines_text_inject) auto
  with h show ?thesis by (simp add: domain_separator_inject)
qed

theorem canonical_signed_injective_witness:
  "\<exists>s. canonical_signed_utf8 sample_deps 1 ''set_keys'' ''p'' 5 ''n'' (JObj []) = Inr s
     \<and> canonical_signed_utf8 sample_deps 1 ''set_keys'' ''p'' 5 ''m'' (JObj []) \<noteq> Inr s"
proof -
  let ?s = "projr (canonical_signed_utf8 sample_deps 1 ''set_keys'' ''p'' 5 ''n'' (JObj []))"
  have s: "canonical_signed_utf8 sample_deps 1 ''set_keys'' ''p'' 5 ''n'' (JObj []) = Inr ?s"
    by (simp add: canonical_signed_utf8_def payload_sha256_hex_def sample_deps_def)
  have "canonical_signed_utf8 sample_deps 1 ''set_keys'' ''p'' 5 ''m'' (JObj []) \<noteq> Inr ?s"
    using canonical_signed_injective [OF s, of 1 "''set_keys''" "''p''" 5 "''m''" "JObj []"] by auto
  with s show ?thesis by blast
qed

text \<open>A line break in a principal or a nonce moves the fields of the text.\<close>

lemma canonical_text_ambiguous:
  "canonical_signed_utf8 D v op (p @ nl @ ''timestamp='' @ show_int t @ nl @ ''nonce='' @ n) t' n' payload
     = canonical_signed_utf8 D v op p t (n @ nl @ ''timestamp='' @ show_int t' @ nl @ ''nonce='' @ n') payload"
  by (simp add: canonical_signed_utf8_def)

text \<open>
  C2. Domain separation of single-line fields: a records upload text, a request envelope text
  and a device read text are never equal when no field has a line break, although one MSK seed
  signs the first two and the operation name of the last two is free. The code refuses no line
  break, and a principal with one does collide: an envelope text for the principal
  \<open>i\nvault_id=v\<close> is the device read text of \<open>i\<close> and \<open>v\<close>.
\<close>

theorem signed_text_kinds_disjoint:
  assumes "list_all one_line [i, v, gh, op, p, n, h, op', i', v', n', h']"
  shows "vault_records_signing_text i v g gh \<noteq> envelope_text op p t n h
    \<and> vault_records_signing_text i v g gh \<noteq> device_read_text op' i' v' t' n' h'
    \<and> envelope_text op p t n h \<noteq> device_read_text op' i' v' t' n' h'
    \<and> envelope_text op' (i' @ nl @ ''vault_id='' @ v') t' n' h' = device_read_text op' i' v' t' n' h'"
proof -
  have "envelope_text op' (i' @ nl @ ''vault_id='' @ v') t' n' h' = device_read_text op' i' v' t' n' h'"
    by (simp add: envelope_text_def device_read_text_def)
  then show ?thesis using assms unfolding text_lines by (simp add: lines_text_inject)
qed

theorem signed_text_kinds_disjoint_witness:
  "vault_records_signing_text ''i'' ''v'' 1 ''gh''
     \<noteq> envelope_text ''vault_records_put'' ''i'' 1 ''n'' ''h''"
  using signed_text_kinds_disjoint [of "''i''" "''v''" "''gh''" "''vault_records_put''" "''i''"
      "''n''" "''h''" "''x''" "''i''" "''v''" "''n''" "''h''" 1 1]
  by simp

text \<open>What a successful \<open>envelope\<close> built and signed.\<close>

lemma envelope_runs:
  assumes "envelope D K s prin op payload now h = (Inr e, h')"
    and "length (signer_seed s) = 32" "ck_signature_doc K"
  obtains t n hash sig where "t = fst (now_ms K now h)"
    "n = fst (fresh_nonce K (snd (now_ms K now h)))"
    "vault_payload_sha256_hex D K payload = Inr hash"
    "ck_ed_verify K (signer_public_key K s) (bytes_of (envelope_text op prin t n hash)) sig"
    "e = jobj [(''protocol_version'', JInt (int PROTOCOL_VERSION)),
        (''principal'', JStr prin), (''operation'', JStr op), (''timestamp'', JInt t),
        (''nonce'', JStr n), (''payload'', payload),
        (''signature'', jobj [(''algorithm'', JStr ''ed25519''),
          (''value'', JStr (ck_b64_encode K sig))])]"
proof -
  from assms(1) obtain t n hash sig where "t = fst (now_ms K now h)"
    "n = fst (fresh_nonce K (snd (now_ms K now h)))"
    and hash: "vault_payload_sha256_hex D K payload = Inr hash"
    and sig: "signer_sign K s (bytes_of (envelope_text op prin t n hash)) = Inr sig"
    and "e = jobj [(''protocol_version'', JInt (int PROTOCOL_VERSION)),
        (''principal'', JStr prin), (''operation'', JStr op), (''timestamp'', JInt t),
        (''nonce'', JStr n), (''payload'', payload),
        (''signature'', jobj [(''algorithm'', JStr ''ed25519''),
          (''value'', JStr (ck_b64_encode K sig))])]"
    unfolding envelope_def Let_def by (auto simp: abind_Inr_iff)
  moreover have "ck_ed_verify K (signer_public_key K s) (bytes_of (envelope_text op prin t n hash)) sig"
    using sig assms(2,3) by (auto simp: signer_sign_def signer_public_key_def dest: ck_signature_docD)
  ultimately show thesis using hash by (intro that)
qed

text \<open>
  C3. The envelope the vault client builds says what it was asked to say and is signed: it has
  exactly the given operation, principal and payload, protocol version 1, the given time or
  else the clock's, and a fresh nonce, and the decoded signature value verifies under the
  signer's public key over the text of these very fields.
\<close>

theorem envelope_authentic:
  assumes "envelope D K s prin op payload now h = (Inr e, h')"
    and "length (signer_seed s) = 32" "ck_signature_doc K" "ck_b64_doc K"
  shows "\<exists>t n hash sig. t = fst (now_ms K now h) \<and> n = fst (fresh_nonce K (snd (now_ms K now h)))
     \<and> jget e ''protocol_version'' = Some (JInt 1)
     \<and> jget_str e ''operation'' = Some op \<and> jget_str e ''principal'' = Some prin
     \<and> jget e ''timestamp'' = Some (JInt t) \<and> jget_str e ''nonce'' = Some n
     \<and> jget e ''payload'' = Some payload \<and> vault_payload_sha256_hex D K payload = Inr hash
     \<and> map_option (ck_b64_decode K) (Option.bind (jget e ''signature'') (\<lambda>j. jget_str j ''value''))
         = Some (Inr sig)
     \<and> ck_ed_verify K (signer_public_key K s) (bytes_of (envelope_text op prin t n hash)) sig"
  by (rule envelope_runs [OF assms(1-3)])
    (auto simp: jget_str_def PROTOCOL_VERSION_def ck_b64_docD [OF assms(4)])

text \<open>A run for the witnesses.\<close>

definition sample_envelope_signer :: msk_signer where
  "sample_envelope_signer = \<lparr>signer_seed = replicate 32 7\<rparr>"

lemma sample_envelope_runs:
  "\<exists>e h'. envelope sample_deps sample_ckvf sample_envelope_signer ''p'' ''get_me'' JNull (Some 5) 3
     = (Inr e, h')"
  by (simp add: envelope_def abind_apply effect_def now_ms_def fresh_nonce_def sample_ckvf_def
      vault_payload_sha256_hex_def signer_sign_def sample_envelope_signer_def Let_def)

theorem envelope_authentic_witness:
  "\<exists>e h'. envelope sample_deps sample_ckvf sample_envelope_signer ''p'' ''get_me'' JNull (Some 5) 3
       = (Inr e, h')
     \<and> jget_str e ''operation'' = Some ''get_me'' \<and> jget_str e ''principal'' = Some ''p''
     \<and> jget e ''timestamp'' = Some (JInt 5) \<and> jget e ''payload'' = Some JNull"
proof -
  obtain e h' where e: "envelope sample_deps sample_ckvf sample_envelope_signer ''p'' ''get_me'' JNull
      (Some 5) 3 = (Inr e, h')"
    using sample_envelope_runs by blast
  from envelope_authentic [OF e] show ?thesis
    using e by (auto simp: sample_envelope_signer_def now_ms_def)
qed

text \<open>
  C4. The two crates sign the same bytes: where their JSON canonicalizers agree on the payload,
  the signature in an envelope of the vault crate verifies over the bytes that
  \<open>canonical_signed_bytes\<close> of the discovery crate builds from the fields of that envelope.
\<close>

theorem signed_texts_agree:
  assumes "envelope D K s prin op payload now h = (Inr e, h')"
    and "length (signer_seed s) = 32" "ck_signature_doc K" "ck_b64_doc K"
    and "\<And>j. ck_canonicalize K payload = Inr j \<Longrightarrow> jcs D payload = Inr j"
  shows "\<exists>v t n m sig. jget e ''protocol_version'' = Some (JInt v)
     \<and> jget_str e ''operation'' = Some op \<and> jget_str e ''principal'' = Some prin
     \<and> jget e ''timestamp'' = Some (JInt t) \<and> jget_str e ''nonce'' = Some n
     \<and> jget e ''payload'' = Some payload
     \<and> canonical_signed_bytes D v op prin t n payload = Inr m
     \<and> map_option (ck_b64_decode K) (Option.bind (jget e ''signature'') (\<lambda>j. jget_str j ''value''))
         = Some (Inr sig)
     \<and> ck_ed_verify K (signer_public_key K s) m sig"
proof -
  obtain t n hash sig where hash: "vault_payload_sha256_hex D K payload = Inr hash"
    and ver: "ck_ed_verify K (signer_public_key K s) (bytes_of (envelope_text op prin t n hash)) sig"
    and e: "e = jobj [(''protocol_version'', JInt (int PROTOCOL_VERSION)),
        (''principal'', JStr prin), (''operation'', JStr op), (''timestamp'', JInt t),
        (''nonce'', JStr n), (''payload'', payload),
        (''signature'', jobj [(''algorithm'', JStr ''ed25519''),
          (''value'', JStr (ck_b64_encode K sig))])]"
    by (rule envelope_runs [OF assms(1-3)])
  have "payload_sha256_hex D payload = Inr hash"
    using hash assms(5) by (auto simp: vault_payload_sha256_hex_def payload_sha256_hex_def and_then_Inr_iff)
  then have "canonical_signed_bytes D 1 op prin t n payload = Inr (bytes_of (envelope_text op prin t n hash))"
    by (simp add: canonical_signed_bytes_def canonical_signed_utf8_def envelope_text_def
        vault_domain_separator_canonical)
  with ver show ?thesis
    by (intro exI [of _ 1] exI [of _ t] exI [of _ n] exI [of _ "bytes_of (envelope_text op prin t n hash)"] exI [of _ sig])
      (simp add: e jget_str_def PROTOCOL_VERSION_def ck_b64_docD [OF assms(4)])
qed

theorem signed_texts_agree_witness:
  "\<exists>e h' t n m. envelope sample_deps sample_ckvf sample_envelope_signer ''p'' ''get_me'' JNull (Some 5) 3
       = (Inr e, h')
     \<and> jget e ''timestamp'' = Some (JInt t) \<and> jget_str e ''nonce'' = Some n
     \<and> canonical_signed_bytes sample_deps 1 ''get_me'' ''p'' t n JNull = Inr m"
proof -
  obtain e h' where e: "envelope sample_deps sample_ckvf sample_envelope_signer ''p'' ''get_me'' JNull
      (Some 5) 3 = (Inr e, h')"
    using sample_envelope_runs by blast
  have "jget e ''protocol_version'' = Some (JInt 1)"
    using e by (auto simp: envelope_def abind_Inr_iff Let_def PROTOCOL_VERSION_def)
  moreover have "\<exists>v t n m sig. jget e ''protocol_version'' = Some (JInt v)
     \<and> jget_str e ''operation'' = Some ''get_me'' \<and> jget_str e ''principal'' = Some ''p''
     \<and> jget e ''timestamp'' = Some (JInt t) \<and> jget_str e ''nonce'' = Some n
     \<and> jget e ''payload'' = Some JNull
     \<and> canonical_signed_bytes sample_deps v ''get_me'' ''p'' t n JNull = Inr m
     \<and> map_option (ck_b64_decode sample_ckvf) (Option.bind (jget e ''signature'') (\<lambda>j. jget_str j ''value''))
         = Some (Inr sig)
     \<and> ck_ed_verify sample_ckvf (signer_public_key sample_ckvf sample_envelope_signer) m sig"
    by (rule signed_texts_agree [OF e])
      (simp_all add: sample_envelope_signer_def, simp add: sample_ckvf_def sample_deps_def)
  ultimately show ?thesis using e by auto
qed

end
