(* ===== verification/Grants.thy ===== *)
theory Grants
  imports Signed_Text
begin

text \<open>
  \<open>crates/scomm-vault/src/authorization.rs\<close>: the \<open>Authorization\<close> headers of vault reads, and
  the claims of a \<open>Scomm/grant/v1\<close> token, which both crates parse
  (\<open>crates/discovery/src/grant_v1.rs\<close> the stricter way). Also the device read authorization
  of \<open>signing.rs\<close>, which is such a header. The grant text format is characterised exactly,
  and the strict parser is shown to refine the lax one.
\<close>

section \<open>Headers\<close>

record vault_authorization =
  auth_header :: string

definition otp_grant :: "string \<Rightarrow> vault_authorization" where
  "otp_grant g = \<lparr>auth_header = ''OtpGrant '' @ g\<rparr>"

definition pairing_read :: "string \<Rightarrow> vault_authorization" where
  "pairing_read token = \<lparr>auth_header = ''PairingRead '' @ token\<rparr>"

definition oprf_token :: "string \<Rightarrow> vault_authorization" where
  "oprf_token token = \<lparr>auth_header = ''OprfToken '' @ token\<rparr>"

definition device_auth :: "string \<Rightarrow> vault_authorization" where
  "device_auth envelope_b64 = \<lparr>auth_header = ''Device '' @ envelope_b64\<rparr>"

definition device_read_authorization ::
  "deps \<Rightarrow> 'h ckvf \<Rightarrow> bytes \<Rightarrow> string \<Rightarrow> string \<Rightarrow> string \<Rightarrow> json option \<Rightarrow> int option
     \<Rightarrow> ('h, verr, vault_authorization) act"
where
  "device_read_authorization D K device_seed identity_id vid operation payload now =
     (if length device_seed \<noteq> 32
      then afail (verr_msg ''bad_response'' ''device seed must be 32 bytes'')
      else
        let payload = (case payload of Some p \<Rightarrow> p | None \<Rightarrow> JObj []) in
        abind (effect (now_ms K now)) (\<lambda>timestamp.
        abind (effect (fresh_nonce K)) (\<lambda>nonce.
        abind (alift (vault_payload_sha256_hex D K payload)) (\<lambda>payload_hash.
        let text = device_read_text operation identity_id vid timestamp nonce payload_hash in
        abind (alift (map_err from_ckvf (ck_ed_sign K device_seed (bytes_of text)))) (\<lambda>signature.
        let env = jobj [
          (''protocol_version'', JInt (int PROTOCOL_VERSION)),
          (''principal'', JStr identity_id),
          (''vault_id'', JStr vid),
          (''operation'', JStr operation),
          (''timestamp'', JInt timestamp),
          (''nonce'', JStr nonce),
          (''payload_sha256'', JStr payload_hash),
          (''signature'', JStr (ck_b64_encode K signature))] in
        aret (device_auth (ck_b64_encode K (bytes_of (json_print D env)))))))))"

section \<open>grant\_v1.rs\<close>

definition GRANT_V1_HEADER :: string where
  "GRANT_V1_HEADER = ''Scomm/grant/v1''"

definition GRANT_V1_FIELDS :: "string list" where
  "GRANT_V1_FIELDS = [''iss'', ''aud'', ''kid'', ''purpose'', ''identity_id'', ''msk_fingerprint'',
     ''amr'', ''idp'', ''exp'', ''jti'']"

record grant_claims =
  g_iss :: string
  g_aud :: "string list"
  g_kid :: string
  g_purpose :: string
  g_identity_id :: string
  g_msk_fingerprint :: string
  g_amr :: string
  g_idp :: string
  g_exp_ms :: int
  g_jti :: string

definition grant_is_expired :: "grant_claims \<Rightarrow> int \<Rightarrow> bool" where
  "grant_is_expired g now \<longleftrightarrow> \<not> now < g_exp_ms g"

text \<open>The regular expression \<open>^[A-Za-z0-9_-]{22}$\<close>.\<close>

definition jti_ok :: "string \<Rightarrow> bool" where
  "jti_ok s \<longleftrightarrow> length s = 22 \<and> list_all b64url_char s"

text \<open>
  The loop over the fields: line \<open>i + 1\<close> must start with \<open>field=\<close>. It is entered only with as
  many lines as fields, so it never indexes out of range.
\<close>

fun read_fields :: "string list \<Rightarrow> string list \<Rightarrow> (string \<times> string) list option" where
  "read_fields [] ls = Some []"
| "read_fields (f # fs) [] = None"
| "read_fields (f # fs) (l # ls) =
     (case strip_prefix (f @ ''='') l of
        None \<Rightarrow> None
      | Some v \<Rightarrow> map_option (\<lambda>r. (f, v) # r) (read_fields fs ls))"

text \<open>The claims once read, each \<open>claims.get(...)?\<close> and each check in the source's order.\<close>

definition check_claims :: "(string \<times> string) list \<Rightarrow> grant_claims option" where
  "check_claims claims =
     Option.bind (Option.bind (map_of claims ''exp'') parse_i64) (\<lambda>exp.
     Option.bind (map_of claims ''msk_fingerprint'') (\<lambda>mfp.
     Option.bind (map_of claims ''amr'') (\<lambda>amr.
     Option.bind (map_of claims ''identity_id'') (\<lambda>iid.
     Option.bind (map_of claims ''jti'') (\<lambda>jti.
     Option.bind (map_of claims ''iss'') (\<lambda>iss.
     Option.bind (map_of claims ''aud'') (\<lambda>aud.
     Option.bind (map_of claims ''kid'') (\<lambda>kid.
     Option.bind (map_of claims ''purpose'') (\<lambda>purpose.
     Option.bind (map_of claims ''idp'') (\<lambda>idp.
       if \<not> hex64 iid then None
       else if mfp \<noteq> [] \<and> \<not> hex64 mfp then None
       else if amr \<noteq> ''otp'' \<and> amr \<noteq> ''id_token'' then None
       else if \<not> jti_ok jti then None
       else if iss = [] \<or> aud = [] \<or> kid = [] \<or> purpose = [] then None
       else Some \<lparr>g_iss = iss, g_aud = split_char (CHR '' '') aud, g_kid = kid,
              g_purpose = purpose, g_identity_id = iid, g_msk_fingerprint = mfp, g_amr = amr,
              g_idp = idp, g_exp_ms = exp, g_jti = jti\<rparr>))))))))))"

definition parse_grant_v1_text :: "string \<Rightarrow> grant_claims option" where
  "parse_grant_v1_text text =
     (if \<not> ends_with nl text then None
      else
        let body = butlast text; lines = split_char (CHR 0x0A) body in
        if hd lines \<noteq> GRANT_V1_HEADER \<or> length lines \<noteq> length GRANT_V1_FIELDS + 1 then None
        else Option.bind (read_fields GRANT_V1_FIELDS (tl lines)) check_claims)"

definition parse_grant_v1 :: "deps \<Rightarrow> string \<Rightarrow> grant_claims option" where
  "parse_grant_v1 D token =
     (case find_char (CHR ''.'') token of
        None \<Rightarrow> None
      | Some dot \<Rightarrow>
          if dot = 0 then None
          else (case decode_base64url D (take dot token) of
                  Inl _ \<Rightarrow> None
                | Inr bs \<Rightarrow> Option.bind (from_utf8 bs) parse_grant_v1_text))"

section \<open>authorization.rs\<close>

record vault_grant_claims =
  vg_iss :: string
  vg_aud :: "string list"
  vg_purpose :: string
  vg_identity_id :: string
  vg_msk_fingerprint :: string
  vg_exp :: int
  vg_jti :: string

definition vault_grant_is_expired :: "vault_grant_claims \<Rightarrow> int \<Rightarrow> bool" where
  "vault_grant_is_expired g now \<longleftrightarrow> now \<ge> vg_exp g"

text \<open>The text once decoded (lines 102 to 139).\<close>

definition vault_parse_grant_text :: "string \<Rightarrow> vault_grant_claims option" where
  "vault_parse_grant_text text =
     (if \<not> ends_with nl text then None
      else
        let lines = split_char (CHR 0x0A) (butlast text) in
        if hd lines \<noteq> ''Scomm/grant/v1'' \<or> length lines \<noteq> length GRANT_V1_FIELDS + 1 then None
        else
          Option.bind (read_fields GRANT_V1_FIELDS (tl lines)) (\<lambda>c.
          Option.bind (Option.bind (map_of c ''exp'') parse_i64) (\<lambda>exp.
          Option.bind (map_of c ''identity_id'') (\<lambda>iid.
            if length iid \<noteq> 64 \<or> \<not> list_all is_hexdigit iid then None
            else if list_ex is_upper iid then None
            else
              Option.bind (map_of c ''iss'') (\<lambda>iss.
              Option.bind (map_of c ''aud'') (\<lambda>aud.
              Option.bind (map_of c ''purpose'') (\<lambda>purpose.
              Option.bind (map_of c ''msk_fingerprint'') (\<lambda>mfp.
              Option.bind (map_of c ''jti'') (\<lambda>jti.
                Some \<lparr>vg_iss = iss, vg_aud = split_char (CHR '' '') aud, vg_purpose = purpose,
                  vg_identity_id = iid, vg_msk_fingerprint = mfp, vg_exp = exp,
                  vg_jti = jti\<rparr>)))))))))"

text \<open>\<open>while s.len() % 4 != 0 { s.push('=') }\<close>.\<close>

definition pad4 :: "string \<Rightarrow> string" where
  "pad4 s = s @ replicate ((4 - length s mod 4) mod 4) (CHR ''='')"

definition vault_parse_grant_v1 :: "deps \<Rightarrow> string \<Rightarrow> vault_grant_claims option" where
  "vault_parse_grant_v1 D token =
     (case find_char (CHR ''.'') token of
        None \<Rightarrow> None
      | Some dot \<Rightarrow>
          if dot = 0 then None
          else
            let payload = take dot token in
            Option.bind
              (case b64url_decode D payload of
                 Inr bs \<Rightarrow> Some bs
               | Inl _ \<Rightarrow> result_ok (b64url_pad_decode D (pad4 payload)))
              (\<lambda>bs. Option.bind (from_utf8 bs) vault_parse_grant_text))"

section \<open>The grant text, exactly\<close>

definition grant_lines :: "grant_claims \<Rightarrow> string \<Rightarrow> string list" where
  "grant_lines g e = [GRANT_V1_HEADER, ''iss='' @ g_iss g, ''aud='' @ join_with '' '' (g_aud g),
     ''kid='' @ g_kid g, ''purpose='' @ g_purpose g, ''identity_id='' @ g_identity_id g,
     ''msk_fingerprint='' @ g_msk_fingerprint g, ''amr='' @ g_amr g, ''idp='' @ g_idp g,
     ''exp='' @ e, ''jti='' @ g_jti g]"

definition wf_grant :: "grant_claims \<Rightarrow> bool" where
  "wf_grant g \<longleftrightarrow>
     hex64 (g_identity_id g) \<and> (g_msk_fingerprint g = [] \<or> hex64 (g_msk_fingerprint g))
     \<and> (g_amr g = ''otp'' \<or> g_amr g = ''id_token'') \<and> jti_ok (g_jti g)
     \<and> g_iss g \<noteq> [] \<and> g_kid g \<noteq> [] \<and> g_purpose g \<noteq> []
     \<and> g_aud g \<noteq> [] \<and> g_aud g \<noteq> [[]] \<and> (\<forall>a \<in> set (g_aud g). CHR '' '' \<notin> set a \<and> one_line a)
     \<and> list_all one_line [g_iss g, g_kid g, g_purpose g, g_idp g]"

lemma read_fields_Some_iff:
  "length ls = length fs \<Longrightarrow>
   read_fields fs ls = Some c \<longleftrightarrow>
     (\<exists>vs. length vs = length fs \<and> ls = map2 (\<lambda>f v. f @ ''='' @ v) fs vs \<and> c = zip fs vs)"
proof (induction fs ls arbitrary: c rule: read_fields.induct)
  case (3 f fs l ls)
  show ?case
  proof (cases "strip_prefix (f @ ''='') l")
    case None
    moreover have "strip_prefix (f @ ''='') (f @ CHR ''='' # v) = Some v" for v
      by (simp add: strip_prefix_Some_iff)
    ultimately show ?thesis by (auto simp: length_Suc_conv)
  next
    case (Some v)
    then have l: "l = f @ ''='' @ v" by (simp add: strip_prefix_Some_iff)
    have "read_fields (f # fs) (l # ls) = Some c \<longleftrightarrow>
        (\<exists>r. read_fields fs ls = Some r \<and> c = (f, v) # r)"
      using Some by auto
    also have "\<dots> \<longleftrightarrow> (\<exists>vs. length vs = length fs \<and> ls = map2 (\<lambda>f v. f @ ''='' @ v) fs vs
        \<and> c = (f, v) # zip fs vs)"
      using "3.IH" [OF Some] "3.prems" by auto
    also have "\<dots> \<longleftrightarrow> (\<exists>ws. length ws = length (f # fs)
        \<and> l # ls = map2 (\<lambda>f v. f @ ''='' @ v) (f # fs) ws \<and> c = zip (f # fs) ws)"
      (is "(\<exists>vs. ?P vs) \<longleftrightarrow> (\<exists>ws. ?Q ws)")
    proof
      assume "\<exists>vs. ?P vs"
      then obtain vs where "?P vs" ..
      then have "?Q (v # vs)" by (simp add: l)
      then show "\<exists>ws. ?Q ws" ..
    next
      assume "\<exists>ws. ?Q ws"
      then obtain w vs where "?Q (w # vs)" by (metis length_Suc_conv list.size(4))
      then have "?P vs" by (simp add: l)
      then show "\<exists>vs. ?P vs" ..
    qed
    finally show ?thesis .
  qed
qed auto

lemma lines_text_join: "ls \<noteq> [] \<Longrightarrow> lines_text ls = join_with nl ls @ nl"
  by (induction nl ls rule: join_with.induct) (auto simp: lines_text_def)

lemma ends_with_nl_lines:
  assumes "ends_with nl t"
  shows "t = lines_text (split_char (CHR 0x0A) (butlast t))"
proof -
  have "t = butlast t @ nl"
    using assms by (auto simp: nl_def) (metis append_butlast_last_id)
  then show ?thesis
    by (simp add: lines_text_join nl_def join_split_char)
qed

lemma split_butlast_lines:
  assumes "ls \<noteq> []" and "list_all one_line ls"
  shows "ends_with nl (lines_text ls)" and "split_char (CHR 0x0A) (butlast (lines_text ls)) = ls"
proof -
  show "ends_with nl (lines_text ls)"
    using assms(1) by (auto simp: lines_text_join ends_with_iff)
  show "split_char (CHR 0x0A) (butlast (lines_text ls)) = ls"
    using assms by (simp add: lines_text_join nl_def split_join_char one_line_def list_all_iff)
qed

lemma split_lines_one_line: "list_all one_line (split_char (CHR 0x0A) s)"
  by (auto simp: list_all_iff one_line_def dest: split_char_no_sep)

lemma parse_i64_chars:
  "parse_i64 e = Some i \<Longrightarrow> c \<in> set e \<Longrightarrow> is_digit c \<or> c = CHR ''-'' \<or> c = CHR ''+''"
  by (auto simp: parse_i64_def Let_def list_all_iff split: list.splits if_splits)

lemma parse_i64_one_line: "parse_i64 e = Some i \<Longrightarrow> one_line e"
  using parse_i64_chars [of e i "CHR 0x0A"] by (auto simp: one_line_def is_digit_def)

lemma length_10: "length vs = 10 \<Longrightarrow>
  \<exists>a b c d e f g h i j. vs = [a, b, c, d, e, f, g, h, i, j]"
  by (auto simp: numeral_eq_Suc length_Suc_conv)

lemma check_claims_zip:
  "check_claims (zip GRANT_V1_FIELDS [iss, aud, kid, purpose, iid, mfp, amr, idp, e, jti]) =
     Option.bind (parse_i64 e) (\<lambda>exp.
       if hex64 iid \<and> (mfp = [] \<or> hex64 mfp) \<and> (amr = ''otp'' \<or> amr = ''id_token'') \<and> jti_ok jti
          \<and> iss \<noteq> [] \<and> aud \<noteq> [] \<and> kid \<noteq> [] \<and> purpose \<noteq> []
       then Some \<lparr>g_iss = iss, g_aud = split_char (CHR '' '') aud, g_kid = kid,
              g_purpose = purpose, g_identity_id = iid, g_msk_fingerprint = mfp, g_amr = amr,
              g_idp = idp, g_exp_ms = exp, g_jti = jti\<rparr>
       else None)"
  by (cases "parse_i64 e") (auto simp: check_claims_def GRANT_V1_FIELDS_def)

lemma one_line_join: "one_line (join_with '' '' ps) \<longleftrightarrow> (\<forall>p \<in> set ps. one_line p)"
  by (induction "'' ''" ps rule: join_with.induct) auto

lemma join_with_space_Nil: "join_with '' '' ps = [] \<longleftrightarrow> ps = [] \<or> ps = [[]]"
  by (cases "('' '', ps)" rule: join_with.cases) auto

lemma parse_lines_iff:
  "parse_grant_v1_text t = Some g \<longleftrightarrow>
     (\<exists>vs. length vs = 10 \<and> list_all one_line vs
        \<and> t = lines_text (GRANT_V1_HEADER # map2 (\<lambda>f v. f @ ''='' @ v) GRANT_V1_FIELDS vs)
        \<and> check_claims (zip GRANT_V1_FIELDS vs) = Some g)" (is "?L \<longleftrightarrow> ?R")
proof
  assume ?L
  define ls where "ls = split_char (CHR 0x0A) (butlast t)"
  from \<open>?L\<close> obtain c where ends: "ends_with nl t" and hd: "hd ls = GRANT_V1_HEADER"
    and len: "length ls = length GRANT_V1_FIELDS + 1"
    and c: "read_fields GRANT_V1_FIELDS (tl ls) = Some c" "check_claims c = Some g"
    unfolding parse_grant_v1_text_def Let_def ls_def
    by (auto simp: bind_eq_Some_conv split: if_splits)
  have ls: "ls = GRANT_V1_HEADER # tl ls" using hd by (metis list.collapse ls_def split_char_nonempty)
  with len have "length (tl ls) = length GRANT_V1_FIELDS" by (metis Suc_eq_plus1 length_Cons nat.inject)
  with c obtain vs where vs: "length vs = length GRANT_V1_FIELDS"
    "tl ls = map2 (\<lambda>f v. f @ ''='' @ v) GRANT_V1_FIELDS vs" "c = zip GRANT_V1_FIELDS vs"
    using read_fields_Some_iff by blast
  have t: "t = lines_text ls" using ends ends_with_nl_lines ls_def by metis
  have "list_all one_line (tl ls)"
    using split_lines_one_line [of "butlast t"] ls by (metis ls_def list.pred_inject(2))
  then have "list_all one_line vs"
    using vs(1) by (auto simp: vs(2) list_all_length)
  with vs c t ls show ?R by (auto simp: GRANT_V1_FIELDS_def intro!: exI [of _ vs])
next
  assume ?R
  then obtain vs where vs: "length vs = 10" "list_all one_line vs"
    and t: "t = lines_text (GRANT_V1_HEADER # map2 (\<lambda>f v. f @ ''='' @ v) GRANT_V1_FIELDS vs)"
    and g: "check_claims (zip GRANT_V1_FIELDS vs) = Some g" by blast
  define ls where "ls = GRANT_V1_HEADER # map2 (\<lambda>f v. f @ ''='' @ v) GRANT_V1_FIELDS vs"
  have len: "length GRANT_V1_FIELDS = 10" by (simp add: GRANT_V1_FIELDS_def)
  have "list_all one_line ls"
    using vs length_10 [OF vs(1)] by (auto simp: ls_def GRANT_V1_HEADER_def GRANT_V1_FIELDS_def)
  then have s: "ends_with nl t" "split_char (CHR 0x0A) (butlast t) = ls"
    using split_butlast_lines [of ls] t ls_def by auto
  have "read_fields GRANT_V1_FIELDS (tl ls) = Some (zip GRANT_V1_FIELDS vs)"
    by (subst read_fields_Some_iff) (use vs len in \<open>auto simp: ls_def\<close>)
  then show ?L
    using s g vs len by (simp add: parse_grant_v1_text_def ls_def)
qed

lemma grant_lines_zip:
  "grant_lines g e = GRANT_V1_HEADER # map2 (\<lambda>f v. f @ ''='' @ v) GRANT_V1_FIELDS
     [g_iss g, join_with '' '' (g_aud g), g_kid g, g_purpose g, g_identity_id g,
      g_msk_fingerprint g, g_amr g, g_idp g, e, g_jti g]"
  by (simp add: grant_lines_def GRANT_V1_FIELDS_def)

lemma one_line_jti: "jti_ok s \<Longrightarrow> one_line s"
  by (simp add: jti_ok_def one_line_b64url)

text \<open>
  C5. The strict parser accepts exactly the grant format: a text parses to the claims \<open>g\<close> iff
  the claims are well formed and the text is their ten lines under the header, in the order
  of the fields, with any spelling of the expiry that reads as its value.
\<close>

theorem grant_text_exact:
  "parse_grant_v1_text t = Some g \<longleftrightarrow>
     wf_grant g \<and> (\<exists>e. parse_i64 e = Some (g_exp_ms g) \<and> t = lines_text (grant_lines g e))"
    (is "?L \<longleftrightarrow> ?R")
proof
  assume ?L
  then obtain vs where vs: "length vs = 10" "list_all one_line vs"
    and t: "t = lines_text (GRANT_V1_HEADER # map2 (\<lambda>f v. f @ ''='' @ v) GRANT_V1_FIELDS vs)"
    and g: "check_claims (zip GRANT_V1_FIELDS vs) = Some g"
    unfolding parse_lines_iff by blast
  obtain iss aud kid purpose iid mfp amr idp e jti
    where v: "vs = [iss, aud, kid, purpose, iid, mfp, amr, idp, e, jti]"
    using length_10 [OF vs(1)] by blast
  from g obtain exp where e: "parse_i64 e = Some exp"
    and ok: "hex64 iid" "mfp = [] \<or> hex64 mfp" "amr = ''otp'' \<or> amr = ''id_token''" "jti_ok jti"
      "iss \<noteq> []" "aud \<noteq> []" "kid \<noteq> []" "purpose \<noteq> []"
    and g': "g = \<lparr>g_iss = iss, g_aud = split_char (CHR '' '') aud, g_kid = kid,
              g_purpose = purpose, g_identity_id = iid, g_msk_fingerprint = mfp, g_amr = amr,
              g_idp = idp, g_exp_ms = exp, g_jti = jti\<rparr>"
    unfolding v check_claims_zip by (auto simp: bind_eq_Some_conv split: if_splits)
  have aud: "join_with '' '' (split_char (CHR '' '') aud) = aud"
    by (rule join_split_char)
  have "t = lines_text (grant_lines g e)"
    by (simp only: t v grant_lines_zip g' grant_claims.simps aud)
  moreover have "split_char (CHR '' '') aud \<noteq> [[]]"
    using ok(6) aud by (metis join_with.simps(2))
  moreover have "\<forall>a \<in> set (split_char (CHR '' '') aud). CHR '' '' \<notin> set a \<and> one_line a"
    using vs(2) one_line_join [of "split_char (CHR '' '') aud"]
    by (auto simp: v aud dest: split_char_no_sep)
  ultimately show ?R
    using e ok vs(2) by (auto simp: wf_grant_def g' v)
next
  assume ?R
  then obtain e where wf: "wf_grant g" and e: "parse_i64 e = Some (g_exp_ms g)"
    and t: "t = lines_text (grant_lines g e)" by blast
  let ?vs = "[g_iss g, join_with '' '' (g_aud g), g_kid g, g_purpose g, g_identity_id g,
      g_msk_fingerprint g, g_amr g, g_idp g, e, g_jti g]"
  have aud: "split_char (CHR '' '') (join_with '' '' (g_aud g)) = g_aud g"
    using wf by (intro split_join_char) (auto simp: wf_grant_def)
  have "list_all one_line ?vs"
    using wf parse_i64_one_line [OF e]
    by (auto simp: wf_grant_def one_line_join one_line_hex64 one_line_jti)
  moreover have "check_claims (zip GRANT_V1_FIELDS ?vs) = Some g"
    unfolding check_claims_zip using wf e
    by (simp add: wf_grant_def aud join_with_space_Nil)
  ultimately show ?L
    unfolding parse_lines_iff using t by (intro exI [of _ ?vs]) (simp only: grant_lines_zip, simp)
qed

section \<open>The two parsers\<close>

definition vault_view :: "grant_claims \<Rightarrow> vault_grant_claims" where
  "vault_view g = \<lparr>vg_iss = g_iss g, vg_aud = g_aud g, vg_purpose = g_purpose g,
     vg_identity_id = g_identity_id g, vg_msk_fingerprint = g_msk_fingerprint g,
     vg_exp = g_exp_ms g, vg_jti = g_jti g\<rparr>"

text \<open>On a decoded text, what the strict parser accepts the vault's accepts with the same claims.\<close>

lemma grant_texts_agree:
  "parse_grant_v1_text t = Some g \<Longrightarrow> vault_parse_grant_text t = Some (vault_view g)"
  unfolding parse_grant_v1_text_def vault_parse_grant_text_def check_claims_def Let_def
    GRANT_V1_HEADER_def
  by (auto simp: bind_eq_Some_conv vault_view_def hex64_def is_lower_hexdigit_classes
      list_all_iff list_ex_iff split: if_splits)

text \<open>
  Documented: the URL-safe engines of \<open>base64\<close> refuse every character outside their alphabet,
  padding only adds \<open>=\<close>, and the standard engine reads an unpadded text of letters and digits
  as they do.
\<close>

definition b64_engines_doc :: "deps \<Rightarrow> bool" where
  "b64_engines_doc D \<longleftrightarrow>
     (\<forall>s bs. b64url_decode D s = Inr bs \<longrightarrow> list_all b64url_char s)
     \<and> (\<forall>s bs. b64url_pad_decode D s = Inr bs \<longrightarrow> list_all (\<lambda>c. b64url_char c \<or> c = CHR ''='') s
          \<and> b64url_decode D (filter (\<lambda>c. c \<noteq> CHR ''='') s) = Inr bs)
     \<and> (\<forall>s bs. list_all b64url_char s \<longrightarrow> b64_decode D s = Inr bs \<longrightarrow> b64url_decode D s = Inr bs)"

lemma b64_engines_docD:
  assumes "b64_engines_doc D"
  shows "b64url_decode D s = Inr bs \<Longrightarrow> list_all b64url_char s"
    and "b64url_pad_decode D s = Inr bs \<Longrightarrow> list_all (\<lambda>c. b64url_char c \<or> c = CHR ''='') s"
    and "b64url_pad_decode D s = Inr bs \<Longrightarrow> b64url_decode D (filter (\<lambda>c. c \<noteq> CHR ''='') s) = Inr bs"
    and "list_all b64url_char s \<Longrightarrow> b64_decode D s = Inr bs \<Longrightarrow> b64url_decode D s = Inr bs"
  using assms unfolding b64_engines_doc_def by blast+

lemma b64url_char_specials: "b64url_char c \<Longrightarrow> c \<notin> {CHR ''+'', CHR ''/'', CHR ''=''}"
  by (auto simp: b64url_char_def is_alnum_def is_digit_def is_upper_def is_lower_def)

lemma decode_base64url_plain:
  assumes "b64_engines_doc D" and "list_all b64url_char s"
  shows "decode_base64url D s = Inr bs \<longleftrightarrow> b64url_decode D s = Inr bs"
proof -
  have "map (\<lambda>c. if c = CHR ''+'' then CHR ''-'' else if c = CHR ''/'' then CHR ''_'' else c) s = s"
    by (rule map_idI) (use assms(2) b64url_char_specials in \<open>auto simp: list_all_iff\<close>)
  moreover have "filter (\<lambda>c. c \<noteq> CHR ''='') s = s"
    by (rule filter_True) (use assms(2) b64url_char_specials in \<open>auto simp: list_all_iff\<close>)
  ultimately show ?thesis
    using b64_engines_docD(4) [OF assms]
    by (auto simp: decode_base64url_def Let_def split: sum.splits)
qed

lemma decode_base64url_padded:
  assumes "list_all (\<lambda>c. b64url_char c \<or> c = CHR ''='') s"
    and "b64url_decode D (filter (\<lambda>c. c \<noteq> CHR ''='') s) = Inr bs"
  shows "decode_base64url D s = Inr bs"
proof -
  have "map (\<lambda>c. if c = CHR ''+'' then CHR ''-'' else if c = CHR ''/'' then CHR ''_'' else c) s = s"
    by (rule map_idI) (use assms(1) b64url_char_specials in \<open>auto simp: list_all_iff\<close>)
  with assms(2) show ?thesis by (simp add: decode_base64url_def Let_def)
qed

text \<open>The bytes that the vault's parser decodes, when it decodes any.\<close>

definition vault_payload :: "deps \<Rightarrow> string \<Rightarrow> bytes option" where
  "vault_payload D payload =
     (case b64url_decode D payload of
        Inr bs \<Rightarrow> Some bs
      | Inl _ \<Rightarrow> result_ok (b64url_pad_decode D (pad4 payload)))"

lemma vault_payload_Some:
  assumes "b64_engines_doc D" and "vault_payload D payload = Some bs"
  shows "list_all (\<lambda>c. b64url_char c \<or> c = CHR ''='') payload" and "decode_base64url D payload = Inr bs"
proof -
  note doc = b64_engines_docD [OF assms(1)]
  consider "b64url_decode D payload = Inr bs" | "b64url_pad_decode D (pad4 payload) = Inr bs"
    using assms(2) by (auto simp: vault_payload_def split: sum.splits)
  then have "list_all (\<lambda>c. b64url_char c \<or> c = CHR ''='') payload
      \<and> decode_base64url D payload = Inr bs"
  proof cases
    case 1
    then show ?thesis
      using doc(1) decode_base64url_plain [OF assms(1)] by (auto simp: list_all_iff)
  next
    case 2
    have "filter (\<lambda>c. c \<noteq> CHR ''='') (pad4 payload) = filter (\<lambda>c. c \<noteq> CHR ''='') payload"
      by (simp add: pad4_def)
    with doc(2,3) [OF 2] show ?thesis
      using decode_base64url_padded by (simp add: pad4_def)
  qed
  then show "list_all (\<lambda>c. b64url_char c \<or> c = CHR ''='') payload" "decode_base64url D payload = Inr bs"
    by simp_all
qed

text \<open>
  C6. The two crates read the same token alike, up to its spelling. For a token that the
  discovery crate accepts with claims \<open>g\<close>: when the part before the dot is unpadded base64url,
  the vault crate accepts it with the same issuer, audiences, purpose, identity, MSK
  fingerprint, expiry and token id; when that part has a \<open>+\<close> or a \<open>/\<close>, the vault crate refuses
  it; and whenever the vault crate accepts it, the claims are these.
\<close>

theorem grant_parsers_agree:
  assumes "b64_engines_doc D" and "parse_grant_v1 D token = Some g"
    and "find_char (CHR ''.'') token = Some dot"
  shows "(list_all b64url_char (take dot token) \<longrightarrow> vault_parse_grant_v1 D token = Some (vault_view g))
    \<and> (CHR ''+'' \<in> set (take dot token) \<or> CHR ''/'' \<in> set (take dot token)
        \<longrightarrow> vault_parse_grant_v1 D token = None)
    \<and> (\<forall>c. vault_parse_grant_v1 D token = Some c \<longrightarrow> c = vault_view g)"
proof -
  let ?p = "take dot token"
  from assms(2,3) obtain bs t where dot: "dot \<noteq> 0" and bs: "decode_base64url D ?p = Inr bs"
    and t: "from_utf8 bs = Some t" "parse_grant_v1_text t = Some g"
    by (auto simp: parse_grant_v1_def bind_eq_Some_conv split: if_splits sum.splits)
  have vault: "vault_parse_grant_v1 D token
      = Option.bind (vault_payload D ?p) (\<lambda>bs. Option.bind (from_utf8 bs) vault_parse_grant_text)"
    using assms(3) dot by (simp add: vault_parse_grant_v1_def vault_payload_def Let_def)
  have same: "vault_payload D ?p = Some bs' \<Longrightarrow> bs' = bs" for bs'
    using vault_payload_Some(2) [OF assms(1)] bs by fastforce
  have "vault_payload D ?p = Some bs" if "list_all b64url_char ?p"
    using decode_base64url_plain [OF assms(1) that, THEN iffD1, OF bs] by (simp add: vault_payload_def)
  moreover have "vault_payload D ?p = None" if "CHR ''+'' \<in> set ?p \<or> CHR ''/'' \<in> set ?p"
    using vault_payload_Some(1) [OF assms(1)] b64url_char_specials that
    by (cases "vault_payload D ?p") (auto simp: list_all_iff)
  moreover have "c = vault_view g" if "vault_parse_grant_v1 D token = Some c" for c
  proof -
    from that obtain bs' where "vault_payload D ?p = Some bs'"
      and c: "Option.bind (from_utf8 bs') vault_parse_grant_text = Some c"
      unfolding vault by (auto simp: bind_eq_Some_conv)
    with same have "bs' = bs" by blast
    with c t(1) grant_texts_agree [OF t(2)] show ?thesis by simp
  qed
  moreover have "Option.bind (from_utf8 bs) vault_parse_grant_text = Some (vault_view g)"
    using t(1) grant_texts_agree [OF t(2)] by simp
  ultimately show ?thesis unfolding vault by (intro conjI impI allI) simp_all
qed

definition sample_grant :: grant_claims where
  "sample_grant = \<lparr>g_iss = ''m'', g_aud = [''a'', ''b''], g_kid = ''k'', g_purpose = ''vault_open'',
     g_identity_id = replicate 64 (CHR ''a''), g_msk_fingerprint = [], g_amr = ''otp'', g_idp = [],
     g_exp_ms = 42, g_jti = replicate 22 (CHR ''x'')\<rparr>"

definition sample_token :: string where
  "sample_token = lower_hex (bytes_of (lines_text (grant_lines sample_grant ''42''))) @ ''.sig''"

lemma unhex_hexdigits: "unhex s = Inr bs \<Longrightarrow> list_all is_lower_hexdigit s"
  by (induction s arbitrary: bs rule: unhex.induct) (auto simp: and_then_Inr_iff split: if_splits)

lemma sample_engines: "b64_engines_doc sample_deps"
proof -
  have "list_all b64url_char s" if "unhex s = Inr bs" for s bs
    using unhex_hexdigits [OF that] lower_hexdigit_b64url by (auto simp: list_all_iff)
  moreover from this have "filter (\<lambda>c. c \<noteq> CHR ''='') s = s" if "unhex s = Inr bs" for s bs
    using that b64url_char_specials by (intro filter_True) (fastforce simp: list_all_iff)
  ultimately show ?thesis
    by (auto simp: b64_engines_doc_def sample_deps_def list_all_iff)
qed

theorem grant_parsers_agree_witness:
  "parse_grant_v1 sample_deps sample_token = Some sample_grant
     \<and> vault_parse_grant_v1 sample_deps sample_token = Some (vault_view sample_grant)"
proof -
  let ?t = "lines_text (grant_lines sample_grant ''42'')"
  define p where "p = lower_hex (bytes_of ?t)"
  have parsed: "parse_grant_v1_text ?t = Some sample_grant" by code_simp
  have plain: "list_all b64url_char p"
    using lower_hex_class lower_hexdigit_b64url by (auto simp: list_all_iff p_def)
  have token: "sample_token = p @ CHR ''.'' # ''sig''" by (simp add: sample_token_def p_def)
  have "CHR ''.'' \<notin> set p"
    using plain by (auto simp: list_all_iff b64url_char_def is_alnum_def is_digit_def is_upper_def is_lower_def)
  then have dot: "find_char (CHR ''.'') sample_token = Some (length p)"
    unfolding token by (rule find_char_append)
  have "utf8_valid ?t" by code_simp
  then have utf8: "from_utf8 (bytes_of ?t) = Some ?t" by (rule from_utf8_bytes_of)
  have n: "length p \<noteq> 0" by (simp add: p_def lines_text_def grant_lines_def GRANT_V1_HEADER_def)
  have take: "take (length p) sample_token = p" by (simp add: token)
  have "b64url_decode sample_deps p = Inr (bytes_of ?t)"
    by (simp add: sample_deps_def p_def)
  note decoded = decode_base64url_plain [OF sample_engines plain, THEN iffD2, OF this]
  have run: "parse_grant_v1 sample_deps sample_token = Some sample_grant"
    unfolding parse_grant_v1_def dot by (simp only: take decoded option.case n if_False sum.case utf8 bind.bind_lunit parsed)
  from grant_parsers_agree [OF sample_engines run dot] show ?thesis
    unfolding take using plain run by blast
qed

end
