(* ===== verification/Oprf.thy ===== *)
theory Oprf
  imports Ckvf
begin

text \<open>
  The oblivious PRFs of \<open>crates/scomm-vault/src/oprf\<close>: \<open>rfc9497.rs\<close> (building blocks and the
  DLEQ proof), \<open>identity_voprf.rs\<close> and \<open>poprf.rs\<close>. The group arithmetic of \<open>curve25519-dalek\<close>
  is a parameter: scalars are a field \<open>'s\<close>, points a commutative group \<open>'p\<close>, and the record
  \<open>curve\<close> holds scalar multiplication and the encodings.
\<close>

unbundle bit_operations_syntax

section \<open>Length framing\<close>

text \<open>
  A framing makes concatenations unambiguous. Both transcripts of the crate, \<open>lp\<close> below and
  \<open>prepend_len\<close> of CPace, are framings.
\<close>

locale framing =
  fixes frame :: "bytes \<Rightarrow> bytes"
    and fits :: "bytes \<Rightarrow> bool"
  assumes frame_cancel:
    "fits x \<Longrightarrow> fits y \<Longrightarrow> frame x @ r = frame y @ s \<Longrightarrow> x = y \<and> r = s"
    and frame_nonempty: "frame x \<noteq> []"
begin

lemma frames_inject:
  "list_all fits xs \<Longrightarrow> list_all fits ys \<Longrightarrow>
     concat (map frame xs) = concat (map frame ys) \<longleftrightarrow> xs = ys"
proof (induction xs arbitrary: ys)
  case Nil
  then show ?case using frame_nonempty by (cases ys) auto
next
  case (Cons x xs)
  then show ?case
  proof (cases ys)
    case Nil
    then show ?thesis using frame_nonempty by simp
  next
    case (Cons y ys')
    with Cons.prems Cons.IH [of ys'] show ?thesis
      by (auto dest: frame_cancel)
  qed
qed

lemma frame_inject: "fits x \<Longrightarrow> fits y \<Longrightarrow> frame x = frame y \<longleftrightarrow> x = y"
  using frame_cancel [of x y "[]" "[]"] by auto

end

fun i2osp :: "nat \<Rightarrow> nat \<Rightarrow> bytes" where
  "i2osp value 0 = []"
| "i2osp value (Suc len) = i2osp (value div 256) len @ [word_of_nat (value mod 256)]"

text \<open>\<open>I2OSP(len(x), 2) || x\<close>.\<close>

definition lp :: "bytes \<Rightarrow> bytes" where
  "lp x = i2osp (length x) 2 @ x"

lemma length_i2osp [simp]: "length (i2osp v n) = n"
  by (induction v n rule: i2osp.induct) simp_all

lemma i2osp_inject:
  "v < 256 ^ n \<Longrightarrow> w < 256 ^ n \<Longrightarrow> i2osp v n = i2osp w n \<longleftrightarrow> v = w"
proof (induction n arbitrary: v w)
  case 0
  then show ?case by simp
next
  case (Suc n)
  have less: "v div 256 < 256 ^ n" "w div 256 < 256 ^ n"
    using Suc.prems by (auto simp: less_mult_imp_div_less mult.commute)
  have byte: "(word_of_nat (v mod 256) :: byte) = word_of_nat (w mod 256) \<longleftrightarrow> v mod 256 = w mod 256"
    by (simp add: word_of_nat_eq_iff take_bit_eq_mod)
  show ?case
    using Suc.IH [OF less] byte by (auto) (metis div_mult_mod_eq)
qed

interpretation lp: framing lp "\<lambda>x. length x < 65536"
proof
  fix x y r s :: bytes
  assume len: "length x < 65536" "length y < 65536" and eq: "lp x @ r = lp y @ s"
  then have "i2osp (length x) 2 = i2osp (length y) 2 \<and> x @ r = y @ s"
    by (simp add: lp_def append_eq_same_length)
  with len i2osp_inject [of "length x" 2 "length y"] show "x = y \<and> r = s" by simp
qed (simp add: lp_def numeral_2_eq_2)

section \<open>The group\<close>

record ('s, 'p, 'h) curve =
  cv_base :: 'p
  cv_smul :: "'s \<Rightarrow> 'p \<Rightarrow> 'p"
  cv_compress :: "'p \<Rightarrow> bytes"
  cv_decompress :: "bytes \<Rightarrow> 'p option"
  cv_from_uniform :: "bytes \<Rightarrow> 'p"
  cv_scalar_bytes :: "'s \<Rightarrow> bytes"
  cv_scalar_canonical :: "bytes \<Rightarrow> 's option"
  cv_scalar_wide :: "bytes \<Rightarrow> 's"
  cv_random :: "nat \<Rightarrow> ('h, string, bytes) act" \<comment> \<open>\<open>getrandom\<close>\<close>

text \<open>
  Documented behaviour: points are a vector space over the scalars (a group of prime order),
  and encodings are 32 bytes long and decode to what they encode.
\<close>

definition curve_doc :: "('s :: field, 'p :: ab_group_add, 'h) curve \<Rightarrow> bool" where
  "curve_doc C \<longleftrightarrow>
     (\<forall>a b p q. cv_smul C (a + b) p = cv_smul C a p + cv_smul C b p
        \<and> cv_smul C a (p + q) = cv_smul C a p + cv_smul C a q
        \<and> cv_smul C (a * b) p = cv_smul C a (cv_smul C b p)
        \<and> cv_smul C 1 p = p
        \<and> length (cv_compress C p) = 32 \<and> cv_decompress C (cv_compress C p) = Some p
        \<and> length (cv_scalar_bytes C a) = 32
        \<and> cv_scalar_canonical C (cv_scalar_bytes C a) = Some a)"

section \<open>rfc9497.rs\<close>

definition OPRF_SUITE :: string where
  "OPRF_SUITE = ''ristretto255-SHA512''"

definition MODE_OPRF :: byte where
  "MODE_OPRF = 0x00"

definition MODE_VOPRF :: byte where
  "MODE_VOPRF = 0x01"

definition MODE_POPRF :: byte where
  "MODE_POPRF = 0x02"

definition context_string :: "byte \<Rightarrow> bytes" where
  "context_string mode = bytes_of ''OPRFV1-'' @ [mode] @ bytes_of ''-'' @ bytes_of OPRF_SUITE"

text \<open>\<open>expand_message_xmd\<close> with SHA-512 (RFC 9380, 5.3.1).\<close>

definition expand_message_xmd_sha512 :: "deps \<Rightarrow> bytes \<Rightarrow> bytes \<Rightarrow> nat \<Rightarrow> verr + bytes" where
  "expand_message_xmd_sha512 D msg dst len =
     (if len = 0 \<or> len > 255 * 64 \<or> length dst > 255
      then Inl (verr_msg ''oprf_failed'' ''expand_message_xmd parameters out of range'')
      else
        let ell = (len + 64 - 1) div 64;
            dst_prime = dst @ [word_of_nat (length dst)];
            b0 = sha512 D (replicate 128 0 @ msg @ i2osp len 2 @ [0] @ dst_prime);
            b1 = sha512 D (b0 @ [1] @ dst_prime);
            out = snd (fold (\<lambda>i (prev, out).
                    let nxt = sha512 D (map2 (\<lambda>a b. a XOR b) b0 prev @ [word_of_nat i] @ dst_prime)
                    in (nxt, out @ nxt)) [2..<Suc ell] (b1, b1))
        in Inr (take len out))"

definition hash_to_group ::
  "deps \<Rightarrow> ('s, 'p, 'h) curve \<Rightarrow> bytes \<Rightarrow> byte \<Rightarrow> verr + 'p" where
  "hash_to_group D C input mode =
     and_then (expand_message_xmd_sha512 D input (bytes_of ''HashToGroup-'' @ context_string mode) 64)
       (\<lambda>uniform. Inr (cv_from_uniform C uniform))"

definition hash_to_scalar ::
  "deps \<Rightarrow> ('s, 'p, 'h) curve \<Rightarrow> bytes \<Rightarrow> byte \<Rightarrow> verr + 's" where
  "hash_to_scalar D C input mode =
     and_then (expand_message_xmd_sha512 D input (bytes_of ''HashToScalar-'' @ context_string mode) 64)
       (\<lambda>uniform. Inr (cv_scalar_wide C uniform))"

definition random_scalar ::
  "('s :: field, 'p, 'h) curve \<Rightarrow> bytes option \<Rightarrow> ('h, verr, 's) act" where
  "random_scalar C seed64 =
     abind (case seed64 of
         Some s \<Rightarrow> if length s \<noteq> 64
           then afail (verr_msg ''oprf_failed'' ''seed must be 64 bytes'') else aret s
       | None \<Rightarrow> (\<lambda>h. case cv_random C 64 h of (r, h') \<Rightarrow> (map_err (verr_msg ''oprf_failed'') r, h')))
       (\<lambda>bs. let s = cv_scalar_wide C bs in
         if s = 0 then afail (verr_msg ''oprf_failed'' ''sampled a zero scalar'') else aret s)"

definition decode_scalar :: "('s, 'p, 'h) curve \<Rightarrow> bytes \<Rightarrow> verr + 's" where
  "decode_scalar C bs =
     (if length bs \<noteq> 32 then Inl (verr_msg ''invalid_evaluation'' ''scalar must be 32 bytes'')
      else ok_or (verr_msg ''invalid_evaluation'' ''non-canonical scalar'') (cv_scalar_canonical C bs))"

definition decode_element :: "('s, 'p :: ab_group_add, 'h) curve \<Rightarrow> bytes \<Rightarrow> verr + 'p" where
  "decode_element C bs =
     (if length bs \<noteq> 32 then Inl (verr_msg ''invalid_evaluation'' ''element must be 32 bytes'')
      else and_then (ok_or (verr_msg ''invalid_evaluation'' ''non-canonical element'')
                      (cv_decompress C bs))
        (\<lambda>e. if e = 0 then Inl (verr_msg ''invalid_evaluation'' ''identity element'') else Inr e))"

definition enc :: "('s, 'p, 'h) curve \<Rightarrow> 'p \<Rightarrow> bytes" where
  "enc C e = cv_compress C e"

definition enc_scalar :: "('s, 'p, 'h) curve \<Rightarrow> 's \<Rightarrow> bytes" where
  "enc_scalar C s = cv_scalar_bytes C s"

definition mul :: "('s, 'p, 'h) curve \<Rightarrow> 's \<Rightarrow> 'p \<Rightarrow> 'p" where
  "mul C s e = cv_smul C s e"

definition mul_gen :: "('s, 'p, 'h) curve \<Rightarrow> 's \<Rightarrow> 'p" where
  "mul_gen C s = cv_smul C s (cv_base C)"

definition add :: "'p :: ab_group_add \<Rightarrow> 'p \<Rightarrow> 'p" where
  "add a b = a + b"

definition composites ::
  "deps \<Rightarrow> ('s, 'p, 'h) curve \<Rightarrow> byte \<Rightarrow> 'p \<Rightarrow> 'p \<Rightarrow> 'p \<Rightarrow> 's option \<Rightarrow> verr + 'p \<times> 'p" where
  "composites D C mode b c d k =
     (let seed_dst = bytes_of ''Seed-'' @ context_string mode;
          seed_input = lp (enc C b) @ lp seed_dst;
          seed = sha512 D seed_input;
          di_input = lp seed @ i2osp 0 2 @ lp (enc C c) @ lp (enc C d) @ bytes_of ''Composite''
      in and_then (hash_to_scalar D C di_input mode) (\<lambda>di.
         let m = mul C di c;
             z = (case k of Some k \<Rightarrow> mul C k m | None \<Rightarrow> mul C di d)
         in Inr (m, z)))"

definition challenge ::
  "deps \<Rightarrow> ('s, 'p, 'h) curve \<Rightarrow> byte \<Rightarrow> 'p \<Rightarrow> 'p \<Rightarrow> 'p \<Rightarrow> 'p \<Rightarrow> 'p \<Rightarrow> verr + 's" where
  "challenge D C mode b m z t2 t3 =
     hash_to_scalar D C
       (lp (enc C b) @ lp (enc C m) @ lp (enc C z) @ lp (enc C t2) @ lp (enc C t3)
         @ bytes_of ''Challenge'') mode"

definition verify_proof ::
  "deps \<Rightarrow> ('s, 'p :: ab_group_add, 'h) curve \<Rightarrow> byte \<Rightarrow> 'p \<Rightarrow> 'p \<Rightarrow> 'p \<Rightarrow> bytes \<Rightarrow> bool" where
  "verify_proof D C mode b c d proof =
     (if length proof \<noteq> 64 then False
      else case decode_scalar C (take 32 proof) of
        Inl _ \<Rightarrow> False
      | Inr cs \<Rightarrow> (case decode_scalar C (drop 32 proof) of
          Inl _ \<Rightarrow> False
        | Inr ss \<Rightarrow> (case composites D C mode b c d None of
            Inl _ \<Rightarrow> False
          | Inr (m, z) \<Rightarrow>
              let t2 = cv_smul C cs b + cv_smul C ss (cv_base C);
                  t3 = cv_smul C ss m + cv_smul C cs z
              in (case challenge D C mode b m z t2 t3 of
                    Inr expected \<Rightarrow> expected = cs
                  | Inl _ \<Rightarrow> False))))"

definition generate_proof ::
  "deps \<Rightarrow> ('s :: field, 'p, 'h) curve \<Rightarrow> byte \<Rightarrow> 's \<Rightarrow> 'p \<Rightarrow> 'p \<Rightarrow> 'p \<Rightarrow> bytes option
     \<Rightarrow> ('h, verr, bytes) act" where
  "generate_proof D C mode k b c d random64 =
     abind (alift (composites D C mode b c d (Some k))) (\<lambda>(m, z).
     abind (random_scalar C random64) (\<lambda>r.
     let t2 = mul_gen C r; t3 = mul C r m in
     abind (alift (challenge D C mode b m z t2 t3)) (\<lambda>cs.
     let ss = r - cs * k in
     aret (enc_scalar C cs @ enc_scalar C ss))))"

definition finalize_hash ::
  "deps \<Rightarrow> ('s, 'p, 'h) curve \<Rightarrow> bytes \<Rightarrow> 'p \<Rightarrow> bytes option \<Rightarrow> bytes" where
  "finalize_hash D C input unblinded info =
     sha512 D (lp input @ (case info of Some i \<Rightarrow> lp i | None \<Rightarrow> [])
       @ lp (enc C unblinded) @ bytes_of ''Finalize'')"

section \<open>identity_voprf.rs\<close>

record identity_blind_state =
  ib_input :: bytes
  ib_blind :: bytes
  ib_blinded :: bytes

definition identity_blind ::
  "deps \<Rightarrow> ('s :: field, 'p :: ab_group_add, 'h) curve \<Rightarrow> bytes \<Rightarrow> bytes option
     \<Rightarrow> ('h, verr, identity_blind_state) act" where
  "identity_blind D C input blind =
     abind (case blind of Some b \<Rightarrow> alift (decode_scalar C b) | None \<Rightarrow> random_scalar C None) (\<lambda>r.
     abind (alift (hash_to_group D C input MODE_OPRF)) (\<lambda>point.
     if point = 0 then afail (verr_msg ''oprf_failed'' ''input maps to the identity'')
     else aret \<lparr>ib_input = input, ib_blind = enc_scalar C r, ib_blinded = enc C (mul C r point)\<rparr>))"

definition identity_finalize ::
  "deps \<Rightarrow> ('s :: field, 'p :: ab_group_add, 'h) curve \<Rightarrow> identity_blind_state
     \<Rightarrow> bytes \<Rightarrow> bytes \<Rightarrow> bytes \<Rightarrow> verr + bytes" where
  "identity_finalize D C st evaluated proof public_key =
     and_then (decode_element C evaluated) (\<lambda>ev.
     and_then (decode_element C public_key) (\<lambda>pk.
     and_then (decode_element C (ib_blinded st)) (\<lambda>blinded.
     if \<not> verify_proof D C MODE_VOPRF pk blinded ev proof
     then Inl (verr_msg ''invalid_evaluation''
       ''the vault host returned an identity evaluation that does not verify'')
     else and_then (decode_scalar C (ib_blind st)) (\<lambda>r.
       Inr (finalize_hash D C (ib_input st) (mul C (inverse r) ev) None)))))"

definition identity_blind_evaluate_for_tests ::
  "deps \<Rightarrow> ('s :: field, 'p :: ab_group_add, 'h) curve \<Rightarrow> bytes \<Rightarrow> bytes \<Rightarrow> bytes option
     \<Rightarrow> ('h, verr, bytes \<times> bytes) act" where
  "identity_blind_evaluate_for_tests D C secret_key blinded random64 =
     abind (alift (decode_scalar C secret_key)) (\<lambda>k.
     abind (alift (decode_element C blinded)) (\<lambda>c.
     let d = mul C k c in
     abind (generate_proof D C MODE_VOPRF k (mul_gen C k) c d random64) (\<lambda>proof.
     aret (enc C d, proof))))"

definition identity_id_from_output :: "deps \<Rightarrow> bytes \<Rightarrow> string" where
  "identity_id_from_output D output = hex_encode D (take 32 output)"

section \<open>poprf.rs\<close>

definition pepper_info :: "string \<Rightarrow> string \<Rightarrow> bytes" where
  "pepper_info vid sid = bytes_of ''CKVF-pepper-v1'' @ [0] @ bytes_of vid @ [0] @ bytes_of sid"

record poprf_blind_state =
  pb_input :: bytes
  pb_info :: bytes
  pb_blind :: bytes
  pb_blinded :: bytes
  pb_tweaked_key :: bytes

definition info_scalar :: "deps \<Rightarrow> ('s, 'p, 'h) curve \<Rightarrow> bytes \<Rightarrow> verr + 's" where
  "info_scalar D C info = hash_to_scalar D C (bytes_of ''Info'' @ lp info) MODE_POPRF"

definition poprf_blind ::
  "deps \<Rightarrow> ('s :: field, 'p :: ab_group_add, 'h) curve \<Rightarrow> bytes \<Rightarrow> bytes \<Rightarrow> bytes \<Rightarrow> bytes option
     \<Rightarrow> ('h, verr, poprf_blind_state) act" where
  "poprf_blind D C input info public_key blind =
     abind (alift (info_scalar D C info)) (\<lambda>t.
     abind (alift (decode_element C public_key)) (\<lambda>pk.
     let tweaked = add (mul_gen C t) pk in
     if tweaked = 0 then afail (verr_msg ''oprf_failed'' ''tweaked key is the identity'')
     else
       abind (case blind of Some b \<Rightarrow> alift (decode_scalar C b) | None \<Rightarrow> random_scalar C None) (\<lambda>r.
       abind (alift (hash_to_group D C input MODE_POPRF)) (\<lambda>point.
       if point = 0 then afail (verr_msg ''oprf_failed'' ''input maps to the identity'')
       else aret \<lparr>pb_input = input, pb_info = info, pb_blind = enc_scalar C r,
         pb_blinded = enc C (mul C r point), pb_tweaked_key = enc C tweaked\<rparr>))))"

definition poprf_finalize ::
  "deps \<Rightarrow> ('s :: field, 'p :: ab_group_add, 'h) curve \<Rightarrow> poprf_blind_state
     \<Rightarrow> bytes \<Rightarrow> bytes \<Rightarrow> verr + bytes" where
  "poprf_finalize D C st evaluated proof =
     and_then (decode_element C evaluated) (\<lambda>ev.
     and_then (decode_element C (pb_tweaked_key st)) (\<lambda>tk.
     and_then (decode_element C (pb_blinded st)) (\<lambda>blinded.
     if \<not> verify_proof D C MODE_POPRF tk ev blinded proof
     then Inl (verr_msg ''invalid_evaluation''
       ''the vault host returned a pepper evaluation that does not verify'')
     else and_then (decode_scalar C (pb_blind st)) (\<lambda>r.
       Inr (finalize_hash D C (pb_input st) (mul C (inverse r) ev) (Some (pb_info st)))))))"

definition poprf_blind_evaluate ::
  "deps \<Rightarrow> ('s :: field, 'p :: ab_group_add, 'h) curve \<Rightarrow> bytes \<Rightarrow> bytes \<Rightarrow> bytes \<Rightarrow> bytes option
     \<Rightarrow> ('h, verr, bytes \<times> bytes) act" where
  "poprf_blind_evaluate D C secret_key info blinded random64 =
     abind (alift (decode_scalar C secret_key)) (\<lambda>k.
     abind (alift (info_scalar D C info)) (\<lambda>i.
     let t = k + i in
     if t = 0 then afail (verr_msg ''oprf_failed'' ''inverse error'')
     else
       abind (alift (decode_element C blinded)) (\<lambda>d.
       let c = mul C (inverse t) d in
       abind (generate_proof D C MODE_POPRF t (mul_gen C t) c d random64) (\<lambda>proof.
       aret (enc C c, proof)))))"

definition oprf_public_key :: "('s, 'p, 'h) curve \<Rightarrow> bytes \<Rightarrow> verr + bytes" where
  "oprf_public_key C secret_key =
     and_then (decode_scalar C secret_key) (\<lambda>k. Inr (enc C (mul_gen C k)))"

section \<open>Building blocks\<close>

lemma expand_message_Inr:
  assumes "0 < len" "len \<le> 64" "length dst \<le> 255" "hash_lengths D"
  shows "\<exists>u. expand_message_xmd_sha512 D msg dst len = Inr u \<and> length u = len"
proof -
  have "(len + 64 - 1) div 64 = 1" using assms(1,2) by linarith
  with assms show ?thesis
    by (simp add: expand_message_xmd_sha512_def Let_def hash_lengthsD)
qed

lemma length_context_string [simp]: "length (context_string mode) = 28"
  by (simp add: context_string_def OPRF_SUITE_def)

lemma hash_to_Inr:
  assumes "hash_lengths D"
  shows "\<exists>u. hash_to_group D C input mode = Inr (cv_from_uniform C u) \<and> length u = 64"
    and "\<exists>u. hash_to_scalar D C input mode = Inr (cv_scalar_wide C u) \<and> length u = 64"
  using expand_message_Inr [of 64 "bytes_of ''HashToGroup-'' @ context_string mode" D input]
    expand_message_Inr [of 64 "bytes_of ''HashToScalar-'' @ context_string mode" D input] assms
  by (auto simp: hash_to_group_def hash_to_scalar_def)


lemma hash_to_not_Inl:
  assumes "hash_lengths D"
  shows "hash_to_scalar D C input mode \<noteq> Inl e" "hash_to_group D C input mode \<noteq> Inl e"
  using hash_to_Inr [OF assms, of C input mode] by auto

lemma composites_not_Inl: "hash_lengths D \<Longrightarrow> composites D C mode b c d k \<noteq> Inl e"
  using hash_to_not_Inl(1) [of D C _ mode]
  by (auto simp: composites_def Let_def and_then_def split: sum.splits)

lemma curve_docD:
  assumes "curve_doc C"
  shows "cv_smul C (a + b) p = cv_smul C a p + cv_smul C b p"
    "cv_smul C a (p + q) = cv_smul C a p + cv_smul C a q"
    "cv_smul C (a * b) p = cv_smul C a (cv_smul C b p)"
    "cv_smul C 1 p = p"
    "length (cv_compress C p) = 32" "cv_decompress C (cv_compress C p) = Some p"
    "length (cv_scalar_bytes C a) = 32" "cv_scalar_canonical C (cv_scalar_bytes C a) = Some a"
  using assms unfolding curve_doc_def by blast+

lemma smul_zero:
  assumes "curve_doc C"
  shows "cv_smul C a 0 = 0" "cv_smul C 0 p = 0"
  using curve_docD(2) [OF assms, of a 0 0] curve_docD(1) [OF assms, of 0 0 p] by simp_all

lemma smul_inverse:
  assumes "curve_doc C" "a \<noteq> 0"
  shows "cv_smul C (inverse a) (cv_smul C a p) = p"
proof -
  have "cv_smul C (inverse a) (cv_smul C a p) = cv_smul C (inverse a * a) p"
    by (rule curve_docD(3) [OF assms(1), symmetric])
  also have "\<dots> = p" using assms by (simp add: curve_docD(4))
  finally show ?thesis .
qed

lemma smul_eq_0_iff:
  assumes "curve_doc C"
  shows "cv_smul C a p = 0 \<longleftrightarrow> a = 0 \<or> p = 0"
  using smul_zero [OF assms] smul_inverse [OF assms] by metis

lemma smul_commute:
  assumes "curve_doc C"
  shows "cv_smul C a (cv_smul C b p) = cv_smul C b (cv_smul C a p)"
  using curve_docD(3) [OF assms] by (metis mult.commute)

lemma decode_enc:
  assumes "curve_doc C"
  shows "decode_element C (enc C p)
      = (if p = 0 then Inl (verr_msg ''invalid_evaluation'' ''identity element'') else Inr p)"
    and "decode_scalar C (enc_scalar C a) = Inr a"
  using assms by (simp_all add: decode_element_def decode_scalar_def enc_def enc_scalar_def curve_docD)

lemma decode_element_Inr: "decode_element C bs = Inr p \<Longrightarrow> p \<noteq> 0"
  by (auto simp: decode_element_def and_then_Inr_iff split: if_splits)

lemma length_enc:
  assumes "curve_doc C"
  shows "length (enc C p) = 32" "length (enc_scalar C a) = 32"
  using assms by (simp_all add: enc_def enc_scalar_def curve_docD)

lemma random_scalar_nonzero: "random_scalar C seed h = (Inr r, h') \<Longrightarrow> r \<noteq> 0"
  by (auto simp: random_scalar_def abind_Inr_iff Let_def split: if_splits)

section \<open>The DLEQ proof\<close>

lemma composites_key:
  assumes "curve_doc C" "d = cv_smul C k c"
  shows "composites D C mode b c d (Some k) = composites D C mode b c d None"
  using assms smul_commute [OF assms(1)]
  by (simp add: composites_def Let_def mul_def)

lemma generate_proof_verifies:
  assumes doc: "curve_doc C" and d: "d = cv_smul C k c" and b: "b = mul_gen C k"
    and gen: "generate_proof D C mode k b c d random64 h = (Inr proof, h')"
  shows "verify_proof D C mode b c d proof"
proof -
  obtain m z r cs where
    mz: "composites D C mode b c d None = Inr (m, z)"
    and ch: "challenge D C mode b m z (mul_gen C r) (mul C r m) = Inr cs"
    and pf: "proof = enc_scalar C cs @ enc_scalar C (r - cs * k)"
    using gen by (auto simp: generate_proof_def abind_Inr_iff Let_def composites_key [OF doc d])
  have z: "z = cv_smul C k m"
    using mz d by (auto simp: composites_def Let_def and_then_Inr_iff mul_def smul_commute [OF doc, of k])
  have r: "cv_smul C r p = cv_smul C cs (cv_smul C k p) + cv_smul C (r - cs * k) p" for p
    using curve_docD(1) [OF doc, of "cs * k" "r - cs * k" p] curve_docD(3) [OF doc, of cs k p] by simp
  have t2: "cv_smul C cs b + cv_smul C (r - cs * k) (cv_base C) = mul_gen C r"
    using r by (simp add: b mul_gen_def)
  have t3: "cv_smul C (r - cs * k) m + cv_smul C cs z = mul C r m"
    using r [of m] by (simp add: z mul_def add.commute)
  show ?thesis
    using decode_enc(2) [OF doc] length_enc(2) [OF doc]
    by (simp add: verify_proof_def pf mz t2 t3 ch)
qed

lemma generate_proof_returns:
  assumes "curve_doc C" "hash_lengths D" "length seed = 64" "cv_scalar_wide C seed \<noteq> 0"
  shows "\<exists>pf. generate_proof D C mode k b c d (Some seed) h = (Inr pf, h) \<and> length pf = 64"
proof -
  obtain m z where mz: "composites D C mode b c d (Some k) = Inr (m, z)"
    using composites_not_Inl [OF assms(2), of C mode b c d "Some k"]
    by (cases "composites D C mode b c d (Some k)") auto
  obtain cs where cs: "challenge D C mode b m z (mul_gen C (cv_scalar_wide C seed))
      (mul C (cv_scalar_wide C seed) m) = Inr cs"
    using hash_to_not_Inl(1) [OF assms(2), of C]
    by (cases "challenge D C mode b m z (mul_gen C (cv_scalar_wide C seed))
      (mul C (cv_scalar_wide C seed) m)") (auto simp: challenge_def)
  show ?thesis
    using assms mz cs length_enc(2) [OF assms(1)]
    by (simp add: generate_proof_def abind_apply random_scalar_def Let_def)
qed

text \<open>
  C7. Completeness of the DLEQ proof: for \<open>d = k c\<close> under the public key of \<open>k\<close>, and a 64-byte
  seed that does not give the zero scalar, \<open>generate_proof\<close> returns a proof of 64 bytes that
  \<open>verify_proof\<close> accepts, in every mode.
\<close>

theorem dleq_complete:
  assumes "curve_doc C" "hash_lengths D" "length seed = 64" "cv_scalar_wide C seed \<noteq> 0"
  shows "\<exists>pf. generate_proof D C mode k (mul_gen C k) c (mul C k c) (Some seed) h = (Inr pf, h)
    \<and> length pf = 64 \<and> verify_proof D C mode (mul_gen C k) c (mul C k c) pf"
  using generate_proof_returns [OF assms] generate_proof_verifies [OF assms(1) _ refl]
  by (metis mul_def)

section \<open>The protocols\<close>

lemma oprf_public_key_Inr_iff:
  "oprf_public_key C sk = Inr pk \<longleftrightarrow> (\<exists>k. decode_scalar C sk = Inr k \<and> pk = enc C (mul_gen C k))"
  by (auto simp: oprf_public_key_def and_then_Inr_iff)

lemma identity_blind_Inr:
  assumes "identity_blind D C input blind h = (Inr st, h')"
  obtains r point where "hash_to_group D C input MODE_OPRF = Inr point" "point \<noteq> 0"
    "st = \<lparr>ib_input = input, ib_blind = enc_scalar C r, ib_blinded = enc C (mul C r point)\<rparr>"
  using assms by (auto simp: identity_blind_def abind_Inr_iff split: if_splits)

lemma identity_evaluate_Inr:
  assumes "identity_blind_evaluate_for_tests D C sk blinded random64 h = (Inr (ev, pf), h')"
  obtains k c where "decode_scalar C sk = Inr k" "decode_element C blinded = Inr c"
    "ev = enc C (mul C k c)"
    "generate_proof D C MODE_VOPRF k (mul_gen C k) c (mul C k c) random64 h = (Inr pf, h')"
  using assms by (auto simp: identity_blind_evaluate_for_tests_def abind_Inr_iff Let_def)

text \<open>
  C8. The identity OPRF is correct and oblivious: when the client blinds a mailbox, the host
  evaluates the blinded element under its non-zero key and the client finalizes with the
  host's public key, the proof is accepted and the output is the keyed hash of the mailbox,
  which does not depend on the blind or on the proof's randomness.
\<close>

theorem identity_voprf_correct:
  assumes doc: "curve_doc C"
    and blind: "identity_blind D C input blind h0 = (Inr st, h1)"
    and eval: "identity_blind_evaluate_for_tests D C sk (ib_blinded st) random64 h2
      = (Inr (ev, pf), h3)"
    and key: "decode_scalar C sk = Inr k" "k \<noteq> 0" "oprf_public_key C sk = Inr pk"
    and base: "cv_base C \<noteq> 0"
  shows "\<exists>point. hash_to_group D C input MODE_OPRF = Inr point
    \<and> identity_finalize D C st ev pf pk = Inr (finalize_hash D C input (mul C k point) None)"
proof -
  obtain r point where p: "hash_to_group D C input MODE_OPRF = Inr point" "point \<noteq> 0"
    and st: "st = \<lparr>ib_input = input, ib_blind = enc_scalar C r, ib_blinded = enc C (mul C r point)\<rparr>"
    by (rule identity_blind_Inr [OF blind])
  obtain c where c: "decode_element C (ib_blinded st) = Inr c" and ev: "ev = enc C (mul C k c)"
    and gen: "generate_proof D C MODE_VOPRF k (mul_gen C k) c (mul C k c) random64 h2 = (Inr pf, h3)"
    by (rule identity_evaluate_Inr [OF eval]) (use key(1) that in auto)
  have r: "r \<noteq> 0" and c_eq: "c = mul C r point"
    using c st by (auto simp: decode_enc [OF doc] mul_def smul_zero [OF doc] split: if_splits)
  have v: "verify_proof D C MODE_VOPRF (mul_gen C k) c (mul C k c) pf"
    by (rule generate_proof_verifies [OF doc _ refl gen]) (simp add: mul_def)
  have nz: "mul C k c \<noteq> 0" "mul_gen C k \<noteq> 0"
    using key(2) p(2) r base by (simp_all add: c_eq mul_def mul_gen_def smul_eq_0_iff [OF doc])
  have "mul C (inverse r) (mul C k c) = mul C k point"
    using r by (simp add: c_eq mul_def smul_commute [OF doc, of k] smul_inverse [OF doc])
  with p c v nz key show ?thesis
    by (simp add: identity_finalize_def ev oprf_public_key_def decode_enc [OF doc])
      (use v nz key c in \<open>auto simp: st decode_enc [OF doc]\<close>)
qed

lemma poprf_blind_Inr:
  assumes "poprf_blind D C input info pk blind h = (Inr st, h')"
  obtains r point t pkp where "hash_to_group D C input MODE_POPRF = Inr point" "point \<noteq> 0"
    "info_scalar D C info = Inr t" "decode_element C pk = Inr pkp" "mul_gen C t + pkp \<noteq> 0"
    "st = \<lparr>pb_input = input, pb_info = info, pb_blind = enc_scalar C r,
       pb_blinded = enc C (mul C r point), pb_tweaked_key = enc C (mul_gen C t + pkp)\<rparr>"
  using assms by (auto simp: poprf_blind_def abind_Inr_iff Let_def add_def split: if_splits)

lemma poprf_evaluate_Inr:
  assumes "poprf_blind_evaluate D C sk info blinded random64 h = (Inr (ev, pf), h')"
  obtains k t d where "decode_scalar C sk = Inr k" "info_scalar D C info = Inr t" "k + t \<noteq> 0"
    "decode_element C blinded = Inr d" "ev = enc C (mul C (inverse (k + t)) d)"
    "generate_proof D C MODE_POPRF (k + t) (mul_gen C (k + t)) (mul C (inverse (k + t)) d) d
       random64 h = (Inr pf, h')"
  using assms by (auto simp: poprf_blind_evaluate_def abind_Inr_iff Let_def split: if_splits)

lemma poprf_run:
  assumes doc: "curve_doc C"
    and key: "decode_scalar C sk = Inr k" "oprf_public_key C sk = Inr pk"
    and blind: "poprf_blind D C input info pk blind h0 = (Inr st, h1)"
    and eval: "poprf_blind_evaluate D C sk info (pb_blinded st) random64 h2 = (Inr (ev, pf), h3)"
  shows "\<exists>point t. hash_to_group D C input MODE_POPRF = Inr point \<and> info_scalar D C info = Inr t
    \<and> k + t \<noteq> 0
    \<and> poprf_finalize D C st ev pf
        = Inr (finalize_hash D C input (mul C (inverse (k + t)) point) (Some info))"
proof -
  obtain r point t pkp where p: "hash_to_group D C input MODE_POPRF = Inr point" "point \<noteq> 0"
    and t: "info_scalar D C info = Inr t" and pkp: "decode_element C pk = Inr pkp"
    and tw: "mul_gen C t + pkp \<noteq> 0"
    and st: "st = \<lparr>pb_input = input, pb_info = info, pb_blind = enc_scalar C r,
       pb_blinded = enc C (mul C r point), pb_tweaked_key = enc C (mul_gen C t + pkp)\<rparr>"
    by (rule poprf_blind_Inr [OF blind])
  obtain d where nz: "k + t \<noteq> 0" and d: "decode_element C (pb_blinded st) = Inr d"
    and ev: "ev = enc C (mul C (inverse (k + t)) d)"
    and gen: "generate_proof D C MODE_POPRF (k + t) (mul_gen C (k + t))
      (mul C (inverse (k + t)) d) d random64 h2 = (Inr pf, h3)"
    by (rule poprf_evaluate_Inr [OF eval]) (use key(1) t that in auto)
  have pkp_eq: "pkp = mul_gen C k"
    using key pkp by (auto simp: oprf_public_key_def decode_enc [OF doc] split: if_splits)
  have tweak: "mul_gen C t + pkp = mul_gen C (k + t)"
    by (simp add: pkp_eq mul_gen_def curve_docD(1) [OF doc] add.commute)
  have r: "r \<noteq> 0" and d_eq: "d = mul C r point" and d0: "d \<noteq> 0"
    using d st by (auto simp: decode_enc [OF doc] mul_def smul_zero [OF doc] split: if_splits)
  have undo: "d = cv_smul C (k + t) (mul C (inverse (k + t)) d)"
    using nz smul_inverse [OF doc, of "inverse (k + t)" d] by (simp add: mul_def)
  have v: "verify_proof D C MODE_POPRF (mul_gen C (k + t)) (mul C (inverse (k + t)) d) d pf"
    by (rule generate_proof_verifies [OF doc undo refl gen])
  have ev0: "mul C (inverse (k + t)) d \<noteq> 0"
    using nz d0 by (simp add: mul_def smul_eq_0_iff [OF doc])
  have out: "mul C (inverse r) (mul C (inverse (k + t)) d) = mul C (inverse (k + t)) point"
    using r by (simp add: d_eq mul_def smul_commute [OF doc, of "inverse (k + t)"] smul_inverse [OF doc])
  have "poprf_finalize D C st ev pf
      = Inr (finalize_hash D C input (mul C (inverse (k + t)) point) (Some info))"
    using v ev0 d tw out
    by (simp add: poprf_finalize_def ev decode_enc [OF doc] st tweak)
  with p t nz show ?thesis by blast
qed

text \<open>
  C9. The pepper POPRF is correct: blinding under the public key of a host, evaluating under
  that host's secret key with the same \<open>info\<close> and finalizing accepts the proof and yields
  the hash of the input, the \<open>info\<close> and the point evaluated under the tweaked key, whatever
  the blind and the randomness were.
\<close>

theorem pepper_poprf_correct:
  assumes doc: "curve_doc C"
    and key: "decode_scalar C sk = Inr k" "oprf_public_key C sk = Inr pk"
    and blind: "poprf_blind D C input info pk blind h0 = (Inr st, h1)"
    and eval: "poprf_blind_evaluate D C sk info (pb_blinded st) random64 h2 = (Inr (ev, pf), h3)"
  shows "\<exists>point t. hash_to_group D C input MODE_POPRF = Inr point \<and> info_scalar D C info = Inr t
    \<and> k + t \<noteq> 0
    \<and> poprf_finalize D C st ev pf
        = Inr (finalize_hash D C input (mul C (inverse (k + t)) point) (Some info))"
  using poprf_run [OF assms] .

lemma pepper_info_inject:
  assumes "0 \<notin> set (bytes_of v)" "0 \<notin> set (bytes_of v')"
  shows "pepper_info v s = pepper_info v' s' \<longleftrightarrow> v = v' \<and> s = s'"
  using assms by (simp add: pepper_info_def append_sep_eq)


section \<open>A concrete group\<close>

text \<open>The field of three elements, over itself: encodings are the element and 31 zero bytes.\<close>

datatype gf3 = G0 | G1 | G2

fun gf3_nat :: "gf3 \<Rightarrow> nat" where
  "gf3_nat G0 = 0"
| "gf3_nat G1 = 1"
| "gf3_nat G2 = 2"

definition gf3_of :: "nat \<Rightarrow> gf3" where
  "gf3_of n = (if n mod 3 = 0 then G0 else if n mod 3 = 1 then G1 else G2)"

instantiation gf3 :: field
begin

definition zero_gf3 :: gf3 where
  "zero_gf3 = G0"

definition one_gf3 :: gf3 where
  "one_gf3 = G1"

definition plus_gf3 :: "gf3 \<Rightarrow> gf3 \<Rightarrow> gf3" where
  "plus_gf3 a b = gf3_of (gf3_nat a + gf3_nat b)"

definition uminus_gf3 :: "gf3 \<Rightarrow> gf3" where
  "uminus_gf3 a = gf3_of (3 - gf3_nat a)"

definition minus_gf3 :: "gf3 \<Rightarrow> gf3 \<Rightarrow> gf3" where
  "minus_gf3 a b = gf3_of (gf3_nat a + (3 - gf3_nat b))"

definition times_gf3 :: "gf3 \<Rightarrow> gf3 \<Rightarrow> gf3" where
  "times_gf3 a b = gf3_of (gf3_nat a * gf3_nat b)"

definition inverse_gf3 :: "gf3 \<Rightarrow> gf3" where
  "inverse_gf3 a = a"

definition divide_gf3 :: "gf3 \<Rightarrow> gf3 \<Rightarrow> gf3" where
  "divide_gf3 a b = gf3_of (gf3_nat a * gf3_nat b)"

lemmas gf3_defs = zero_gf3_def one_gf3_def plus_gf3_def uminus_gf3_def minus_gf3_def
  times_gf3_def inverse_gf3_def divide_gf3_def gf3_of_def

instance
proof
  fix a b c :: gf3
  show "a * b * c = a * (b * c)" by (cases a; cases b; cases c) (simp_all add: gf3_defs)
  show "a * b = b * a" by (cases a; cases b) (simp_all add: gf3_defs)
  show "1 * a = a" by (cases a) (simp_all add: gf3_defs)
  show "a + b + c = a + (b + c)" by (cases a; cases b; cases c) (simp_all add: gf3_defs)
  show "a + b = b + a" by (cases a; cases b) (simp_all add: gf3_defs)
  show "0 + a = a" by (cases a) (simp_all add: gf3_defs)
  show "- a + a = 0" by (cases a) (simp_all add: gf3_defs)
  show "a - b = a + - b" by (cases a; cases b) (simp_all add: gf3_defs)
  show "(a + b) * c = a * c + b * c" by (cases a; cases b; cases c) (simp_all add: gf3_defs)
  show "(0 :: gf3) \<noteq> 1" by (simp add: gf3_defs)
  show "a \<noteq> 0 \<Longrightarrow> inverse a * a = 1" by (cases a) (simp_all add: gf3_defs)
  show "a div b = a * inverse b" by (cases a; cases b) (simp_all add: gf3_defs)
  show "inverse (0 :: gf3) = 0" by (simp add: gf3_defs)
qed

end

definition gf3_bytes :: "gf3 \<Rightarrow> bytes" where
  "gf3_bytes a = word_of_nat (gf3_nat a) # replicate 31 0"

definition gf3_decode :: "bytes \<Rightarrow> gf3 option" where
  "gf3_decode bs = (if bs = gf3_bytes G0 then Some G0 else if bs = gf3_bytes G1 then Some G1
     else if bs = gf3_bytes G2 then Some G2 else None)"

definition sample_curve :: "(gf3, gf3, nat) curve" where
  "sample_curve = \<lparr>
     cv_base = G1, cv_smul = (*), cv_compress = gf3_bytes, cv_decompress = gf3_decode,
     cv_from_uniform = (\<lambda>u. G2),
     cv_scalar_bytes = gf3_bytes, cv_scalar_canonical = gf3_decode,
     cv_scalar_wide = (\<lambda>u. G2),
     cv_random = (\<lambda>n h. (Inr (replicate n (word_of_nat h)), Suc h))\<rparr>"

lemma gf3_decode_bytes [simp]: "gf3_decode (gf3_bytes a) = Some a"
  by (cases a) (simp_all add: gf3_decode_def gf3_bytes_def)

lemma sample_curve_doc [simp]: "curve_doc sample_curve"
  by (simp add: curve_doc_def sample_curve_def algebra_simps) (simp add: gf3_bytes_def)

theorem dleq_complete_witness:
  "\<exists>pf. verify_proof sample_deps sample_curve MODE_VOPRF (mul_gen sample_curve G2) G1
     (mul sample_curve G2 G1) pf"
proof -
  have "length (replicate 64 (0 :: byte)) = 64" by simp
  moreover have "cv_scalar_wide sample_curve (replicate 64 0) \<noteq> 0"
    by (simp add: sample_curve_def zero_gf3_def)
  ultimately show ?thesis
    using dleq_complete [of sample_curve sample_deps "replicate 64 0" MODE_VOPRF G2 G1 0] by auto
qed

text \<open>A run of the identity OPRF on the concrete group.\<close>

definition sample_blind :: identity_blind_state where
  "sample_blind = \<lparr>ib_input = [1], ib_blind = gf3_bytes G2, ib_blinded = gf3_bytes G1\<rparr>"

lemma sample_curve_simps [simp]:
  "cv_base sample_curve = 1" "cv_smul sample_curve = (*)" "cv_compress sample_curve = gf3_bytes"
  "cv_from_uniform sample_curve u = G2" "cv_scalar_bytes sample_curve = gf3_bytes"
  "cv_scalar_wide sample_curve u = G2"
  by (simp_all add: sample_curve_def one_gf3_def)

lemma sample_decode:
  "decode_scalar sample_curve (gf3_bytes a) = Inr a"
  "decode_element sample_curve (gf3_bytes a)
     = (if a = 0 then Inl (verr_msg ''invalid_evaluation'' ''identity element'') else Inr a)"
  using decode_enc [OF sample_curve_doc, of a] by (simp_all add: enc_def enc_scalar_def)

lemma sample_key: "oprf_public_key sample_curve (gf3_bytes a) = Inr (gf3_bytes a)"
  by (simp add: oprf_public_key_def sample_decode enc_def mul_gen_def)

lemma sample_hash_to_group: "hash_to_group sample_deps sample_curve input mode = Inr G2"
  using hash_to_Inr(1) [of sample_deps sample_curve input mode] by auto

lemma G_simps [simp]: "G2 \<noteq> 0" "G1 = 1" "G2 * G2 = 1" "G2 + G2 = 1" "(0 :: gf3) \<noteq> 1"
  by (simp_all add: gf3_defs)

lemma sample_identity_blind:
  "identity_blind sample_deps sample_curve [1] (Some (gf3_bytes G2)) 0 = (Inr sample_blind, 0)"
  by (simp add: identity_blind_def abind_apply sample_decode sample_hash_to_group sample_blind_def
      enc_scalar_def enc_def mul_def)

theorem identity_voprf_correct_witness:
  "\<exists>pf ev. identity_finalize sample_deps sample_curve sample_blind ev pf (gf3_bytes G2)
     = Inr (finalize_hash sample_deps sample_curve [1] 1 None)"
proof -
  obtain pf where "generate_proof sample_deps sample_curve MODE_VOPRF G2 (mul_gen sample_curve G2) 1
      (mul sample_curve G2 1) (Some (replicate 64 0)) 0 = (Inr pf, 0)"
    using generate_proof_returns [of sample_curve sample_deps "replicate 64 0"] by fastforce
  then have "identity_blind_evaluate_for_tests sample_deps sample_curve (gf3_bytes G2)
      (ib_blinded sample_blind) (Some (replicate 64 0)) 0 = (Inr (gf3_bytes G2, pf), 0)"
    by (simp add: identity_blind_evaluate_for_tests_def abind_apply sample_decode sample_blind_def
        mul_def enc_def)
  from identity_voprf_correct [OF sample_curve_doc sample_identity_blind this sample_decode(1) _ sample_key]
  show ?thesis by (auto simp: sample_hash_to_group mul_def)
qed

lemma sample_info_scalar: "info_scalar sample_deps sample_curve info = Inr G2"
  using hash_to_Inr(2) [of sample_deps sample_curve] by (fastforce simp: info_scalar_def)

definition sample_pepper :: poprf_blind_state where
  "sample_pepper = \<lparr>pb_input = [1], pb_info = [2], pb_blind = gf3_bytes G2,
     pb_blinded = gf3_bytes 1, pb_tweaked_key = gf3_bytes 1\<rparr>"

lemma sample_poprf_blind:
  "poprf_blind sample_deps sample_curve [1] [2] (gf3_bytes G2) (Some (gf3_bytes G2)) 0
     = (Inr sample_pepper, 0)"
  by (simp add: poprf_blind_def abind_apply sample_decode sample_hash_to_group sample_info_scalar
      enc_scalar_def enc_def mul_def mul_gen_def add_def sample_pepper_def Let_def)

theorem pepper_poprf_correct_witness:
  "\<exists>pf ev. poprf_finalize sample_deps sample_curve sample_pepper ev pf
     = Inr (finalize_hash sample_deps sample_curve [1] G2 (Some [2]))"
proof -
  obtain pf where "generate_proof sample_deps sample_curve MODE_POPRF 1 (mul_gen sample_curve 1) 1
      1 (Some (replicate 64 0)) 0 = (Inr pf, 0)"
    using generate_proof_returns [of sample_curve sample_deps "replicate 64 0"] by fastforce
  then have "poprf_blind_evaluate sample_deps sample_curve (gf3_bytes G2) [2]
      (pb_blinded sample_pepper) (Some (replicate 64 0)) 0 = (Inr (gf3_bytes 1, pf), 0)"
    by (simp add: poprf_blind_evaluate_def abind_apply sample_decode sample_info_scalar
        sample_pepper_def mul_def enc_def Let_def)
  from pepper_poprf_correct [OF sample_curve_doc sample_decode(1) sample_key sample_poprf_blind this]
  show ?thesis by (auto simp: sample_hash_to_group sample_info_scalar mul_def)
qed

end
