(* ===== verification/Vault_Host.thy ===== *)
theory Vault_Host
  imports Grants Oprf
begin

text \<open>
  \<open>crates/scomm-vault/src/vault_host_client.rs\<close>: the reads and records of the vault host, the
  trait \<open>VaultHostApi\<close> as a record of operations on an environment \<open>'h\<close>, and its HTTP client,
  whose transport (\<open>reqwest\<close>) is a parameter. \<open>host_pepper_oprf.rs\<close> is at the end: the pepper
  evaluations that go through the host.
\<close>

section \<open>Fields of a response\<close>

definition len_error :: "string \<Rightarrow> nat \<Rightarrow> verr" where
  "len_error field len =
     verr_msg ''bad_response'' (field @ '' must be '' @ show_nat len @ '' bytes'')"

definition decode_len :: "'h ckvf \<Rightarrow> string \<Rightarrow> nat \<Rightarrow> verr + bytes" where
  "decode_len K s len =
     and_then (map_err (\<lambda>_. len_error ''field'' len) (ck_b64_decode K s)) (\<lambda>b.
       if length b \<noteq> len then Inl (len_error ''field'' len) else Inr b)"

definition bytes_field :: "'h ckvf \<Rightarrow> json \<Rightarrow> string \<Rightarrow> nat \<Rightarrow> verr + bytes" where
  "bytes_field K body field len =
     and_then (ok_or (len_error field len) (jget_str body field)) (\<lambda>s.
       map_err (\<lambda>_. len_error field len) (decode_len K s len))"

lemma decode_len_Inr_iff: "decode_len K s n = Inr b \<longleftrightarrow> ck_b64_decode K s = Inr b \<and> length b = n"
  by (auto simp: decode_len_def and_then_Inr_iff)

lemma bytes_field_Inr_iff:
  "bytes_field K body f n = Inr b \<longleftrightarrow>
     (\<exists>s. jget body f = Some (JStr s) \<and> ck_b64_decode K s = Inr b \<and> length b = n)"
  by (auto simp: bytes_field_def and_then_Inr_iff decode_len_Inr_iff)

section \<open>VaultRecord and VaultRead\<close>

record vault_record =
  vr_container :: container
  vr_msk_signature :: bytes
  vr_created_at :: "string option"

definition vr_generation :: "vault_record \<Rightarrow> u64" where
  "vr_generation r = c_generation (vr_container r)"

definition vr_generation_hash :: "vault_record \<Rightarrow> string" where
  "vr_generation_hash r = c_generation_hash (vr_container r)"

record vault_read =
  rd_record :: "vault_record option"
  rd_msk_public_key :: "bytes option"
  rd_archived_msk_public_keys :: "bytes list"
  rd_oprf_token :: "string option"

text \<open>The \<open>record\<close> object of a read.\<close>

definition record_from_json :: "'h ckvf \<Rightarrow> jmap \<Rightarrow> verr + vault_record" where
  "record_from_json K raw =
     and_then (ok_or (verr_msg ''bad_response'' ''record.msk_signature'')
         (Option.bind (Option.bind (obj_get raw ''msk_signature'') (\<lambda>s. jget s ''value'')) as_str))
       (\<lambda>sig_value.
     and_then (ok_or (verr_msg ''bad_response'' ''record.container'') (obj_get raw ''container''))
       (\<lambda>container_val.
     and_then (map_err from_ckvf (ck_validate_shape K container_val)) (\<lambda>c.
     and_then (case obj_get raw ''generation'' of
         Some g \<Rightarrow> if as_u64 g \<noteq> Some (c_generation c)
           then Inl (verr_msg ''bad_response'' ''record.generation'') else Inr ()
       | None \<Rightarrow> Inr ()) (\<lambda>_.
     and_then (decode_len K sig_value 64) (\<lambda>sig.
       Inr \<lparr>vr_container = c, vr_msk_signature = sig,
         vr_created_at = Option.bind (obj_get raw ''created_at'') as_str\<rparr>)))))"

definition vault_read_from_json :: "'h ckvf \<Rightarrow> json \<Rightarrow> verr + vault_read" where
  "vault_read_from_json K body =
     and_then (case Option.bind (jget body ''record'') as_object of
         Some raw \<Rightarrow> and_then (record_from_json K raw) (\<lambda>r. Inr (Some r))
       | None \<Rightarrow> Inr None) (\<lambda>rec.
     and_then (case jget body ''msk_public_key'' of
         Some (JStr s) \<Rightarrow> and_then (decode_len K s 32) (\<lambda>b. Inr (Some b))
       | _ \<Rightarrow> Inr None) (\<lambda>msk.
     and_then (case jget body ''archived_msk_public_keys'' of
         Some (JArr a) \<Rightarrow> collect_results (\<lambda>k.
           decode_len K (case as_str k of Some s \<Rightarrow> s | None \<Rightarrow> '''') 32) a
       | _ \<Rightarrow> Inr []) (\<lambda>archived.
       Inr \<lparr>rd_record = rec, rd_msk_public_key = msk, rd_archived_msk_public_keys = archived,
         rd_oprf_token = jget_str body ''oprf_token''\<rparr>)))"

section \<open>Pepper keys\<close>

record pepper_key_info =
  pi_kid :: string
  pi_public_key :: bytes
  pi_status :: string

definition as_pepper_key :: "pepper_key_info \<Rightarrow> pepper_key" where
  "as_pepper_key i = \<lparr>pk_kid = pi_kid i, pk_public = pi_public_key i\<rparr>"

record pepper_key_set =
  ps_current_kid :: string
  ps_keys :: "pepper_key_info list"

definition by_kid :: "pepper_key_set \<Rightarrow> string \<Rightarrow> pepper_key_info option" where
  "by_kid s kid = find (\<lambda>k. pi_kid k = kid) (ps_keys s)"

definition pepper_current :: "pepper_key_set \<Rightarrow> verr + pepper_key" where
  "pepper_current s =
     ok_or (verr_msg ''bad_response'' ''current_kid is not listed'')
       (map_option as_pepper_key (by_kid s (ps_current_kid s)))"

definition needs_rewrap :: "pepper_key_set \<Rightarrow> string \<Rightarrow> bool" where
  "needs_rewrap s kid = (kid \<noteq> ps_current_kid s)"

record pepper_evaluation =
  pe_kid :: string
  pe_evaluated :: bytes
  pe_proof :: bytes

definition trim_char :: "char \<Rightarrow> string \<Rightarrow> string" where
  "trim_char c s = trim_end_char c (dropWhile (\<lambda>x. x = c) s)"

definition pepper_keys_from_json :: "deps \<Rightarrow> 'h ckvf \<Rightarrow> json \<Rightarrow> verr + pepper_key_set" where
  "pepper_keys_from_json D K body =
     and_then (ok_or (verr_msg ''bad_response'' ''pw-oprf keys'')
         (Option.bind (jget body ''keys'') as_array)) (\<lambda>ks.
     and_then (ok_or (verr_msg ''bad_response'' ''pw-oprf keys'') (jget_str body ''current_kid''))
       (\<lambda>cur.
     and_then (collect_results (\<lambda>k.
         and_then (bytes_field K k ''public_key'' 32) (\<lambda>pk.
           Inr \<lparr>pi_kid = (case jget k ''kid'' of
                  Some v \<Rightarrow> trim_char (CHR 0x22) (json_print D v) | None \<Rightarrow> ''''),
             pi_public_key = pk,
             pi_status = (case jget_str k ''status'' of Some s \<Rightarrow> s | None \<Rightarrow> '''')\<rparr>)) ks) (\<lambda>infos.
     let set = \<lparr>ps_current_kid = cur, ps_keys = infos\<rparr> in
     if by_kid set cur = None then Inl (verr_msg ''bad_response'' ''current_kid is not listed'')
     else Inr set)))"

section \<open>VaultHostApi\<close>

record 'h host_api =
  ha_identity_oprf_key :: "('h, verr, bytes) act"
  ha_identity_id :: "string \<Rightarrow> bytes option \<Rightarrow> ('h, verr, string) act"
  ha_pepper_keys :: "('h, verr, pepper_key_set) act"
  ha_evaluate_pepper ::
    "string \<Rightarrow> string \<Rightarrow> string \<Rightarrow> bytes \<Rightarrow> vault_authorization
       \<Rightarrow> ('h, verr, pepper_evaluation) act"
  ha_current :: "string \<Rightarrow> vault_authorization \<Rightarrow> ('h, verr, json) act"
  ha_generation :: "string \<Rightarrow> u64 \<Rightarrow> vault_authorization \<Rightarrow> ('h, verr, json) act"
  ha_put_record ::
    "string \<Rightarrow> container \<Rightarrow> msk_signer \<Rightarrow> string option \<Rightarrow> ('h, verr, json) act"
  ha_mutate :: "json \<Rightarrow> ('h, verr, json) act"
  ha_pending_mutations :: "string \<Rightarrow> vault_authorization \<Rightarrow> ('h, verr, json list) act"
  ha_create_pairing :: "string \<Rightarrow> json \<Rightarrow> ('h, verr, json) act"
  ha_get_pairing :: "string \<Rightarrow> string option \<Rightarrow> ('h, verr, json) act"
  ha_respond_pairing :: "string \<Rightarrow> json \<Rightarrow> ('h, verr, json) act"
  ha_open_vault :: "string \<Rightarrow> string \<Rightarrow> string \<Rightarrow> json \<Rightarrow> json \<Rightarrow> ('h, verr, json) act"
  ha_rebind_msk :: "string \<Rightarrow> string \<Rightarrow> string \<Rightarrow> json \<Rightarrow> json \<Rightarrow> ('h, verr, json) act"

text \<open>The default methods of the trait.\<close>

definition current_record ::
  "'h ckvf \<Rightarrow> 'h host_api \<Rightarrow> string \<Rightarrow> vault_authorization \<Rightarrow> ('h, verr, vault_read) act" where
  "current_record K H vid auth =
     abind (ha_current H vid auth) (\<lambda>body. alift (vault_read_from_json K body))"

definition generation_record ::
  "'h ckvf \<Rightarrow> 'h host_api \<Rightarrow> string \<Rightarrow> u64 \<Rightarrow> vault_authorization \<Rightarrow> ('h, verr, vault_read) act"
where
  "generation_record K H vid n auth =
     abind (ha_generation H vid n auth) (\<lambda>body. alift (vault_read_from_json K body))"

section \<open>VaultHostClient\<close>

text \<open>
  One exchange of the transport: a request gives a status and the body as JSON (or the
  parse error), or fails with a network error.
\<close>

record http_request =
  hq_method :: string
  hq_url :: string
  hq_authorization :: "string option"
  hq_body :: "json option"

record 'h host_client =
  hc_base :: string
  hc_http :: "http_request \<Rightarrow> ('h, string, u16 \<times> (string + json)) act"

definition host_client_new ::
  "string \<Rightarrow> (http_request \<Rightarrow> ('h, string, u16 \<times> (string + json)) act) \<Rightarrow> 'h host_client" where
  "host_client_new base_url http = \<lparr>hc_base = trim_end_char (CHR ''/'') base_url, hc_http = http\<rparr>"

definition map_error_body :: "json \<Rightarrow> u16 \<Rightarrow> verr" where
  "map_error_body body status =
     (let err = (case jget body ''error'' of
            Some e \<Rightarrow> if is_object e then e else body | None \<Rightarrow> body);
          code = (case jget_str err ''code'' of
            Some c \<Rightarrow> c | None \<Rightarrow> ''http_'' @ show_nat (unat status));
          message = jget_str err ''message'';
          details = Option.bind (jget err ''details'') as_object
      in verr_with_status code message (Some status) details)"

definition host_send :: "'h host_client \<Rightarrow> http_request \<Rightarrow> ('h, verr, json) act" where
  "host_send c rq = (\<lambda>h. case hc_http c rq h of
       (Inl e, h') \<Rightarrow> (Inl (verr_msg ''network_error'' e), h')
     | (Inr (status, parsed), h') \<Rightarrow>
         (case parsed of
            Inl e \<Rightarrow> if unat status \<ge> 400
              then (Inl (verr_with_status (''http_'' @ show_nat (unat status)) (Some e)
                (Some status) None), h')
              else (Inl (verr_msg ''bad_response'' e), h')
          | Inr body \<Rightarrow> if unat status \<ge> 400 then (Inl (map_error_body body status), h')
              else if \<not> is_object body
              then (Inl (verr_msg ''bad_response'' ''expected a JSON object''), h')
              else (Inr body, h')))"

definition host_get ::
  "'h host_client \<Rightarrow> string \<Rightarrow> vault_authorization option \<Rightarrow> ('h, verr, json) act" where
  "host_get c path auth = host_send c \<lparr>hq_method = ''GET'', hq_url = hc_base c @ path,
     hq_authorization = map_option auth_header auth, hq_body = None\<rparr>"

definition host_post ::
  "'h host_client \<Rightarrow> string \<Rightarrow> json \<Rightarrow> vault_authorization option \<Rightarrow> ('h, verr, json) act" where
  "host_post c path body auth = host_send c \<lparr>hq_method = ''POST'', hq_url = hc_base c @ path,
     hq_authorization = map_option auth_header auth, hq_body = Some body\<rparr>"

definition host_put ::
  "'h host_client \<Rightarrow> string \<Rightarrow> json \<Rightarrow> vault_authorization option \<Rightarrow> ('h, verr, json) act" where
  "host_put c path body auth = host_send c \<lparr>hq_method = ''PUT'', hq_url = hc_base c @ path,
     hq_authorization = map_option auth_header auth, hq_body = Some body\<rparr>"

text \<open>\<open>urlencoding_encode\<close>: RFC 3986 unreserved bytes stay, every other byte is escaped.\<close>

definition unreserved :: "char \<Rightarrow> bool" where
  "unreserved c \<longleftrightarrow> is_alnum c \<or> c = CHR ''-'' \<or> c = CHR ''_'' \<or> c = CHR ''.'' \<or> c = CHR ''~''"

definition urlencoding_encode :: "string \<Rightarrow> string" where
  "urlencoding_encode s =
     concat (map (\<lambda>c. if unreserved c then [c] else CHR ''%'' # upper_hex2 (byte_of c)) s)"

definition client_identity_oprf_key :: "'h ckvf \<Rightarrow> 'h host_client \<Rightarrow> ('h, verr, bytes) act" where
  "client_identity_oprf_key K c =
     abind (host_get c ''/v1/id/oprf/key'' None) (\<lambda>body.
       alift (bytes_field K body ''public_key'' 32))"

definition client_identity_id ::
  "deps \<Rightarrow> 'h ckvf \<Rightarrow> ('s :: field, 'p :: ab_group_add, 'h) curve \<Rightarrow> 'h host_client
     \<Rightarrow> string \<Rightarrow> bytes option \<Rightarrow> ('h, verr, string) act" where
  "client_identity_id D K C c canonical_mailbox public_key =
     abind (case public_key of Some k \<Rightarrow> aret k | None \<Rightarrow> client_identity_oprf_key K c) (\<lambda>key.
     abind (identity_blind D C (bytes_of canonical_mailbox) None) (\<lambda>st.
     abind (host_post c ''/v1/id/oprf/evaluate''
         (jobj [(''blind'', JStr (ck_b64_encode K (ib_blinded st)))]) None) (\<lambda>body.
     abind (alift (bytes_field K body ''evaluation'' 32)) (\<lambda>evaluation.
     abind (alift (bytes_field K body ''proof'' 64)) (\<lambda>pf.
     abind (alift (identity_finalize D C st evaluation pf key)) (\<lambda>out.
     aret (identity_id_from_output D out)))))))"

definition client_pepper_keys ::
  "deps \<Rightarrow> 'h ckvf \<Rightarrow> 'h host_client \<Rightarrow> ('h, verr, pepper_key_set) act" where
  "client_pepper_keys D K c =
     abind (host_get c ''/v1/pw-oprf/keys'' None) (\<lambda>body. alift (pepper_keys_from_json D K body))"

definition client_evaluate_pepper ::
  "'h ckvf \<Rightarrow> 'h host_client \<Rightarrow> string \<Rightarrow> string \<Rightarrow> string \<Rightarrow> bytes \<Rightarrow> vault_authorization
     \<Rightarrow> ('h, verr, pepper_evaluation) act" where
  "client_evaluate_pepper K c vid sid kid blinded auth =
     abind (host_post c ''/v1/pw-oprf/evaluate''
         (jobj [(''vault_id'', JStr vid), (''slot_id'', JStr sid), (''kid'', JStr kid),
            (''blind'', JStr (ck_b64_encode K blinded))]) (Some auth)) (\<lambda>body.
     abind (alift (bytes_field K body ''evaluation'' 32)) (\<lambda>evaluated.
     abind (alift (bytes_field K body ''proof'' 64)) (\<lambda>pf.
     aret \<lparr>pe_kid = (case jget_str body ''kid'' of Some k \<Rightarrow> k | None \<Rightarrow> ''''),
       pe_evaluated = evaluated, pe_proof = pf\<rparr>)))"

definition client_current ::
  "'h host_client \<Rightarrow> string \<Rightarrow> vault_authorization \<Rightarrow> ('h, verr, json) act" where
  "client_current c vid auth = host_get c (''/v1/vault/'' @ vid @ ''/current'') (Some auth)"

definition client_generation ::
  "'h host_client \<Rightarrow> string \<Rightarrow> u64 \<Rightarrow> vault_authorization \<Rightarrow> ('h, verr, json) act" where
  "client_generation c vid n auth =
     host_get c (''/v1/vault/'' @ vid @ ''/generation/'' @ show_nat (unat n)) (Some auth)"

definition put_record_body ::
  "'h ckvf \<Rightarrow> string \<Rightarrow> container \<Rightarrow> msk_signer \<Rightarrow> string option \<Rightarrow> verr + jmap" where
  "put_record_body K identity_id c signer license_device_id =
     and_then (record_signature K signer identity_id c) (\<lambda>sig.
       let body = obj_of [(''identity_id'', JStr identity_id), (''container'', ck_to_json K c),
                    (''msk_signature'', JObj sig)]
       in Inr (case license_device_id of
            Some i \<Rightarrow> obj_insert ''license_device_id'' (JStr i) body | None \<Rightarrow> body))"

definition client_put_record ::
  "'h ckvf \<Rightarrow> 'h host_client \<Rightarrow> string \<Rightarrow> container \<Rightarrow> msk_signer \<Rightarrow> string option
     \<Rightarrow> ('h, verr, json) act" where
  "client_put_record K hc identity_id c signer license_device_id =
     abind (alift (put_record_body K identity_id c signer license_device_id)) (\<lambda>body.
       host_post hc (''/v1/vault/'' @ c_vault_id c @ ''/records'') (JObj body) None)"

definition client_mutate :: "'h host_client \<Rightarrow> json \<Rightarrow> ('h, verr, json) act" where
  "client_mutate c env = host_post c ''/v1/mutate'' env None"

definition client_pending_mutations ::
  "'h host_client \<Rightarrow> string \<Rightarrow> vault_authorization \<Rightarrow> ('h, verr, json list) act" where
  "client_pending_mutations c vid auth =
     abind (host_get c (''/v1/vault/'' @ vid @ ''/pending-mutations'') (Some auth)) (\<lambda>body.
       aret (case Option.bind (jget body ''mutations'') as_array of Some a \<Rightarrow> a | None \<Rightarrow> []))"

definition client_create_pairing ::
  "'h host_client \<Rightarrow> string \<Rightarrow> json \<Rightarrow> ('h, verr, json) act" where
  "client_create_pairing c session_id body =
     host_post c (''/v1/pairing/'' @ urlencoding_encode session_id) body None"

definition get_pairing_path :: "string \<Rightarrow> string option \<Rightarrow> string" where
  "get_pairing_path session_id retriever_device_id =
     (let e = urlencoding_encode session_id in
      case retriever_device_id of
        Some i \<Rightarrow> ''/v1/pairing/'' @ e @ ''?retriever_device_id='' @ urlencoding_encode i
      | None \<Rightarrow> ''/v1/pairing/'' @ e)"

definition client_get_pairing ::
  "'h host_client \<Rightarrow> string \<Rightarrow> string option \<Rightarrow> ('h, verr, json) act" where
  "client_get_pairing c session_id retriever_device_id =
     host_get c (get_pairing_path session_id retriever_device_id) None"

definition client_respond_pairing ::
  "'h host_client \<Rightarrow> string \<Rightarrow> json \<Rightarrow> ('h, verr, json) act" where
  "client_respond_pairing c session_id body =
     host_put c (''/v1/pairing/'' @ urlencoding_encode session_id @ ''/response'') body None"

definition client_open_vault ::
  "'h host_client \<Rightarrow> string \<Rightarrow> string \<Rightarrow> string \<Rightarrow> json \<Rightarrow> json \<Rightarrow> ('h, verr, json) act" where
  "client_open_vault c identity_id vid grant msk msk_proof =
     host_post c ''/v1/vault/open'' (jobj [(''identity_id'', JStr identity_id),
       (''vault_id'', JStr vid), (''otp_grant'', JStr grant), (''msk'', msk),
       (''msk_proof'', msk_proof)]) None"

definition client_rebind_msk ::
  "'h host_client \<Rightarrow> string \<Rightarrow> string \<Rightarrow> string \<Rightarrow> json \<Rightarrow> json \<Rightarrow> ('h, verr, json) act" where
  "client_rebind_msk c identity_id vid grant msk msk_proof =
     host_post c (''/v1/vault/'' @ vid @ ''/msk'') (jobj [(''identity_id'', JStr identity_id),
       (''otp_grant'', JStr grant), (''msk'', msk), (''msk_proof'', msk_proof)]) None"

text \<open>\<open>impl VaultHostApi for VaultHostClient\<close>.\<close>

definition host_client_api ::
  "deps \<Rightarrow> 'h ckvf \<Rightarrow> ('s :: field, 'p :: ab_group_add, 'h) curve \<Rightarrow> 'h host_client \<Rightarrow> 'h host_api"
where
  "host_client_api D K C c = \<lparr>
     ha_identity_oprf_key = client_identity_oprf_key K c,
     ha_identity_id = client_identity_id D K C c,
     ha_pepper_keys = client_pepper_keys D K c,
     ha_evaluate_pepper = client_evaluate_pepper K c,
     ha_current = client_current c,
     ha_generation = client_generation c,
     ha_put_record = client_put_record K c,
     ha_mutate = client_mutate c,
     ha_pending_mutations = client_pending_mutations c,
     ha_create_pairing = client_create_pairing c,
     ha_get_pairing = client_get_pairing c,
     ha_respond_pairing = client_respond_pairing c,
     ha_open_vault = client_open_vault c,
     ha_rebind_msk = client_rebind_msk c\<rparr>"

section \<open>host\_pepper\_oprf.rs\<close>

record 'h host_pepper =
  hp_host :: "'h host_api"
  hp_authorization :: vault_authorization

definition host_pepper_finalize ::
  "deps \<Rightarrow> ('s :: field, 'p :: ab_group_add, 'h) curve \<Rightarrow> 'h host_pepper
     \<Rightarrow> string \<Rightarrow> string \<Rightarrow> string \<Rightarrow> bytes \<Rightarrow> bytes \<Rightarrow> ('h, verr, bytes) act" where
  "host_pepper_finalize D C p vid sid kid public_key secret =
     (let info = pepper_info vid sid in
      abind (poprf_blind D C secret info public_key None) (\<lambda>st.
      abind (ha_evaluate_pepper (hp_host p) vid sid kid (pb_blinded st) (hp_authorization p))
        (\<lambda>evaluation.
      if pe_kid evaluation \<noteq> kid
      then afail (verr_msg ''invalid_evaluation''
        (''the vault host answered with kid '' @ pe_kid evaluation @ '', not '' @ kid))
      else alift (poprf_finalize D C st (pe_evaluated evaluation) (pe_proof evaluation)))))"

record precomputed_pepper =
  pp_vault_id :: string
  pp_slot_id :: string
  pp_kid :: string
  pp_secret :: bytes
  pp_rwd :: bytes

definition precomputed_finalize :: "precomputed_pepper \<Rightarrow> 'h pepper_oprf" where
  "precomputed_finalize p vid sid kid public_key secret =
     (if vid = pp_vault_id p \<and> sid = pp_slot_id p \<and> kid = pp_kid p \<and> secret = pp_secret p
      then aret (pp_rwd p)
      else afail (WithMessage ''ERR_UNLOCK'' ''precomputed pepper evaluation mismatch''))"

text \<open>\<open>map_err(|e| CkvfError::msg("ERR_UNLOCK", e.to_string()))\<close>.\<close>

definition unlock_err :: "('h, verr, 'a) act \<Rightarrow> ('h, ckvf_error, 'a) act" where
  "unlock_err m = (\<lambda>h. case m h of (r, h') \<Rightarrow>
     (map_err (\<lambda>e. WithMessage ''ERR_UNLOCK'' (verr_display e)) r, h'))"

definition local_pepper_finalize ::
  "deps \<Rightarrow> ('s :: field, 'p :: ab_group_add, 'h) curve \<Rightarrow> bytes \<Rightarrow> 'h pepper_oprf" where
  "local_pepper_finalize D C secret_key vid sid kid public_key secret =
     (let info = pepper_info vid sid in
      abind (unlock_err (poprf_blind D C secret info public_key None)) (\<lambda>st.
      abind (unlock_err (poprf_blind_evaluate D C secret_key info (pb_blinded st) None))
        (\<lambda>(evaluated, pf).
      unlock_err (alift (poprf_finalize D C st evaluated pf)))))"

section \<open>Path components\<close>

text \<open>The decoding of RFC 3986, 2.1, for a component.\<close>

definition upper_hex_val :: "char \<Rightarrow> nat option" where
  "upper_hex_val c = (if is_digit c then Some (of_char c - 48)
     else if (65::nat) \<le> of_char c \<and> of_char c \<le> (70::nat) then Some (of_char c - 55) else None)"

fun percent_decode :: "string \<Rightarrow> string option" where
  "percent_decode [] = Some []"
| "percent_decode (c # s) =
     (if c = CHR ''%'' then
        (case s of
           a # b # r \<Rightarrow> (case (upper_hex_val a, upper_hex_val b) of
               (Some x, Some y) \<Rightarrow>
                 map_option ((#) (char_of_byte (word_of_nat (16 * x + y)))) (percent_decode r)
             | _ \<Rightarrow> None)
         | _ \<Rightarrow> None)
      else map_option ((#) c) (percent_decode s))"

lemma upper_hex_val_digit: "n < 16 \<Longrightarrow> upper_hex_val (upper_digit n) = Some n"
  by (auto simp: upper_hex_val_def upper_digit_def is_digit_def)

lemma percent_decode_byte:
  "percent_decode (CHR ''%'' # upper_hex2 b @ s) = map_option ((#) (char_of_byte b)) (percent_decode s)"
proof -
  have "word_of_nat (16 * (unat b div 16) + unat b mod 16) = b"
    by simp
  then show ?thesis
    by (simp add: upper_hex2_def upper_hex_val_digit byte_nibbles del: of_nat_add of_nat_mult)
qed

lemma percent_decode_other:
  "c \<noteq> CHR ''%'' \<Longrightarrow> percent_decode (c # s) = map_option ((#) c) (percent_decode s)"
  by simp

lemma percent_not_unreserved: "unreserved c \<Longrightarrow> c \<noteq> CHR ''%''"
  by (auto simp: unreserved_def is_alnum_def is_digit_def is_upper_def is_lower_def)

lemma urlencoding_Cons:
  "urlencoding_encode (c # s) =
     (if unreserved c then [c] else CHR ''%'' # upper_hex2 (byte_of c)) @ urlencoding_encode s"
  by (simp add: urlencoding_encode_def)

text \<open>
  C10. A path component survives the escaping of the host client: decoding what
  \<open>urlencoding_encode\<close> wrote gives the component back, and what it wrote has only unreserved
  characters and \<open>%\<close>, so a session id can neither end the path segment nor open a query.
\<close>

theorem urlencoding_roundtrip:
  "percent_decode (urlencoding_encode s) = Some s
   \<and> list_all (\<lambda>c. unreserved c \<or> c = CHR ''%'') (urlencoding_encode s)"
proof (induction s)
  case Nil
  then show ?case by (simp add: urlencoding_encode_def)
next
  case (Cons c s)
  have "unreserved (upper_digit n)" if "n < 16" for n
    using upper_digit_class [OF that] by (auto simp: unreserved_def is_alnum_def is_upper_def)
  then have "list_all (\<lambda>c. unreserved c \<or> c = CHR ''%'') (upper_hex2 b)" for b
    by (simp add: upper_hex2_def byte_nibbles)
  with Cons show ?case
    by (auto simp: urlencoding_Cons percent_decode_byte percent_not_unreserved percent_decode_other
        simp del: percent_decode.simps(2))
qed
section \<open>Responses\<close>

text \<open>An exchange succeeds only with a status below 400 and an object as the body.\<close>

lemma host_send_Inr_iff:
  "host_send c rq h = (Inr body, h') \<longleftrightarrow>
     (\<exists>status. hc_http c rq h = (Inr (status, Inr body), h') \<and> unat status < 400 \<and> is_object body)"
  by (auto simp: host_send_def split: prod.splits sum.splits if_splits)

lemma collect_results_all:
  "collect_results f xs = Inr ys \<Longrightarrow> (\<And>x y. f x = Inr y \<Longrightarrow> P y) \<Longrightarrow> \<forall>y \<in> set ys. P y"
  by (induction xs arbitrary: ys) (auto simp: and_then_Inr_iff)

lemma record_from_json_Inr:
  assumes "record_from_json K raw = Inr r"
  shows "length (vr_msk_signature r) = 64"
    "\<exists>j. obj_get raw ''container'' = Some j \<and> ck_validate_shape K j = Inr (vr_container r)"
    "obj_get raw ''generation'' = Some g \<Longrightarrow> as_u64 g = Some (vr_generation r)"
  using assms
  by (auto simp: record_from_json_def and_then_Inr_iff decode_len_Inr_iff vr_generation_def
      split: option.splits if_splits)

text \<open>
  C11. A read that is accepted is well formed: its record, when it has one, carries a
  container that passed the shape check, the generation the host announced and a 64-byte
  signature, and every MSK key in it is 32 bytes long.
\<close>

theorem vault_read_well_formed:
  assumes "vault_read_from_json K body = Inr rd"
  shows "(\<forall>r. rd_record rd = Some r \<longrightarrow>
        length (vr_msk_signature r) = 64
        \<and> (\<exists>raw j. jget body ''record'' = Some (JObj raw) \<and> obj_get raw ''container'' = Some j
             \<and> ck_validate_shape K j = Inr (vr_container r)
             \<and> (\<forall>g. obj_get raw ''generation'' = Some g \<longrightarrow> as_u64 g = Some (vr_generation r))))
    \<and> (\<forall>k. rd_msk_public_key rd = Some k \<longrightarrow> length k = 32)
    \<and> (\<forall>k \<in> set (rd_archived_msk_public_keys rd). length k = 32)"
proof -
  obtain rec msk archived where rd: "rd = \<lparr>rd_record = rec, rd_msk_public_key = msk,
      rd_archived_msk_public_keys = archived, rd_oprf_token = jget_str body ''oprf_token''\<rparr>"
    and rec: "(case Option.bind (jget body ''record'') as_object of
         Some raw \<Rightarrow> and_then (record_from_json K raw) (\<lambda>r. Inr (Some r))
       | None \<Rightarrow> Inr None) = Inr rec"
    and msk: "(case jget body ''msk_public_key'' of
         Some (JStr s) \<Rightarrow> and_then (decode_len K s 32) (\<lambda>b. Inr (Some b))
       | _ \<Rightarrow> Inr None) = Inr msk"
    and archived: "(case jget body ''archived_msk_public_keys'' of
         Some (JArr a) \<Rightarrow> collect_results (\<lambda>k.
           decode_len K (case as_str k of Some s \<Rightarrow> s | None \<Rightarrow> '''') 32) a
       | _ \<Rightarrow> Inr []) = Inr archived"
    using assms unfolding vault_read_from_json_def by (auto simp: and_then_Inr_iff)
  have 1: "length (vr_msk_signature r) = 64
      \<and> (\<exists>raw j. jget body ''record'' = Some (JObj raw) \<and> obj_get raw ''container'' = Some j
           \<and> ck_validate_shape K j = Inr (vr_container r)
           \<and> (\<forall>g. obj_get raw ''generation'' = Some g \<longrightarrow> as_u64 g = Some (vr_generation r)))"
    if some: "rec = Some r" for r
  proof -
    obtain raw where raw: "jget body ''record'' = Some (JObj raw)" "record_from_json K raw = Inr r"
      using rec some by (auto simp: and_then_Inr_iff bind_eq_Some_conv split: option.splits)
    from record_from_json_Inr [OF raw(2)] raw(1) show ?thesis by blast
  qed
  have 2: "length k = 32" if "msk = Some k" for k
    using msk that by (auto simp: and_then_Inr_iff decode_len_Inr_iff split: option.splits json.splits)
  have 3: "\<forall>k \<in> set archived. length k = 32"
    using archived
    by (auto elim!: collect_results_all simp: decode_len_Inr_iff split: option.splits json.splits)
  show ?thesis using 1 2 3 by (simp add: rd)
qed

definition sample_read :: json where
  "sample_read = jobj [(''record'', jobj [
     (''msk_signature'', jobj [(''value'', JStr (lower_hex (replicate 64 1)))]),
     (''container'', JNull), (''generation'', JInt 1)])]"

theorem vault_read_well_formed_witness:
  "\<exists>r. vault_read_from_json sample_ckvf sample_read = Inr r
     \<and> (\<forall>k. rd_msk_public_key r = Some k \<longrightarrow> length k = 32)"
proof -
  have "vault_read_from_json sample_ckvf sample_read = Inr \<lparr>rd_record = Some \<lparr>
      vr_container = sample_container, vr_msk_signature = replicate 64 1, vr_created_at = None\<rparr>,
      rd_msk_public_key = None, rd_archived_msk_public_keys = [], rd_oprf_token = None\<rparr>"
    by (simp add: vault_read_from_json_def sample_read_def record_from_json_def jobj_def obj_of_def
        obj_get_def sample_ckvf_def decode_len_def jget_def jget_str_def sample_container_def
        del: replicate.simps)
  from vault_read_well_formed [OF this] this show ?thesis by auto
qed

section \<open>Pepper evaluations through the host\<close>

text \<open>What a host does that holds the pepper key and answers for the asked \<open>kid\<close>.\<close>

definition honest_evaluate ::
  "deps \<Rightarrow> ('s :: field, 'p :: ab_group_add, 'h) curve \<Rightarrow> bytes \<Rightarrow> string \<Rightarrow> bytes \<Rightarrow> bytes
     \<Rightarrow> ('h, verr, pepper_evaluation) act" where
  "honest_evaluate D C sk kid info blinded =
     abind (poprf_blind_evaluate D C sk info blinded None) (\<lambda>(ev, pf).
       aret \<lparr>pe_kid = kid, pe_evaluated = ev, pe_proof = pf\<rparr>)"

lemma abind_unlock_err:
  "abind (unlock_err m) (\<lambda>a. unlock_err (k a)) = unlock_err (abind m k)"
  by (rule ext) (auto simp: unlock_err_def abind_apply split: prod.splits sum.splits)

lemma host_pepper_steps:
  assumes "\<And>blinded. ha_evaluate_pepper (hp_host p) vid sid kid blinded (hp_authorization p)
      = honest_evaluate D C sk kid (pepper_info vid sid) blinded"
  shows "host_pepper_finalize D C p vid sid kid pk secret =
      abind (poprf_blind D C secret (pepper_info vid sid) pk None) (\<lambda>st.
      abind (poprf_blind_evaluate D C sk (pepper_info vid sid) (pb_blinded st) None) (\<lambda>(ev, pf).
      alift (poprf_finalize D C st ev pf)))"
  by (auto simp: host_pepper_finalize_def assms honest_evaluate_def Let_def fun_eq_iff abind_apply
      split: prod.splits sum.splits)

text \<open>
  C12. Recovery through the host is recovery with the key at hand: when the host evaluates
  with its pepper key and answers for the asked \<open>kid\<close>, \<open>HostPepperOprf\<close> and the local
  evaluator return the same result in every environment (errors up to their CKVF code), and
  a returned value is the pepper PRF of the secret, for this vault and slot.
\<close>

theorem host_pepper_matches_local:
  assumes doc: "curve_doc C"
    and honest: "\<And>blinded. ha_evaluate_pepper (hp_host p) vid sid kid blinded (hp_authorization p)
      = honest_evaluate D C sk kid (pepper_info vid sid) blinded"
    and key: "decode_scalar C sk = Inr k" "oprf_public_key C sk = Inr pk"
  shows "local_pepper_finalize D C sk vid sid kid pk secret
        = unlock_err (host_pepper_finalize D C p vid sid kid pk secret)
    \<and> (\<forall>h rwd h'. host_pepper_finalize D C p vid sid kid pk secret h = (Inr rwd, h') \<longrightarrow>
        (\<exists>point t. hash_to_group D C secret MODE_POPRF = Inr point
           \<and> info_scalar D C (pepper_info vid sid) = Inr t
           \<and> rwd = finalize_hash D C secret (mul C (inverse (k + t)) point)
               (Some (pepper_info vid sid))))"
proof (intro conjI allI impI)
  show "local_pepper_finalize D C sk vid sid kid pk secret
      = unlock_err (host_pepper_finalize D C p vid sid kid pk secret)"
    by (simp add: host_pepper_steps [OF honest] local_pepper_finalize_def Let_def
        abind_unlock_err [symmetric] split_def)
next
  fix h rwd h'
  assume "host_pepper_finalize D C p vid sid kid pk secret h = (Inr rwd, h')"
  then obtain st h1 ev pf h2 where
    "poprf_blind D C secret (pepper_info vid sid) pk None h = (Inr st, h1)"
    "poprf_blind_evaluate D C sk (pepper_info vid sid) (pb_blinded st) None h1 = (Inr (ev, pf), h2)"
    "poprf_finalize D C st ev pf = Inr rwd"
    by (auto simp: host_pepper_steps [OF honest] abind_Inr_iff)
  from poprf_run [OF doc key this(1,2)] this(3)
  show "\<exists>point t. hash_to_group D C secret MODE_POPRF = Inr point
      \<and> info_scalar D C (pepper_info vid sid) = Inr t
      \<and> rwd = finalize_hash D C secret (mul C (inverse (k + t)) point) (Some (pepper_info vid sid))"
    by auto
qed

definition sample_pepper_host :: "nat host_pepper" where
  "sample_pepper_host = \<lparr>hp_host = (host_client_api sample_deps sample_ckvf sample_curve
       (host_client_new ''h'' (\<lambda>rq. afail ''offline'')))
       \<lparr>ha_evaluate_pepper := (\<lambda>vid sid kid blinded auth.
          honest_evaluate sample_deps sample_curve (gf3_bytes G2) kid (pepper_info vid sid) blinded)\<rparr>,
     hp_authorization = oprf_token ''t''\<rparr>"

theorem host_pepper_matches_local_witness:
  "local_pepper_finalize sample_deps sample_curve (gf3_bytes G2) ''v'' ''s'' ''k'' (gf3_bytes G2) [1] 0
      = unlock_err (host_pepper_finalize sample_deps sample_curve sample_pepper_host ''v'' ''s'' ''k''
          (gf3_bytes G2) [1]) 0"
  using host_pepper_matches_local [of sample_curve sample_pepper_host "''v''" "''s''" "''k''"
      sample_deps "gf3_bytes G2" G2 "gf3_bytes G2" "[1]"] sample_key sample_decode(1)
  by (auto simp: sample_pepper_host_def)

end
