(* ===== verification/Local_Store.thy ===== *)
theory Local_Store
  imports Grants
begin

text \<open>
  \<open>crates/scomm-vault/src/local_vault_store.rs\<close>: the trait \<open>LocalVaultStore\<close> as a record of
  operations on a store state, its keys, and the in-memory store. The contract that
  \<open>KeyVault\<close> relies on is the locale \<open>local_store\<close>; the in-memory store satisfies it.
\<close>

section \<open>The trait and its keys\<close>

record 's store_api =
  st_read :: "string \<Rightarrow> ('s, verr, string option) act"
  st_write :: "string \<Rightarrow> string option \<Rightarrow> ('s, verr, unit) act" \<comment> \<open>\<open>None\<close> deletes\<close>

definition CONTAINER :: string where
  "CONTAINER = ''container''"

definition DEVICE_KEK :: string where
  "DEVICE_KEK = ''device_kek''"

definition DEVICE_SLOT_ID :: string where
  "DEVICE_SLOT_ID = ''device_slot_id''"

definition SYNCED_HASH :: string where
  "SYNCED_HASH = ''synced_hash''"

definition ALL_KEYS :: "string list" where
  "ALL_KEYS = [CONTAINER, DEVICE_KEK, DEVICE_SLOT_ID, SYNCED_HASH]"

lemmas store_key_defs = CONTAINER_def DEVICE_KEK_def DEVICE_SLOT_ID_def SYNCED_HASH_def

lemma store_keys_distinct [simp]:
  "CONTAINER \<noteq> DEVICE_KEK" "CONTAINER \<noteq> DEVICE_SLOT_ID" "CONTAINER \<noteq> SYNCED_HASH"
  "DEVICE_KEK \<noteq> CONTAINER" "DEVICE_KEK \<noteq> DEVICE_SLOT_ID" "DEVICE_KEK \<noteq> SYNCED_HASH"
  "DEVICE_SLOT_ID \<noteq> CONTAINER" "DEVICE_SLOT_ID \<noteq> DEVICE_KEK" "DEVICE_SLOT_ID \<noteq> SYNCED_HASH"
  "SYNCED_HASH \<noteq> CONTAINER" "SYNCED_HASH \<noteq> DEVICE_KEK" "SYNCED_HASH \<noteq> DEVICE_SLOT_ID"
  by (simp_all add: store_key_defs)

section \<open>MemoryLocalVaultStore\<close>

type_synonym memory = "string \<rightharpoonup> string"

definition memory_new :: memory where
  "memory_new = Map.empty"

definition memory_read :: "string \<Rightarrow> (memory, verr, string option) act" where
  "memory_read key = agets (\<lambda>m. m key)"

definition memory_write :: "string \<Rightarrow> string option \<Rightarrow> (memory, verr, unit) act" where
  "memory_write key v = (case v of
       None \<Rightarrow> aupd (\<lambda>m. m(key := None))
     | Some x \<Rightarrow> aupd (\<lambda>m. m(key \<mapsto> x)))"

definition memory_store :: "memory store_api" where
  "memory_store = \<lparr>st_read = memory_read, st_write = memory_write\<rparr>"

section \<open>The contract\<close>

text \<open>
  A write that succeeds stores the value or deletes the key and touches no other key, a
  write that fails stores nothing, and reading changes nothing.
\<close>

locale local_store =
  fixes S :: "'s store_api"
    and view :: "'s \<Rightarrow> string \<Rightarrow> string option"
  assumes write_ok: "st_write S k v s = (Inr u, s') \<Longrightarrow> view s' = (view s)(k := v)"
    and write_err: "st_write S k v s = (Inl e, s') \<Longrightarrow> view s' = view s"
    and read_ok: "st_read S k s = (Inr r, s') \<Longrightarrow> r = view s k"
    and read_frame: "st_read S k s = (r', s') \<Longrightarrow> view s' = view s"
begin

text \<open>Deleting every key of a list leaves none of them, when it succeeds.\<close>

fun clear_keys :: "string list \<Rightarrow> ('s, verr, unit) act" where
  "clear_keys [] = aret ()"
| "clear_keys (k # ks) = abind (st_write S k None) (\<lambda>_. clear_keys ks)"

lemma clear_keys_ok:
  "clear_keys ks s = (Inr u, s') \<Longrightarrow> view s' = (\<lambda>k. if k \<in> set ks then None else view s k)"
proof (induction ks arbitrary: s)
  case Nil
  then show ?case by simp
next
  case (Cons k ks)
  then obtain u1 s1 where "st_write S k None s = (Inr u1, s1)" "clear_keys ks s1 = (Inr u, s')"
    by (auto simp: abind_Inr_iff)
  with Cons.IH [of s1] write_ok [of k None s u1 s1] show ?case by (auto simp: fun_eq_iff)
qed

lemma write_view:
  "st_write S k v s = (r, s') \<Longrightarrow> k' \<noteq> k \<Longrightarrow> view s' k' = view s k'"
  by (cases r) (auto dest: write_ok write_err)

end

interpretation mem: local_store memory_store "\<lambda>m. m"
  by unfold_locales
    (auto simp: memory_store_def memory_read_def memory_write_def split: option.splits)

end
