(* ===== verification/Key_Vault.thy ===== *)
theory Key_Vault
  imports Vault_Host Local_Store
begin

text \<open>
  \<open>crates/scomm-vault/src/key_vault.rs\<close>: the local-first vault. The state of a \<open>KeyVault\<close> is
  its binding, the unlocked vault in memory, the state \<open>'s\<close> of the local store and the
  environment \<open>'h\<close> (host, clock, random source); every method is a computation on it, with
  the store writes, host calls and early returns in the order of the code.
\<close>

section \<open>Devices and extensions\<close>

definition DEVICES_EXTENSION_ID :: string where
  "DEVICES_EXTENSION_ID = ''priv:scomm.devices''"

definition KEY_META_EXTENSION_PREFIX :: string where
  "KEY_META_EXTENSION_PREFIX = ''priv:scomm.keys.''"

definition key_meta_extension_id :: "string \<Rightarrow> string" where
  "key_meta_extension_id absolute_key_id =
     (let c = (case bytes_of absolute_key_id of [] \<Rightarrow> 0 | b # _ \<Rightarrow> b)
      in KEY_META_EXTENSION_PREFIX @ [lower_digit (unat (c mod 16))])"

record vault_device =
  vd_device_id :: string
  vd_name :: string
  vd_slot_id :: "string option"
  vd_added_at :: "string option"

definition vault_device_new :: "string \<Rightarrow> string \<Rightarrow> vault_device" where
  "vault_device_new device_id name =
     \<lparr>vd_device_id = device_id, vd_name = name, vd_slot_id = None, vd_added_at = None\<rparr>"

definition vault_device_from_json :: "string \<Rightarrow> json \<Rightarrow> vault_device" where
  "vault_device_from_json slot_id j =
     \<lparr>vd_device_id = (case jget_str j ''device_id'' of Some s \<Rightarrow> s | None \<Rightarrow> []),
      vd_name = (case jget_str j ''name'' of Some s \<Rightarrow> s | None \<Rightarrow> []),
      vd_slot_id = Some slot_id,
      vd_added_at = jget_str j ''added_at''\<rparr>"

definition vault_device_to_json :: "vault_device \<Rightarrow> json" where
  "vault_device_to_json d =
     (let m = obj_insert ''name'' (JStr (vd_name d))
                (obj_insert ''device_id'' (JStr (vd_device_id d)) [])
      in JObj (case vd_added_at d of Some a \<Rightarrow> obj_insert ''added_at'' (JStr a) m | None \<Rightarrow> m))"

definition device_json :: "vault_device \<Rightarrow> string \<Rightarrow> json" where
  "device_json device ts = jobj [
     (''device_id'', JStr (vd_device_id device)),
     (''name'', JStr (vd_name device)),
     (''added_at'', JStr (case vd_added_at device of Some a \<Rightarrow> a | None \<Rightarrow> ts))]"

fun extension_data_of :: "extension list \<Rightarrow> string \<Rightarrow> jmap" where
  "extension_data_of [] i = []"
| "extension_data_of (e # es) i =
     (if e_id e = i then
        (case as_object (e_data e) of Some m \<Rightarrow> m | None \<Rightarrow> extension_data_of es i)
      else extension_data_of es i)"

definition extension_data :: "payload \<Rightarrow> string \<Rightarrow> jmap" where
  "extension_data p i = extension_data_of (p_extensions p) i"

definition replace_extension :: "extension list \<Rightarrow> string \<Rightarrow> jmap \<Rightarrow> extension list" where
  "replace_extension exts i data =
     sort_key e_id (filter (\<lambda>e. e_id e \<noteq> i) exts
       @ (if data = [] then [] else [\<lparr>e_id = i, e_critical = False, e_data = JObj data\<rparr>]))"

definition with_extensions :: "payload \<Rightarrow> extension list \<Rightarrow> payload" where
  "with_extensions p exts = \<lparr>p_identity = p_identity p, p_msk = p_msk p, p_keys = p_keys p,
     p_preferred_keys = p_preferred_keys p, p_metadata = p_metadata p,
     p_tombstones = p_tombstones p, p_extensions = exts,
     p_critical_extensions = p_critical_extensions p\<rparr>"

definition with_extension_entry :: "payload \<Rightarrow> string \<Rightarrow> string \<Rightarrow> json \<Rightarrow> payload" where
  "with_extension_entry p i key val =
     (let data = obj_insert key val (extension_data p i)
      in with_extensions p (replace_extension (p_extensions p) i data))"

definition set_meta :: "'h ckvf \<Rightarrow> unlocked \<Rightarrow> string \<Rightarrow> json \<Rightarrow> ('h, verr, unlocked) act" where
  "set_meta K v absolute_key_id meta =
     (let p = with_extension_entry (u_payload v) (key_meta_extension_id absolute_key_id)
            absolute_key_id meta
      in ckvf_act (ck_update_extensions K v (p_extensions p)))"

text \<open>The ids of the \<open>BTreeMap\<close>: ordered, without repetition.\<close>

definition scomm_extension_ids :: "payload \<Rightarrow> payload \<Rightarrow> string list" where
  "scomm_extension_ids head lc =
     sort (remdups (filter (starts_with ''priv:scomm.'')
       (map e_id (p_extensions head @ p_extensions lc))))"

definition merged_extension :: "payload \<Rightarrow> payload \<Rightarrow> string \<Rightarrow> jmap" where
  "merged_extension head lc i =
     fold (\<lambda>(k, v) m. obj_insert k v m) (extension_data lc i) (extension_data head i)"

definition put_extension :: "string \<Rightarrow> jmap \<Rightarrow> payload \<Rightarrow> payload" where
  "put_extension i data p = with_extensions p (replace_extension (p_extensions p) i data)"

definition normalize_payloads :: "payload \<Rightarrow> payload \<Rightarrow> payload \<times> payload" where
  "normalize_payloads head lc =
     fold (\<lambda>i (hp, lp).
         let merged = merged_extension head lc i
         in (put_extension i merged hp, put_extension i merged lp))
       (scomm_extension_ids head lc) (head, lc)"

definition merge_normalized ::
  "'h ckvf \<Rightarrow> unlocked \<Rightarrow> unlocked \<Rightarrow> ('h, verr, unlocked \<times> json list) act" where
  "merge_normalized K head lc =
     (let (hp, lp) = normalize_payloads (u_payload head) (u_payload lc)
      in ckvf_act (ck_merge K
           \<lparr>u_container = u_container head, u_payload = hp, u_vek = u_vek head\<rparr>
           \<lparr>u_container = u_container lc, u_payload = lp, u_vek = u_vek lc\<rparr>))"

section \<open>The signature of a stored record\<close>

fun verify_with_keys :: "'h ckvf \<Rightarrow> bytes \<Rightarrow> bytes \<Rightarrow> string list \<Rightarrow> verr + unit" where
  "verify_with_keys K text sig [] =
     Inl (verr_msg ''invalid_signature'' ''record msk_signature is invalid'')"
| "verify_with_keys K text sig (pk_b64 # ks) =
     and_then (map_err (verr_msg ''bad_response'') (ck_b64_decode K pk_b64)) (\<lambda>pk.
       if ck_ed_verify K pk text sig then Inr () else verify_with_keys K text sig ks)"

definition verify_record_signature ::
  "'h ckvf \<Rightarrow> vault_record \<Rightarrow> unlocked \<Rightarrow> string \<Rightarrow> verr + unit" where
  "verify_record_signature K r opened identity_id =
     (let text = vault_records_signing_text identity_id (c_vault_id (vr_container r))
            (vr_generation r) (vr_generation_hash r);
          msk = p_msk (u_payload opened)
      in verify_with_keys K (bytes_of text) (vr_msk_signature r) (m_public msk # m_history msk))"

section \<open>State\<close>

text \<open>\<open>VaultHostBinding\<close>; the authorizer is a function of the vault id and the operation.\<close>

record 'h host_binding =
  bd_host :: "'h host_api"
  bd_identity_id :: string
  bd_authorize :: "string \<Rightarrow> string \<Rightarrow> ('h, verr, vault_authorization) act"
  bd_license_device_id :: "string option"

definition static_authorize ::
  "vault_authorization \<Rightarrow> string \<Rightarrow> string \<Rightarrow> ('h, verr, vault_authorization) act" where
  "static_authorize auth vid operation = aret auth"

definition device_authorize ::
  "deps \<Rightarrow> 'h ckvf \<Rightarrow> bytes \<Rightarrow> string \<Rightarrow> string \<Rightarrow> string \<Rightarrow> ('h, verr, vault_authorization) act"
where
  "device_authorize D K device_seed identity_id vid operation =
     device_read_authorization D K device_seed identity_id vid operation None None"

definition host_binding_new ::
  "'h host_api \<Rightarrow> string \<Rightarrow> (string \<Rightarrow> string \<Rightarrow> ('h, verr, vault_authorization) act)
     \<Rightarrow> 'h host_binding" where
  "host_binding_new host identity_id auth = \<lparr>bd_host = host, bd_identity_id = identity_id,
     bd_authorize = auth, bd_license_device_id = None\<rparr>"

definition host_binding_device ::
  "deps \<Rightarrow> 'h ckvf \<Rightarrow> 'h host_api \<Rightarrow> string \<Rightarrow> bytes \<Rightarrow> string option \<Rightarrow> 'h host_binding" where
  "host_binding_device D K host identity_id device_seed license_device_id =
     \<lparr>bd_host = host, bd_identity_id = identity_id,
      bd_authorize = device_authorize D K device_seed identity_id,
      bd_license_device_id = license_device_id\<rparr>"

record ('s, 'h) kv =
  kv_binding :: "'h host_binding option"
  kv_vault :: "unlocked option"
  kv_store :: 's
  kv_env :: 'h

type_synonym ('s, 'h, 'a) kv_act = "(('s, 'h) kv, verr, 'a) act"

text \<open>A computation on the store, or on the environment, as one on the whole state.\<close>

definition on_store :: "('s, verr, 'a) act \<Rightarrow> ('s, 'h, 'a) kv_act" where
  "on_store m = (\<lambda>w. case m (kv_store w) of (r, s') \<Rightarrow> (r, w\<lparr>kv_store := s'\<rparr>))"

definition on_env :: "('h, verr, 'a) act \<Rightarrow> ('s, 'h, 'a) kv_act" where
  "on_env m = (\<lambda>w. case m (kv_env w) of (r, h') \<Rightarrow> (r, w\<lparr>kv_env := h'\<rparr>))"

text \<open>A call whose \<open>Result\<close> the caller inspects.\<close>

definition attempt :: "('w, 'e, 'a) act \<Rightarrow> ('w, 'f, 'e + 'a) act" where
  "attempt m = (\<lambda>w. case m w of (r, w') \<Rightarrow> (Inr r, w'))"

definition read_key :: "'s store_api \<Rightarrow> string \<Rightarrow> ('s, 'h, string option) kv_act" where
  "read_key S k = on_store (st_read S k)"

definition write_key :: "'s store_api \<Rightarrow> string \<Rightarrow> string option \<Rightarrow> ('s, 'h, unit) kv_act" where
  "write_key S k v = on_store (st_write S k v)"

definition kv_new :: "'h host_binding option \<Rightarrow> 's \<Rightarrow> 'h \<Rightarrow> ('s, 'h) kv" where
  "kv_new binding s h = \<lparr>kv_binding = binding, kv_vault = None, kv_store = s, kv_env = h\<rparr>"

section \<open>Accessors\<close>

definition is_open :: "('s, 'h) kv \<Rightarrow> bool" where
  "is_open w = (kv_vault w \<noteq> None)"

definition the_vault :: "('s, 'h) kv \<Rightarrow> verr + unlocked" where
  "the_vault w = ok_or (verr_msg ''bad_response'' ''KeyVault is not open'') (kv_vault w)"

definition vault_id :: "('s, 'h) kv \<Rightarrow> verr + string" where
  "vault_id w = and_then (the_vault w) (\<lambda>v. Inr (c_vault_id (u_container v)))"

definition generation :: "('s, 'h) kv \<Rightarrow> verr + u64" where
  "generation w = and_then (the_vault w) (\<lambda>v. Inr (c_generation (u_container v)))"

definition msk_seed :: "'h ckvf \<Rightarrow> ('s, 'h) kv \<Rightarrow> verr + bytes" where
  "msk_seed K w = and_then (the_vault w) (\<lambda>v.
     map_err (verr_msg ''bad_response'') (ck_b64_decode K (m_private (p_msk (u_payload v)))))"

definition msk_public_key :: "'h ckvf \<Rightarrow> ('s, 'h) kv \<Rightarrow> verr + bytes" where
  "msk_public_key K w = and_then (the_vault w) (\<lambda>v.
     map_err (verr_msg ''bad_response'') (ck_b64_decode K (m_public (p_msk (u_payload v)))))"

definition kv_signer :: "'h ckvf \<Rightarrow> ('s, 'h) kv \<Rightarrow> verr + msk_signer" where
  "kv_signer K w = and_then (msk_seed K w) msk_signer_new"

definition kv_keys :: "('s, 'h) kv \<Rightarrow> verr + key_record list" where
  "kv_keys w = and_then (the_vault w) (\<lambda>v. Inr (p_keys (u_payload v)))"

definition kv_key :: "'h ckvf \<Rightarrow> ('s, 'h) kv \<Rightarrow> string \<Rightarrow> verr + key_record option" where
  "kv_key K w absolute_key_id = and_then (the_vault w) (\<lambda>v. Inr (ck_get_key K v absolute_key_id))"

definition key_meta :: "('s, 'h) kv \<Rightarrow> string \<Rightarrow> verr + json option" where
  "key_meta w absolute_key_id = and_then (the_vault w) (\<lambda>v.
     Inr (obj_get (extension_data (u_payload v) (key_meta_extension_id absolute_key_id))
       absolute_key_id))"

definition preferred_key :: "('s, 'h) kv \<Rightarrow> string \<Rightarrow> string \<Rightarrow> verr + string option" where
  "preferred_key w family purpose = and_then (the_vault w) (\<lambda>v.
     Inr (Option.bind (Option.bind (obj_get (p_preferred_keys (u_payload v)) family)
       (\<lambda>m. jget m purpose)) as_str))"

definition devices :: "('s, 'h) kv \<Rightarrow> verr + vault_device list" where
  "devices w = and_then (the_vault w) (\<lambda>v.
     let slots = map sl_id (c_slots (u_container v));
         data = extension_data (u_payload v) DEVICES_EXTENSION_ID
     in Inr (map (\<lambda>(k, j). vault_device_from_json k j)
          (filter (\<lambda>(k, j). k \<in> set slots \<and> is_object j) data)))"

definition has_slot :: "('s, 'h) kv \<Rightarrow> string \<Rightarrow> verr + bool" where
  "has_slot w method = and_then (the_vault w) (\<lambda>v.
     Inr (list_ex (\<lambda>s. sl_method s = method) (c_slots (u_container v))))"

text \<open>An accessor used with \<open>?\<close> in a method.\<close>

definition kv_get :: "(('s, 'h) kv \<Rightarrow> verr + 'a) \<Rightarrow> ('s, 'h, 'a) kv_act" where
  "kv_get f = (\<lambda>w. (f w, w))"

text \<open>The reference that \<open>vault_mut\<close> gives out, and an assignment through it.\<close>

definition vault_mut :: "unlocked \<Rightarrow> ('s, 'h, unit) kv_act" where
  "vault_mut v = abind (kv_get the_vault) (\<lambda>_. aupd (\<lambda>w. w\<lparr>kv_vault := Some v\<rparr>))"

definition has_local_vault :: "'s store_api \<Rightarrow> ('s, 'h, bool) kv_act" where
  "has_local_vault S = abind (read_key S CONTAINER) (\<lambda>c. aret (c \<noteq> None))"

section \<open>Opening and persisting\<close>

definition device_kek :: "'h ckvf \<Rightarrow> 's store_api \<Rightarrow> ('s, 'h, bytes) kv_act" where
  "device_kek K S =
     abind (read_key S DEVICE_KEK) (\<lambda>raw.
     abind (alift (ok_or (verr_msg ''device_removed'' ''no device key on this device'') raw)) (\<lambda>raw.
     abind (alift (map_err (verr_msg ''bad_response'') (ck_b64_decode K raw))) (\<lambda>b.
     if length b = 32 then aret b
     else afail (verr_msg ''bad_response'' ''device kek length''))))"

definition device_slot_id :: "'s store_api \<Rightarrow> ('s, 'h, string) kv_act" where
  "device_slot_id S =
     abind (read_key S DEVICE_SLOT_ID) (\<lambda>v.
     alift (ok_or (verr_msg ''device_removed'' ''no device slot on this device'') v))"

definition write_device :: "'h ckvf \<Rightarrow> 's store_api \<Rightarrow> bytes \<Rightarrow> string \<Rightarrow> ('s, 'h, unit) kv_act" where
  "write_device K S kek slot_id =
     abind (write_key S DEVICE_KEK (Some (ck_b64_encode K kek))) (\<lambda>_.
     abind (write_key S DEVICE_SLOT_ID (Some slot_id)) (\<lambda>_. aret ()))"

definition persist :: "'h ckvf \<Rightarrow> 's store_api \<Rightarrow> unlocked \<Rightarrow> ('s, 'h, unit) kv_act" where
  "persist K S v =
     abind (alift (map_err from_ckvf (ck_serialize K (u_container v)))) (\<lambda>j.
     abind (write_key S CONTAINER (Some j)) (\<lambda>_.
     aupd (\<lambda>w. w\<lparr>kv_vault := Some v\<rparr>)))"

definition open_with_device_slot ::
  "'h ckvf \<Rightarrow> 's store_api \<Rightarrow> json \<Rightarrow> ('s, 'h, unlocked) kv_act" where
  "open_with_device_slot K S c =
     abind (device_slot_id S) (\<lambda>slot_id.
     abind (device_kek K S) (\<lambda>kek.
     alift (map_err from_ckvf (ck_open_device K c slot_id kek))))"

definition open_record ::
  "'h ckvf \<Rightarrow> 's store_api \<Rightarrow> vault_record \<Rightarrow> string \<Rightarrow> ('s, 'h, unlocked) kv_act" where
  "open_record K S r identity_id =
     abind (attempt (open_with_device_slot K S (ck_to_json K (vr_container r)))) (\<lambda>opened.
     abind (case opened of
         Inr v \<Rightarrow> aret v
       | Inl e \<Rightarrow> if verr_code e = ''ERR_SLOT_ID''
           then afail (verr_msg ''device_removed''
             ''this device no longer has a slot in the stored vault'')
           else afail e) (\<lambda>v.
     abind (alift (verify_record_signature K r v identity_id)) (\<lambda>_.
     aret v)))"

definition kv_create ::
  "'h ckvf \<Rightarrow> 's store_api \<Rightarrow> string \<Rightarrow> vault_device \<Rightarrow> bytes option \<Rightarrow> string option
     \<Rightarrow> ('s, 'h, unit) kv_act" where
  "kv_create K S email device seed now =
     abind (on_env (effect (ck_random K 32))) (\<lambda>kek.
     abind (on_env (effect (ck_random K 16))) (\<lambda>slot_bytes.
     let slot_id = ck_b64_encode K slot_bytes in
     abind (on_env (effect (ck_rfc3339 K now))) (\<lambda>ts.
     abind (on_env (ckvf_act (ck_create K
         \<lparr>co_identity_type = ''email'', co_identity_value = email, co_password = None,
          co_now = ts, co_msk_seed = seed,
          co_extensions = [\<lparr>e_id = DEVICES_EXTENSION_ID, e_critical = False,
            e_data = jobj [(slot_id, device_json device ts)]\<rparr>],
          co_extra_slots = (\<lambda>vid vek.
            abind (ck_wrap_device_slot K vid vek kek slot_id ts) (\<lambda>slot. aret [slot]))\<rparr>))) (\<lambda>v.
     abind (write_device K S kek slot_id) (\<lambda>_.
     abind (write_key S SYNCED_HASH None) (\<lambda>_.
     persist K S v))))))"

definition kv_open :: "deps \<Rightarrow> 'h ckvf \<Rightarrow> 's store_api \<Rightarrow> ('s, 'h, bool) kv_act" where
  "kv_open D K S =
     abind (read_key S CONTAINER) (\<lambda>c.
     case c of
       None \<Rightarrow> aret False
     | Some text \<Rightarrow>
         abind (alift (map_err (verr_msg ''bad_response'') (json_parse D text))) (\<lambda>raw.
         abind (open_with_device_slot K S raw) (\<lambda>v.
         abind (aupd (\<lambda>w. w\<lparr>kv_vault := Some v\<rparr>)) (\<lambda>_.
         aret True))))"

definition kv_adopt ::
  "'h ckvf \<Rightarrow> 's store_api \<Rightarrow> unlocked \<Rightarrow> vault_device \<Rightarrow> bool \<Rightarrow> string option
     \<Rightarrow> ('s, 'h, unit) kv_act" where
  "kv_adopt K S opened device stored_on_host now =
     abind (on_env (effect (ck_random K 32))) (\<lambda>kek.
     abind (on_env (effect (ck_random K 16))) (\<lambda>slot_bytes.
     let slot_id = ck_b64_encode K slot_bytes in
     abind (on_env (effect (ck_rfc3339 K now))) (\<lambda>ts.
     abind (on_env (ckvf_act (ck_wrap_device_slot K (c_vault_id (u_container opened)) (u_vek opened)
         kek slot_id ts))) (\<lambda>slot.
     let with_device = \<lparr>u_container = u_container opened,
           u_payload = with_extension_entry (u_payload opened) DEVICES_EXTENSION_ID slot_id
             (device_json device ts),
           u_vek = u_vek opened\<rparr> in
     abind (on_env (ckvf_act (ck_commit_slots K with_device
         (c_slots (u_container opened) @ [slot])))) (\<lambda>v.
     abind (write_device K S kek slot_id) (\<lambda>_.
     abind (write_key S SYNCED_HASH
         (if stored_on_host then Some (c_generation_hash (u_container opened)) else None)) (\<lambda>_.
     persist K S v)))))))"

fun write_none :: "'s store_api \<Rightarrow> string list \<Rightarrow> ('s, 'h, unit) kv_act" where
  "write_none S [] = aret ()"
| "write_none S (k # ks) = abind (write_key S k None) (\<lambda>_. write_none S ks)"

definition kv_clear :: "'s store_api \<Rightarrow> ('s, 'h, unit) kv_act" where
  "kv_clear S =
     abind (write_none S ALL_KEYS) (\<lambda>_. aupd (\<lambda>w. w\<lparr>kv_vault := None\<rparr>))"

section \<open>Pulling and pushing\<close>

definition VAULT_GET_CURRENT :: string where
  "VAULT_GET_CURRENT = ''vault_get_current''"

definition AUTHORIZE_DEVICE :: string where
  "AUTHORIZE_DEVICE = ''authorize_device''"

definition read_host :: "'h ckvf \<Rightarrow> 'h host_binding \<Rightarrow> ('s, 'h, vault_read) kv_act" where
  "read_host K b =
     abind (kv_get vault_id) (\<lambda>vid.
     abind (on_env (bd_authorize b vid VAULT_GET_CURRENT)) (\<lambda>auth.
     on_env (current_record K (bd_host b) vid auth)))"

definition kv_pull :: "'h ckvf \<Rightarrow> 's store_api \<Rightarrow> ('s, 'h, bool) kv_act" where
  "kv_pull K S =
     abind (agets kv_binding) (\<lambda>binding.
     case binding of
       None \<Rightarrow> aret False
     | Some b \<Rightarrow>
         abind (read_host K b) (\<lambda>rd.
         case rd_record rd of
           None \<Rightarrow> aret False
         | Some r \<Rightarrow>
             abind (kv_get the_vault) (\<lambda>local.
             if vr_generation_hash r = c_generation_hash (u_container local) then
               abind (write_key S SYNCED_HASH (Some (vr_generation_hash r))) (\<lambda>_. aret False)
             else
               abind (open_record K S r (bd_identity_id b)) (\<lambda>head.
               abind (read_key S SYNCED_HASH) (\<lambda>synced.
               abind (if synced = Some (c_generation_hash (u_container local)) then
                   abind (write_key S SYNCED_HASH (Some (vr_generation_hash r))) (\<lambda>_.
                   persist K S head)
                 else
                   abind (on_env (merge_normalized K head local)) (\<lambda>(merged, _).
                   persist K S merged)) (\<lambda>_.
               aret True))))))"

text \<open>
  One round of \<open>push\<close>: \<open>True\<close> when the loop returns, \<open>False\<close> when it goes on with a vault that
  was rechained or merged onto the head of the host.
\<close>

definition head_generation_of :: "verr \<Rightarrow> u64" where
  "head_generation_of e =
     (case Option.bind (Option.bind (verr_details e) (\<lambda>d. obj_get d ''head_generation'')) as_u64 of
        Some n \<Rightarrow> n | None \<Rightarrow> - 1)"

definition push_rechain ::
  "'h ckvf \<Rightarrow> 's store_api \<Rightarrow> unlocked \<Rightarrow> u64 \<Rightarrow> string option \<Rightarrow> ('s, 'h, bool) kv_act" where
  "push_rechain K S local gen prev =
     abind (on_env (ckvf_act (ck_rechain K local gen prev))) (\<lambda>v.
     abind (persist K S v) (\<lambda>_. aret False))"

definition push_conflict ::
  "'h ckvf \<Rightarrow> 's store_api \<Rightarrow> 'h host_binding \<Rightarrow> unlocked \<Rightarrow> verr \<Rightarrow> ('s, 'h, bool) kv_act" where
  "push_conflict K S b local e =
     (if head_generation_of e = 0 then push_rechain K S local 1 None
      else
        abind (read_host K b) (\<lambda>rd.
        case rd_record rd of
          None \<Rightarrow> push_rechain K S local 1 None
        | Some r \<Rightarrow>
            abind (read_key S SYNCED_HASH) (\<lambda>synced.
            if Some (vr_generation_hash r) = synced then
              push_rechain K S local (vr_generation r + 1) (Some (vr_generation_hash r))
            else
              abind (open_record K S r (bd_identity_id b)) (\<lambda>head.
              abind (on_env (merge_normalized K head local)) (\<lambda>(merged, _).
              abind (persist K S merged) (\<lambda>_. aret False))))))"

definition push_round :: "'h ckvf \<Rightarrow> 's store_api \<Rightarrow> 'h host_binding \<Rightarrow> ('s, 'h, bool) kv_act" where
  "push_round K S b =
     abind (kv_get the_vault) (\<lambda>local.
     let hash = c_generation_hash (u_container local) in
     abind (read_key S SYNCED_HASH) (\<lambda>synced.
     if synced = Some hash then aret True
     else
       abind (kv_get (kv_signer K)) (\<lambda>signer.
       abind (attempt (on_env (ha_put_record (bd_host b) (bd_identity_id b) (u_container local)
           signer (bd_license_device_id b)))) (\<lambda>put.
       case put of
         Inr _ \<Rightarrow> abind (write_key S SYNCED_HASH (Some hash)) (\<lambda>_. aret True)
       | Inl e \<Rightarrow>
           if verr_code e = ''generation_conflict'' then push_conflict K S b local e
           else afail e))))"

fun push_rounds ::
  "'h ckvf \<Rightarrow> 's store_api \<Rightarrow> 'h host_binding \<Rightarrow> nat \<Rightarrow> ('s, 'h, unit) kv_act" where
  "push_rounds K S b 0 =
     afail (verr_msg ''generation_conflict'' ''the host head kept moving; try again'')"
| "push_rounds K S b (Suc n) =
     abind (push_round K S b) (\<lambda>done. if done then aret () else push_rounds K S b n)"

definition kv_push :: "'h ckvf \<Rightarrow> 's store_api \<Rightarrow> ('s, 'h, unit) kv_act" where
  "kv_push K S =
     abind (agets kv_binding) (\<lambda>binding.
     case binding of None \<Rightarrow> aret () | Some b \<Rightarrow> push_rounds K S b 4)"

definition push_quietly :: "'h ckvf \<Rightarrow> 's store_api \<Rightarrow> ('s, 'h, unit) kv_act" where
  "push_quietly K S =
     abind (agets kv_binding) (\<lambda>binding.
     if Option.is_none binding then aret ()
     else
       abind (attempt (kv_push K S)) (\<lambda>r.
       case r of
         Inl e \<Rightarrow> if verr_code e = ''network_error'' then aret () else afail e
       | Inr u \<Rightarrow> aret u))"

definition kv_sync :: "'h ckvf \<Rightarrow> 's store_api \<Rightarrow> ('s, 'h, unit) kv_act" where
  "kv_sync K S = abind (kv_pull K S) (\<lambda>_. abind (kv_push K S) (\<lambda>_. aret ()))"

section \<open>Changes\<close>

text \<open>
  \<open>commit\<close> takes the vault out of the \<open>KeyVault\<close> before it applies the change. A change
  acts on the environment (clock, random bytes); the value it captures for the caller
  (\<open>import_key\<close> returns an id) is the second component.
\<close>

definition commit ::
  "'h ckvf \<Rightarrow> 's store_api \<Rightarrow> (unlocked \<Rightarrow> ('h, verr, unlocked \<times> 'x) act) \<Rightarrow> bool
     \<Rightarrow> ('s, 'h, 'x) kv_act" where
  "commit K S change push =
     abind (kv_get the_vault) (\<lambda>current.
     abind (aupd (\<lambda>w. w\<lparr>kv_vault := None\<rparr>)) (\<lambda>_.
     abind (on_env (change current)) (\<lambda>(nxt, x).
     abind (persist K S nxt) (\<lambda>_.
     abind (if push then abind (attempt (push_quietly K S)) (\<lambda>_. aret ()) else aret ()) (\<lambda>_.
     aret x)))))"

definition plain_change ::
  "(unlocked \<Rightarrow> ('h, verr, unlocked) act) \<Rightarrow> unlocked \<Rightarrow> ('h, verr, unlocked \<times> unit) act" where
  "plain_change f v = abind (f v) (\<lambda>v'. aret (v', ()))"

definition import_change ::
  "'h ckvf \<Rightarrow> string \<Rightarrow> string \<Rightarrow> string \<Rightarrow> string list \<Rightarrow> bytes \<Rightarrow> bytes \<Rightarrow> json option
     \<Rightarrow> string option \<Rightarrow> string option \<Rightarrow> unlocked \<Rightarrow> ('h, verr, unlocked \<times> string) act" where
  "import_change K family encoding alg purpose private_key public_key meta created_at status v =
     abind (attempt (ck_import_key K v family encoding alg purpose private_key public_key created_at))
       (\<lambda>imported.
     abind (case imported of
         Inr nxt \<Rightarrow> aret (nxt, k_id (last (p_keys (u_payload nxt))))
       | Inl e \<Rightarrow>
           if ckvf_code e = ''ERR_KEY_ID'' then
             abind (alift (map_err from_ckvf (if encoding = ''openpgp-tsk''
                 then ck_canonical_openpgp K public_key private_key else Inr public_key)))
               (\<lambda>canonical.
             abind (alift (map_err from_ckvf (ck_key_ids K canonical))) (\<lambda>(absolute, _).
             aret (v, absolute)))
           else afail (from_ckvf e)) (\<lambda>(v, i).
     abind (
         if status = Some ''retired'' \<and> map_option k_status (ck_get_key K v i) = Some ''active''
         then ckvf_act (ck_retire K v i)
         else if status = Some ''revoked''
              \<and> map_option k_status (ck_get_key K v i) \<noteq> Some ''revoked''
         then ckvf_act (ck_revoke K v i)
         else aret v) (\<lambda>v.
     abind (case meta of Some m \<Rightarrow> set_meta K v i m | None \<Rightarrow> aret v) (\<lambda>v.
     aret (v, i)))))"

definition import_key ::
  "'h ckvf \<Rightarrow> 's store_api \<Rightarrow> string \<Rightarrow> string \<Rightarrow> string \<Rightarrow> string list \<Rightarrow> bytes \<Rightarrow> bytes
     \<Rightarrow> json option \<Rightarrow> string option \<Rightarrow> string option \<Rightarrow> bool \<Rightarrow> ('s, 'h, string) kv_act" where
  "import_key K S family encoding alg purpose private_key public_key meta created_at status push =
     commit K S (import_change K family encoding alg purpose private_key public_key meta created_at
       status) push"

definition set_key_meta ::
  "'h ckvf \<Rightarrow> 's store_api \<Rightarrow> string \<Rightarrow> json \<Rightarrow> ('s, 'h, unit) kv_act" where
  "set_key_meta K S i meta = commit K S (plain_change (\<lambda>v. set_meta K v i meta)) True"

definition retire :: "'h ckvf \<Rightarrow> 's store_api \<Rightarrow> string \<Rightarrow> ('s, 'h, unit) kv_act" where
  "retire K S i = commit K S (plain_change (\<lambda>v. ckvf_act (ck_retire K v i))) True"

definition revoke :: "'h ckvf \<Rightarrow> 's store_api \<Rightarrow> string \<Rightarrow> ('s, 'h, unit) kv_act" where
  "revoke K S i = commit K S (plain_change (\<lambda>v. ckvf_act (ck_revoke K v i))) True"

definition delete_private ::
  "'h ckvf \<Rightarrow> 's store_api \<Rightarrow> string \<Rightarrow> string \<Rightarrow> ('s, 'h, unit) kv_act" where
  "delete_private K S i reason =
     commit K S (plain_change (\<lambda>v. ckvf_act (ck_delete_private K v i reason))) True"

definition set_preferred ::
  "'h ckvf \<Rightarrow> 's store_api \<Rightarrow> string \<Rightarrow> string \<Rightarrow> string option \<Rightarrow> ('s, 'h, unit) kv_act" where
  "set_preferred K S family purpose i =
     commit K S (plain_change (\<lambda>v. ckvf_act (ck_set_preferred K v family purpose i))) True"

definition remove_device_change ::
  "'h ckvf \<Rightarrow> string \<Rightarrow> unlocked \<Rightarrow> ('h, verr, unlocked) act" where
  "remove_device_change K slot_id v =
     abind (ckvf_act (ck_remove_slot K v slot_id)) (\<lambda>nxt.
     let data = obj_remove slot_id (extension_data (u_payload nxt) DEVICES_EXTENSION_ID) in
     ckvf_act (ck_update_extensions K nxt
       (replace_extension (p_extensions (u_payload nxt)) DEVICES_EXTENSION_ID data)))"

definition remove_device :: "'h ckvf \<Rightarrow> 's store_api \<Rightarrow> string \<Rightarrow> ('s, 'h, unit) kv_act" where
  "remove_device K S slot_id = commit K S (plain_change (remove_device_change K slot_id)) True"

definition pepper_slot_change ::
  "'h ckvf \<Rightarrow> string \<Rightarrow> string \<Rightarrow> 'h pepper_oprf \<Rightarrow> pepper_key \<Rightarrow> unlocked
     \<Rightarrow> ('h, verr, unlocked) act" where
  "pepper_slot_change K method secret pepper key v =
     abind (ckvf_act (ck_wrap_pepper_slot K (c_vault_id (u_container v)) (u_vek v) method secret
         pepper key)) (\<lambda>slot.
     ckvf_act (ck_commit_slots K v
       (filter (\<lambda>s. sl_method s \<noteq> method) (c_slots (u_container v)) @ [slot])))"

definition replace_pepper_slot ::
  "'h ckvf \<Rightarrow> 's store_api \<Rightarrow> string \<Rightarrow> string \<Rightarrow> 'h pepper_oprf \<Rightarrow> pepper_key
     \<Rightarrow> ('s, 'h, unit) kv_act" where
  "replace_pepper_slot K S method secret pepper key =
     commit K S (plain_change (pepper_slot_change K method secret pepper key)) True"

definition add_recovery_code ::
  "'h ckvf \<Rightarrow> 's store_api \<Rightarrow> 'h pepper_oprf \<Rightarrow> pepper_key \<Rightarrow> ('s, 'h, string) kv_act" where
  "add_recovery_code K S pepper key =
     abind (on_env (effect (ck_generate_recovery_code K))) (\<lambda>code.
     abind (replace_pepper_slot K S (ck_recovery_method K) code pepper key) (\<lambda>_. aret code))"

definition set_backup_password ::
  "'h ckvf \<Rightarrow> 's store_api \<Rightarrow> string \<Rightarrow> 'h pepper_oprf \<Rightarrow> pepper_key \<Rightarrow> ('s, 'h, unit) kv_act" where
  "set_backup_password K S password pepper key =
     replace_pepper_slot K S (ck_password_method K) password pepper key"

section \<open>Mutations on the host\<close>

definition host_mutation ::
  "deps \<Rightarrow> 'h ckvf \<Rightarrow> string \<Rightarrow> json \<Rightarrow> ('s, 'h, json) kv_act" where
  "host_mutation D K operation payload =
     abind (agets kv_binding) (\<lambda>binding.
     abind (alift (ok_or (verr_msg ''not_bound'' ''no vault host binding'') binding)) (\<lambda>b.
     abind (kv_get (kv_signer K)) (\<lambda>signer.
     abind (on_env (envelope D K signer (bd_identity_id b) operation payload None)) (\<lambda>env.
     on_env (ha_mutate (bd_host b) env)))))"

definition authorize_device ::
  "deps \<Rightarrow> 'h ckvf \<Rightarrow> string \<Rightarrow> string \<Rightarrow> bytes \<Rightarrow> ('s, 'h, json) kv_act" where
  "authorize_device D K device_id device_name device_public_key =
     host_mutation D K AUTHORIZE_DEVICE (jobj [
       (''version'', JInt 1), (''device_id'', JStr device_id), (''device_name'', JStr device_name),
       (''device_public_key'', JStr (ck_b64_encode K device_public_key))])"

section \<open>Recovery on a device without a slot\<close>

definition read_for_recovery ::
  "'h ckvf \<Rightarrow> 'h host_api \<Rightarrow> string \<Rightarrow> vault_authorization
     \<Rightarrow> ('h, verr, vault_record \<times> string) act" where
  "read_for_recovery K H vid auth =
     abind (current_record K H vid auth) (\<lambda>rd.
     abind (alift (ok_or (verr_msg ''vault_not_synced'' ''the host stores no vault'') (rd_record rd)))
       (\<lambda>r.
     abind (alift (ok_or (verr_msg ''bad_response'' ''no oprf_token with the read'')
         (rd_oprf_token rd))) (\<lambda>token.
     aret (r, token))))"

definition open_host_vault_with_secret ::
  "'h ckvf \<Rightarrow> 'h host_api \<Rightarrow> string \<Rightarrow> string \<Rightarrow> vault_authorization \<Rightarrow> string \<Rightarrow> string option
     \<Rightarrow> 'h pepper_oprf \<Rightarrow> ('h, verr, unlocked) act" where
  "open_host_vault_with_secret K H vid identity_id auth secret method pepper =
     (let method = (case method of Some m \<Rightarrow> m | None \<Rightarrow> ck_recovery_method K) in
      abind (read_for_recovery K H vid auth) (\<lambda>(r, token).
      abind (ckvf_act (ck_open_pepper K (ck_to_json K (vr_container r)) secret pepper method None))
        (\<lambda>opened.
      abind (alift (verify_record_signature K r opened identity_id)) (\<lambda>_. aret opened))))"

text \<open>
  The loop over the slots of the method. \<open>last_err\<close> is the error kept while later slots are
  tried; the last slot returns its own.
\<close>

fun try_slots ::
  "deps \<Rightarrow> 'h ckvf \<Rightarrow> ('s :: field, 'p :: ab_group_add, 'h) curve \<Rightarrow> 'h host_pepper \<Rightarrow> vault_record
     \<Rightarrow> string \<Rightarrow> string \<Rightarrow> string \<Rightarrow> bytes \<Rightarrow> ckvf_error option \<Rightarrow> unlock_slot list
     \<Rightarrow> ('h, verr, unlocked) act" where
  "try_slots D K C p r identity_id secret method secret_bytes last_err [] =
     afail (case last_err of Some e \<Rightarrow> from_ckvf e | None \<Rightarrow> verr_code_str ''ERR_WRAP_DECRYPT'')"
| "try_slots D K C p r identity_id secret method secret_bytes last_err (slot # rest) =
     abind (alift (ok_or (verr_msg ''ERR_UNLOCK'' ''missing oprf params'') (sl_oprf slot))) (\<lambda>oprf.
     abind (alift (map_err (verr_msg ''bad_response'') (ck_b64_decode K (so_public_key oprf)))) (\<lambda>pk.
     abind (attempt (host_pepper_finalize D C p (c_vault_id (vr_container r)) (sl_id slot)
         (so_kid oprf) pk secret_bytes)) (\<lambda>finalized.
     case finalized of
       Inr rwd \<Rightarrow>
         let pre = \<lparr>pp_vault_id = c_vault_id (vr_container r), pp_slot_id = sl_id slot,
               pp_kid = so_kid oprf, pp_secret = secret_bytes, pp_rwd = rwd\<rparr> in
         abind (attempt (ck_open_pepper K (ck_to_json K (vr_container r)) secret
             (precomputed_finalize pre) method (Some (sl_id slot)))) (\<lambda>res.
         case res of
           Inr opened \<Rightarrow>
             abind (alift (verify_record_signature K r opened identity_id)) (\<lambda>_. aret opened)
         | Inl e \<Rightarrow>
             if ckvf_code e = ''ERR_WRAP_DECRYPT'' \<and> rest \<noteq> []
             then try_slots D K C p r identity_id secret method secret_bytes (Some e) rest
             else afail (from_ckvf e))
     | Inl e \<Rightarrow>
         if rest \<noteq> []
         then try_slots D K C p r identity_id secret method secret_bytes
           (Some (WithMessage ''ERR_UNLOCK'' (verr_display e))) rest
         else afail e)))"

definition open_host_vault_with_host_pepper ::
  "deps \<Rightarrow> 'h ckvf \<Rightarrow> ('s :: field, 'p :: ab_group_add, 'h) curve \<Rightarrow> 'h host_api \<Rightarrow> string \<Rightarrow> string
     \<Rightarrow> vault_authorization \<Rightarrow> string \<Rightarrow> string option \<Rightarrow> ('h, verr, unlocked) act" where
  "open_host_vault_with_host_pepper D K C H vid identity_id auth secret method =
     (let method = (case method of Some m \<Rightarrow> m | None \<Rightarrow> ck_recovery_method K) in
      abind (read_for_recovery K H vid auth) (\<lambda>(r, token).
      let pepper = \<lparr>hp_host = H, hp_authorization = oprf_token token\<rparr>;
          slots = filter (\<lambda>s. sl_method s = method) (c_slots (vr_container r)) in
      if slots = [] then afail (verr_msg ''ERR_UNLOCK'' (''no '' @ method @ '' slot''))
      else
        abind (alift (map_err from_ckvf (ck_pepper_secret K method secret))) (\<lambda>secret_bytes.
        try_slots D K C pepper r identity_id secret method secret_bytes None slots)))"

definition open_export :: "deps \<Rightarrow> 'h ckvf \<Rightarrow> string \<Rightarrow> string \<Rightarrow> verr + unlocked" where
  "open_export D K text password =
     and_then (map_err (verr_msg ''bad_response'') (json_parse D text)) (\<lambda>raw.
       map_err from_ckvf (ck_open_password K raw password))"

section \<open>Laws of the extensions\<close>

lemma extension_data_of_filter:
  "extension_data_of (filter (\<lambda>e. e_id e = i) es) i = extension_data_of es i"
  by (induction es) (auto split: option.split)

lemma extension_data_of_absent: "i \<notin> e_id ` set es \<Longrightarrow> extension_data_of es i = []"
  by (induction es) auto

lemma extension_data_of_sort: "extension_data_of (sort_key e_id es) i = extension_data_of es i"
  by (metis extension_data_of_filter sort_key_stable)

lemma extension_data_of_append_absent:
  "i \<notin> e_id ` set es' \<Longrightarrow> extension_data_of (es @ es') i = extension_data_of es i"
  by (induction es) (auto simp: extension_data_of_absent split: option.split)

lemma extension_data_of_append_fresh:
  "i \<notin> e_id ` set es \<Longrightarrow> extension_data_of (es @ es') i = extension_data_of es' i"
  by (induction es) auto

lemma extension_data_of_replace:
  "extension_data_of (replace_extension es i data) i' =
     (if i' = i then data else extension_data_of es i')"
proof (cases "i' = i")
  case True
  have "i \<notin> e_id ` set (filter (\<lambda>e. e_id e \<noteq> i) es)" by auto
  then show ?thesis
    using True by (auto simp: replace_extension_def extension_data_of_sort extension_data_of_append_fresh)
next
  case False
  have "extension_data_of (filter (\<lambda>e. e_id e \<noteq> i) es) i' = extension_data_of es i'"
    using False by (induction es) (auto split: option.split)
  then show ?thesis
    using False
    by (simp add: replace_extension_def extension_data_of_sort extension_data_of_append_absent)
qed

lemma replace_extension_shape:
  "sorted (map e_id (replace_extension es i data))"
  "length (filter (\<lambda>e. e_id e = i) (replace_extension es i data)) = (if data = [] then 0 else 1)"
  "i' \<noteq> i \<Longrightarrow> filter (\<lambda>e. e_id e = i') (replace_extension es i data)
     = filter (\<lambda>e. e_id e = i') es"
proof -
  show "sorted (map e_id (replace_extension es i data))"
    by (simp add: replace_extension_def)
  show "length (filter (\<lambda>e. e_id e = i) (replace_extension es i data)) = (if data = [] then 0 else 1)"
    by (simp add: replace_extension_def sort_key_stable filter_empty_conv)
  show "filter (\<lambda>e. e_id e = i') (replace_extension es i data) = filter (\<lambda>e. e_id e = i') es"
    if "i' \<noteq> i"
    using that by (auto simp: replace_extension_def sort_key_stable intro: filter_cong)
qed

lemma extension_data_with:
  "extension_data (with_extensions p es) i = extension_data_of es i"
  by (simp add: extension_data_def with_extensions_def)

lemma extension_data_put:
  "extension_data (put_extension i data p) i' = (if i' = i then data else extension_data p i')"
  by (simp add: put_extension_def extension_data_def with_extensions_def extension_data_of_replace)

lemma extension_data_entry:
  "extension_data (with_extension_entry p i k val) i' =
     (if i' = i then obj_insert k val (extension_data p i) else extension_data p i')"
  by (simp add: with_extension_entry_def Let_def extension_data_def with_extensions_def
      extension_data_of_replace)

section \<open>Merging the app's extensions\<close>

lemma extension_data_fold_put:
  "extension_data (fold (\<lambda>i. put_extension i (M i)) ids p) i =
     (if i \<in> set ids then M i else extension_data p i)"
  by (induction ids arbitrary: p) (auto simp: extension_data_put)

lemma normalize_payloads_folds:
  "normalize_payloads head lc =
     (fold (\<lambda>i. put_extension i (merged_extension head lc i)) (scomm_extension_ids head lc) head,
      fold (\<lambda>i. put_extension i (merged_extension head lc i)) (scomm_extension_ids head lc) lc)"
proof -
  have "fold (\<lambda>i (hp, lp). let merged = M i in (put_extension i merged hp, put_extension i merged lp))
      ids (a, b)
    = (fold (\<lambda>i. put_extension i (M i)) ids a, fold (\<lambda>i. put_extension i (M i)) ids b)"
    for ids a b and M :: "string \<Rightarrow> jmap"
    by (induction ids arbitrary: a b) (simp_all add: Let_def)
  then show ?thesis by (simp add: normalize_payloads_def)
qed

lemma map_of_rev_distinct: "distinct (map fst m) \<Longrightarrow> map_of (rev m) = map_of m"
proof (induction m)
  case Nil
  then show ?case by simp
next
  case (Cons p m)
  then have "map_of (rev m) (fst p) = None" by (simp add: map_of_eq_None_iff)
  with Cons show ?case by (cases p) (auto simp: map_add_def fun_eq_iff split: option.split)
qed

lemma merged_extension_get:
  assumes "ordered_map (extension_data lc i)"
  shows "obj_get (merged_extension head lc i) k =
    (case obj_get (extension_data lc i) k of Some v \<Rightarrow> Some v
     | None \<Rightarrow> obj_get (extension_data head i) k)"
proof -
  have "distinct (map fst (extension_data lc i))"
    by (rule ordered_map_distinct [OF assms])
  then have "map_of (rev (extension_data lc i)) k = map_of (extension_data lc i) k"
    by (simp add: map_of_rev_distinct)
  then show ?thesis
    by (simp add: merged_extension_def obj_get_fold_insert) (simp add: obj_get_def)
qed

lemma extension_data_outside:
  assumes "starts_with ''priv:scomm.'' i" "i \<notin> set (scomm_extension_ids head lc)"
  shows "extension_data head i = []" "extension_data lc i = []"
  using assms
  by (auto simp: scomm_extension_ids_def extension_data_def intro!: extension_data_of_absent)

text \<open>
  C13. Before a merge both sides hold the same app metadata: under every id of the app
  (\<open>priv:scomm.\<close>) the payloads handed to \<open>merge_onto\<close> have equal data, in which an entry of
  the local vault wins over the entry of the host's head and no entry of either side is lost;
  every other extension is left as it was.
\<close>

theorem merge_normalized_local_wins:
  assumes "normalize_payloads head lc = (head', lc')" and "ordered_map (extension_data lc i)"
  shows "(starts_with ''priv:scomm.'' i \<longrightarrow>
       extension_data head' i = extension_data lc' i
       \<and> (\<forall>k. obj_get (extension_data head' i) k =
            (case obj_get (extension_data lc i) k of Some v \<Rightarrow> Some v
             | None \<Rightarrow> obj_get (extension_data head i) k)))
    \<and> (\<not> starts_with ''priv:scomm.'' i \<longrightarrow>
       extension_data head' i = extension_data head i \<and> extension_data lc' i = extension_data lc i)"
proof -
  have head': "extension_data head' i = (if i \<in> set (scomm_extension_ids head lc)
      then merged_extension head lc i else extension_data head i)"
    and lc': "extension_data lc' i = (if i \<in> set (scomm_extension_ids head lc)
      then merged_extension head lc i else extension_data lc i)"
    using assms(1) by (auto simp: normalize_payloads_folds extension_data_fold_put)
  have "\<not> starts_with ''priv:scomm.'' i \<Longrightarrow> i \<notin> set (scomm_extension_ids head lc)"
    by (simp add: scomm_extension_ids_def)
  then show ?thesis
    using head' lc' merged_extension_get [OF assms(2)] extension_data_outside [of i head lc] by auto
qed

definition sample_ext :: "string \<Rightarrow> jmap \<Rightarrow> payload" where
  "sample_ext i m = sample_payload\<lparr>p_extensions := [\<lparr>e_id = i, e_critical = False, e_data = JObj m\<rparr>]\<rparr>"

theorem merge_normalized_local_wins_witness:
  "obj_get (extension_data (fst (normalize_payloads
     (sample_ext DEVICES_EXTENSION_ID [(''a'', JInt 1), (''b'', JInt 1)])
     (sample_ext DEVICES_EXTENSION_ID [(''a'', JInt 2)]))) DEVICES_EXTENSION_ID) ''a'' = Some (JInt 2)"
proof -
  let ?head = "sample_ext DEVICES_EXTENSION_ID [(''a'', JInt 1), (''b'', JInt 1)]"
  let ?local = "sample_ext DEVICES_EXTENSION_ID [(''a'', JInt 2)]"
  have ord: "ordered_map (extension_data ?local DEVICES_EXTENSION_ID)"
    by (simp add: sample_ext_def extension_data_def ordered_map_def)
  have pre: "starts_with ''priv:scomm.'' DEVICES_EXTENSION_ID"
    by (simp add: DEVICES_EXTENSION_ID_def starts_with_def)
  obtain head' local' where n: "normalize_payloads ?head ?local = (head', local')"
    by fastforce
  have "obj_get (extension_data ?local DEVICES_EXTENSION_ID) ''a'' = Some (JInt 2)"
    by (simp add: sample_ext_def extension_data_def obj_get_def)
  moreover have "obj_get (extension_data head' DEVICES_EXTENSION_ID) ''a'' =
      (case obj_get (extension_data ?local DEVICES_EXTENSION_ID) ''a'' of Some v \<Rightarrow> Some v
       | None \<Rightarrow> obj_get (extension_data ?head DEVICES_EXTENSION_ID) ''a'')"
    using merge_normalized_local_wins [OF n ord] pre by blast
  ultimately show ?thesis by (simp add: n)
qed

section \<open>The pieces of a run\<close>

lemma on_store_Inr_iff:
  "on_store m w = (Inr a, w') \<longleftrightarrow> (\<exists>s'. m (kv_store w) = (Inr a, s') \<and> w' = w\<lparr>kv_store := s'\<rparr>)"
  by (auto simp: on_store_def split: prod.splits)

lemma on_env_Inr_iff:
  "on_env m w = (Inr a, w') \<longleftrightarrow> (\<exists>h'. m (kv_env w) = (Inr a, h') \<and> w' = w\<lparr>kv_env := h'\<rparr>)"
  by (auto simp: on_env_def split: prod.splits)

lemma kv_get_Inr_iff: "kv_get f w = (Inr a, w') \<longleftrightarrow> f w = Inr a \<and> w' = w"
  by (auto simp: kv_get_def)

lemma attempt_Inr_iff: "attempt m w = (Inr r, w') \<longleftrightarrow> m w = (r, w')"
  by (auto simp: attempt_def split: prod.splits)

lemma attempt_not_Inl [simp]: "attempt m w \<noteq> (Inl e, w')"
  by (auto simp: attempt_def split: prod.splits)

lemma the_vault_Inr_iff [simp]: "the_vault w = Inr v \<longleftrightarrow> kv_vault w = Some v"
  by (simp add: the_vault_def)

lemmas run_iffs = abind_Inr_iff on_store_Inr_iff on_env_Inr_iff kv_get_Inr_iff attempt_Inr_iff

lemma persist_Inr_iff:
  "persist K S v w = (Inr u, w') \<longleftrightarrow>
     (\<exists>j s'. ck_serialize K (u_container v) = Inr j \<and> st_write S CONTAINER (Some j) (kv_store w) = (Inr (), s')
        \<and> w' = w\<lparr>kv_store := s', kv_vault := Some v\<rparr>)"
  by (auto simp: persist_def run_iffs write_key_def)

text \<open>What a successful \<open>commit\<close> did before its push.\<close>

lemma commit_InrE:
  assumes "commit K S change push w = (Inr x, w')"
  obtains v nxt h' w1 where "kv_vault w = Some v" "change v (kv_env w) = (Inr (nxt, x), h')"
    "persist K S nxt (w\<lparr>kv_vault := None, kv_env := h'\<rparr>) = (Inr (), w1)"
    "(if push then w' = snd (push_quietly K S w1) else w' = w1)"
  using assms
  by (auto simp: commit_def run_iffs split: if_splits)

text \<open>
  C14. A change that fails leaves the \<open>KeyVault\<close> closed: \<open>commit\<close> takes the vault out of
  memory before it applies the change, and on an error of the change, or of writing the
  container, nothing puts it back, although the store still holds the unchanged vault.
\<close>

theorem failed_commit_closes:
  assumes "commit K S change push w = (Inl e, w')" and "kv_vault w = Some v"
  shows "kv_vault w' = None
    \<and> ((\<exists>c h'. change v (kv_env w) = (Inl c, h')) \<longrightarrow> kv_store w' = kv_store w)"
proof -
  have quiet: "abind (attempt (push_quietly K S)) (\<lambda>_. aret ()) w2 \<noteq> (Inl e, w3)" for w2 w3
    by (auto elim: abind_InlE)
  show ?thesis
    using assms quiet
    by (auto simp: commit_def kv_get_def the_vault_def persist_def on_env_def write_key_def on_store_def
        elim!: abind_InlE split: prod.splits if_splits)
qed

theorem failed_commit_closes_witness:
  "kv_vault (snd (retire sample_ckvf memory_store ''unknown''
     \<lparr>kv_binding = None, kv_vault = Some sample_vault, kv_store = memory_new, kv_env = 0\<rparr>)) = None"
proof -
  let ?w = "\<lparr>kv_binding = None, kv_vault = Some sample_vault, kv_store = memory_new,
    kv_env = 0 :: nat\<rparr>"
  have "fst (retire sample_ckvf memory_store ''unknown'' ?w) = Inl (verr_code_str ''ERR_KEY_ID'')"
    by (simp add: retire_def commit_def kv_get_def the_vault_def abind_apply on_env_def
        plain_change_def ckvf_act_def sample_ckvf_def sample_vault_def sample_payload_def
        verr_code_str_def)
  then have "retire sample_ckvf memory_store ''unknown'' ?w
      = (Inl (verr_code_str ''ERR_KEY_ID''), snd (retire sample_ckvf memory_store ''unknown'' ?w))"
    by (metis prod.collapse)
  from failed_commit_closes [OF this [unfolded retire_def]] show ?thesis by (simp add: retire_def)
qed

section \<open>Memory and disk\<close>

text \<open>
  The vault in memory is the stored one: the store holds its serialization, or the text it was
  opened from with the device slot.
\<close>

definition backed ::
  "deps \<Rightarrow> 'h ckvf \<Rightarrow> ('s \<Rightarrow> string \<Rightarrow> string option) \<Rightarrow> ('s, 'h) kv \<Rightarrow> bool" where
  "backed D K view w \<longleftrightarrow>
     (\<forall>v. kv_vault w = Some v \<longrightarrow>
       (\<exists>text. view (kv_store w) CONTAINER = Some text
         \<and> (ck_serialize K (u_container v) = Inr text
            \<or> (\<exists>j slot_id kek. json_parse D text = Inr j \<and> ck_open_device K j slot_id kek = Inr v))))"

text \<open>
  The steps of a \<open>KeyVault\<close>, every public operation with any result; \<open>commit\<close> is the public one,
  with any change of the caller, \<open>vault_mut\<close> any assignment through the reference that it gives out, \<open>rebind\<close> one to the public field, and \<open>world\<close> anything that happens
  on the host meanwhile. Two kinds of steps are told apart from the rest.
\<close>

datatype kv_event = Operation | Clear_failed | Vault_edited

inductive kv_step ::
  "deps \<Rightarrow> 'h ckvf \<Rightarrow> 's store_api \<Rightarrow> kv_event \<Rightarrow> ('s, 'h) kv \<Rightarrow> ('s, 'h) kv \<Rightarrow> bool"
  for D :: deps and K :: "'h ckvf" and S :: "'s store_api" where
  create: "kv_create K S email device seed now w = (r, w') \<Longrightarrow> kv_step D K S Operation w w'"
| "open": "kv_open D K S w = (r, w') \<Longrightarrow> kv_step D K S Operation w w'"
| adopt: "kv_adopt K S opened device stored now w = (r, w') \<Longrightarrow> kv_step D K S Operation w w'"
| clear: "kv_clear S w = (Inr u, w') \<Longrightarrow> kv_step D K S Operation w w'"
| clear_failed: "kv_clear S w = (Inl e, w') \<Longrightarrow> kv_step D K S Clear_failed w w'"
| commit: "commit K S (plain_change change) push w = (r, w') \<Longrightarrow> kv_step D K S Operation w w'"
| vault_mut: "vault_mut v w = (r, w') \<Longrightarrow> kv_step D K S Vault_edited w w'"
| has_local_vault: "has_local_vault S w = (r, w') \<Longrightarrow> kv_step D K S Operation w w'"
| import_key:
    "import_key K S family encoding alg purpose private_key public_key meta created status push w
       = (r, w') \<Longrightarrow> kv_step D K S Operation w w'"
| set_key_meta: "set_key_meta K S i meta w = (r, w') \<Longrightarrow> kv_step D K S Operation w w'"
| retire: "retire K S i w = (r, w') \<Longrightarrow> kv_step D K S Operation w w'"
| revoke: "revoke K S i w = (r, w') \<Longrightarrow> kv_step D K S Operation w w'"
| delete_private: "delete_private K S i reason w = (r, w') \<Longrightarrow> kv_step D K S Operation w w'"
| set_preferred: "set_preferred K S family purpose i w = (r, w') \<Longrightarrow> kv_step D K S Operation w w'"
| remove_device: "remove_device K S slot_id w = (r, w') \<Longrightarrow> kv_step D K S Operation w w'"
| add_recovery_code: "add_recovery_code K S pepper pk w = (r, w') \<Longrightarrow> kv_step D K S Operation w w'"
| set_backup_password:
    "set_backup_password K S password pepper pk w = (r, w') \<Longrightarrow> kv_step D K S Operation w w'"
| pull: "kv_pull K S w = (r, w') \<Longrightarrow> kv_step D K S Operation w w'"
| push: "kv_push K S w = (r, w') \<Longrightarrow> kv_step D K S Operation w w'"
| sync: "kv_sync K S w = (r, w') \<Longrightarrow> kv_step D K S Operation w w'"
| host_mutation: "host_mutation D K operation p w = (r, w') \<Longrightarrow> kv_step D K S Operation w w'"
| authorize_device:
    "authorize_device D K device_id device_name device_public_key w = (r, w')
       \<Longrightarrow> kv_step D K S Operation w w'"
| world: "kv_step D K S Operation w (w\<lparr>kv_env := h\<rparr>)"
| rebind: "kv_step D K S Operation w (w\<lparr>kv_binding := b\<rparr>)"

inductive kv_run ::
  "deps \<Rightarrow> 'h ckvf \<Rightarrow> 's store_api \<Rightarrow> ('s, 'h) kv \<Rightarrow> kv_event list \<Rightarrow> ('s, 'h) kv \<Rightarrow> bool"
  for D :: deps and K :: "'h ckvf" and S :: "'s store_api" and w :: "('s, 'h) kv" where
  start: "kv_run D K S w [] w"
| step: "kv_run D K S w es w1 \<Longrightarrow> kv_step D K S e w1 w2 \<Longrightarrow> kv_run D K S w (es @ [e]) w2"

context local_store
begin

lemma read_key_keeps: "keeps (backed D K view) (read_key S k)"
  by (rule keepsI)
    (auto simp: read_key_def on_store_def backed_def dest: read_frame split: prod.splits)

lemma write_key_keeps: "k \<noteq> CONTAINER \<Longrightarrow> keeps (backed D K view) (write_key S k v)"
  by (rule keepsI)
    (auto simp: write_key_def on_store_def backed_def write_view split: prod.splits)

lemma on_env_keeps: "keeps (backed D K view) (on_env m)"
  by (rule keepsI) (auto simp: on_env_def backed_def split: prod.splits)

lemma kv_get_keeps: "keeps (backed D K view) (kv_get f)"
  by (rule keepsI) (simp add: kv_get_def)

lemma take_keeps: "keeps (backed D K view) (aupd (\<lambda>w. w\<lparr>kv_vault := None\<rparr>))"
  by (rule keepsI) (simp add: backed_def)

lemma attempt_keeps: "keeps (backed D K view) m \<Longrightarrow> keeps (backed D K view) (attempt m)"
  by (auto simp: keeps_def attempt_def split: prod.splits)

lemma persist_keeps: "keeps (backed D K view) (persist K S v)"
proof (rule keepsI)
  fix w
  assume b: "backed D K view w"
  show "backed D K view (snd (persist K S v w))"
  proof (cases "ck_serialize K (u_container v)")
    case (Inl e)
    with b show ?thesis by (simp add: persist_def abind_apply)
  next
    case (Inr j)
    obtain r s' where s': "st_write S CONTAINER (Some j) (kv_store w) = (r, s')" by fastforce
    show ?thesis
    proof (cases r)
      case (Inl e)
      with b Inr s' write_err [OF s' [unfolded Inl]] show ?thesis
        by (simp add: persist_def abind_apply write_key_def on_store_def backed_def)
    next
      case r: (Inr u)
      with Inr s' write_ok [OF s' [unfolded r]] show ?thesis
        by (simp add: persist_def abind_apply write_key_def on_store_def backed_def)
    qed
  qed
qed

lemmas keeps_parts = read_key_keeps write_key_keeps on_env_keeps kv_get_keeps take_keeps
  attempt_keeps persist_keeps keeps_basic

lemma open_with_device_slot_keeps: "keeps (backed D K view) (open_with_device_slot K S c)"
  unfolding open_with_device_slot_def device_slot_id_def device_kek_def
  by (intro keeps_abind keeps_parts) (auto intro!: keeps_parts split: if_splits)

lemma open_record_keeps: "keeps (backed D K view) (open_record K S r i)"
  unfolding open_record_def
  by (intro keeps_abind attempt_keeps open_with_device_slot_keeps)
    (auto intro!: keeps_parts split: sum.splits)

lemma write_device_keeps: "keeps (backed D K view) (write_device K S kek i)"
  unfolding write_device_def by (intro keeps_abind keeps_parts) auto

lemma read_host_keeps: "keeps (backed D K view) (read_host K b)"
  unfolding read_host_def by (intro keeps_abind keeps_parts)

lemma kv_create_keeps: "keeps (backed D K view) (kv_create K S email device seed now)"
  unfolding kv_create_def Let_def
  by (intro keeps_abind keeps_parts write_device_keeps) auto

lemma kv_adopt_keeps: "keeps (backed D K view) (kv_adopt K S opened device stored now)"
  unfolding kv_adopt_def Let_def
  by (intro keeps_abind keeps_parts write_device_keeps) auto

lemma kv_pull_keeps: "keeps (backed D K view) (kv_pull K S)"
  unfolding kv_pull_def
  by (intro keeps_abind keeps_parts)
    (auto intro!: keeps_abind keeps_parts read_host_keeps open_record_keeps
      split: option.splits)

lemma push_rechain_keeps: "keeps (backed D K view) (push_rechain K S local gen prev)"
  unfolding push_rechain_def by (intro keeps_abind keeps_parts)

lemma push_conflict_keeps: "keeps (backed D K view) (push_conflict K S b local e)"
  unfolding push_conflict_def
  by (auto intro!: keeps_abind keeps_parts read_host_keeps open_record_keeps
      push_rechain_keeps split: option.splits)

lemma push_round_keeps: "keeps (backed D K view) (push_round K S b)"
  unfolding push_round_def Let_def
  by (auto intro!: keeps_abind keeps_parts push_conflict_keeps split: sum.splits)

lemma push_rounds_keeps: "keeps (backed D K view) (push_rounds K S b n)"
proof (induction n)
  case 0
  then show ?case by (simp add: keeps_def)
next
  case (Suc n)
  then show ?case by (auto intro!: keeps_abind keeps_parts push_round_keeps)
qed

lemma kv_push_keeps: "keeps (backed D K view) (kv_push K S)"
  unfolding kv_push_def
  by (auto intro!: keeps_abind keeps_parts push_rounds_keeps split: option.splits)

lemma push_quietly_keeps: "keeps (backed D K view) (push_quietly K S)"
  unfolding push_quietly_def
  by (auto intro!: keeps_abind keeps_parts attempt_keeps kv_push_keeps split: sum.splits)

lemma commit_keeps: "keeps (backed D K view) (commit K S change push)"
  unfolding commit_def
  by (auto intro!: keeps_abind keeps_parts attempt_keeps push_quietly_keeps)

lemma kv_sync_keeps: "keeps (backed D K view) (kv_sync K S)"
  unfolding kv_sync_def by (intro keeps_abind kv_pull_keeps kv_push_keeps keeps_basic)

lemma host_mutation_keeps: "keeps (backed D K view) (host_mutation D' K op p)"
  unfolding host_mutation_def by (intro keeps_abind keeps_parts)

lemma kv_clear_Inr: "kv_clear S w = (Inr u, w') \<Longrightarrow> kv_vault w' = None"
  by (auto simp: kv_clear_def abind_Inr_iff)

text \<open>Opening a container reads the store and changes nothing.\<close>

lemma open_with_device_slot_same:
  "keeps (\<lambda>w. view (kv_store w) = f \<and> kv_vault w = v \<and> kv_env w = h \<and> kv_binding w = b)
     (open_with_device_slot K S c)"
proof -
  have "keeps (\<lambda>w. view (kv_store w) = f \<and> kv_vault w = v \<and> kv_env w = h \<and> kv_binding w = b)
      (read_key S k)" for k
    by (rule keepsI) (auto simp: read_key_def on_store_def dest: read_frame split: prod.splits)
  then show ?thesis
    unfolding open_with_device_slot_def device_slot_id_def device_kek_def
    by (intro keeps_abind keeps_basic) (auto split: if_splits)
qed

lemma open_with_device_slot_frame:
  assumes "open_with_device_slot K S c w = (r, w')"
  shows "view (kv_store w') = view (kv_store w) \<and> kv_vault w' = kv_vault w \<and> kv_env w' = kv_env w
    \<and> kv_binding w' = kv_binding w"
  using keepsD [OF open_with_device_slot_same _ assms] by blast

lemma open_with_device_slot_Inr:
  assumes "open_with_device_slot K S c w = (Inr v, w')"
  shows "\<exists>i kek. ck_open_device K c i kek = Inr v"
  using assms
  by (auto simp: open_with_device_slot_def device_slot_id_def device_kek_def run_iffs
      split: if_splits)

lemma kv_open_keeps: "keeps (backed D K view) (kv_open D K S)"
proof (rule keepsI)
  fix w
  assume b: "backed D K view w"
  obtain r s' where rd: "st_read S CONTAINER (kv_store w) = (r, s')" by fastforce
  have view: "view s' = view (kv_store w)" by (rule read_frame [OF rd])
  let ?w = "w\<lparr>kv_store := s'\<rparr>"
  have bw: "backed D K view ?w" using b view by (simp add: backed_def)
  show "backed D K view (snd (kv_open D K S w))"
  proof (cases "\<exists>text j. r = Inr (Some text) \<and> json_parse D text = Inr j")
    case True
    then obtain t j where r: "r = Inr (Some t)" and j: "json_parse D t = Inr j" by blast
    have stored: "view s' CONTAINER = Some t"
      using read_ok [OF rd [unfolded r]] view by simp
    obtain q w2 where o: "open_with_device_slot K S j ?w = (q, w2)" by fastforce
    have step: "snd (kv_open D K S w) = (case q of Inl e \<Rightarrow> w2 | Inr v \<Rightarrow> w2\<lparr>kv_vault := Some v\<rparr>)"
      using rd r j o
      by (simp add: kv_open_def abind_apply read_key_def on_store_def split: sum.splits)
    show ?thesis
    proof (cases q)
      case (Inl e)
      with step keepsD [OF open_with_device_slot_keeps bw o] show ?thesis by simp
    next
      case (Inr v)
      with open_with_device_slot_frame [OF o] open_with_device_slot_Inr o obtain i kek where
        "ck_open_device K j i kek = Inr v" "view (kv_store w2) = view s'" by fastforce
      with stored j step Inr show ?thesis by (auto simp: backed_def)
    qed
  next
    case False
    then have "snd (kv_open D K S w) = ?w"
      using rd
      by (auto simp: kv_open_def abind_apply read_key_def on_store_def map_err_def
          split: option.splits sum.splits)
    with bw show ?thesis by simp
  qed
qed

lemma has_local_vault_keeps: "keeps (backed D K view) (has_local_vault S)"
  unfolding has_local_vault_def by (intro keeps_abind keeps_parts)

lemma kv_step_backed:
  "kv_step D K S e w w' \<Longrightarrow> e = Operation \<Longrightarrow> backed D K view w \<Longrightarrow> backed D K view w'"
proof (induction rule: kv_step.induct)
  case (clear w u w')
  then show ?case by (auto simp: backed_def dest: kv_clear_Inr)
next
  case (add_recovery_code pepper pk w r w')
  have "keeps (backed D K view) (add_recovery_code K S pepper pk)"
    unfolding add_recovery_code_def replace_pepper_slot_def
    by (intro keeps_abind keeps_parts commit_keeps)
  from keepsD [OF this add_recovery_code.prems(2) add_recovery_code.hyps] show ?case .
next
  case (authorize_device device_id device_name device_public_key w r w')
  then show ?case
    unfolding authorize_device_def using keepsD [OF host_mutation_keeps] by blast
next
  case (world w h)
  then show ?case by (simp add: backed_def)
next
  case (rebind w b)
  then show ?case by (simp add: backed_def)
qed (simp_all only: import_key_def set_key_meta_def retire_def revoke_def delete_private_def
    set_preferred_def remove_device_def set_backup_password_def replace_pepper_slot_def kv_event.distinct,
    (erule (1) keepsD [rotated],
      (rule kv_create_keeps kv_open_keeps kv_adopt_keeps commit_keeps kv_pull_keeps kv_push_keeps
        kv_sync_keeps host_mutation_keeps has_local_vault_keeps))+)

lemma kv_run_backed:
  "kv_run D K S w es w' \<Longrightarrow> set es \<subseteq> {Operation} \<Longrightarrow> backed D K view w \<Longrightarrow> backed D K view w'"
  by (induction rule: kv_run.induct) (auto dest: kv_step_backed)

text \<open>
  A \<open>clear\<close> that fails leaves the vault in memory as it was, although the container, which it
  deletes first, may be gone.
\<close>

lemma write_none_keeps_vault: "keeps (\<lambda>w. kv_vault w = v) (write_none S ks)"
proof (induction ks)
  case (Cons k ks)
  have "keeps (\<lambda>w. kv_vault w = v) (write_key S k None)"
    by (rule keepsI) (auto simp: write_key_def on_store_def split: prod.splits)
  with Cons show ?case by (auto intro: keeps_abind)
qed (simp only: write_none.simps keeps_basic)

lemma write_key_container:
  "write_key S k' None w = (q, w1) \<Longrightarrow> view (kv_store w1) k \<in> {view (kv_store w) k, None}"
  by (cases q) (auto simp: write_key_def on_store_def write_ok write_err split: prod.splits if_splits)

lemma write_none_container:
  "write_none S ks w = (r, w') \<Longrightarrow> view (kv_store w') k \<in> {view (kv_store w) k, None}"
proof (induction ks arbitrary: w)
  case (Cons k' ks)
  obtain q w1 where s1: "write_key S k' None w = (q, w1)" by fastforce
  note w1 = write_key_container [OF s1, of k]
  show ?case
  proof (cases q)
    case (Inl e)
    with Cons.prems s1 w1 show ?thesis by (simp add: abind_apply)
  next
    case (Inr u)
    with Cons.prems s1 have "write_none S ks w1 = (r, w')" by (simp add: abind_apply)
    from Cons.IH [OF this] w1 show ?thesis by auto
  qed
qed simp

lemma failed_clear_stays_open:
  assumes "kv_clear S w = (Inl e, w')"
  shows "kv_vault w' = kv_vault w"
    and "view (kv_store w') CONTAINER \<in> {view (kv_store w) CONTAINER, None}"
proof -
  have run: "write_none S ALL_KEYS w = (Inl e, w')"
    using assms by (auto simp: kv_clear_def abind_apply split: prod.splits sum.splits)
  show "kv_vault w' = kv_vault w"
    using keepsD [OF write_none_keeps_vault refl run] .
  show "view (kv_store w') CONTAINER \<in> {view (kv_store w) CONTAINER, None}"
    using write_none_container [OF run] .
qed

end

text \<open>
  C15. Nothing is only in memory: from any state in which a \<open>KeyVault\<close> is closed, in particular
  a new one, its public operations, in any order, with any changes of the caller, any failures
  of the host, the crypto or the store and whatever other devices do meanwhile, lead only to
  states in which an open vault is the stored one: the store holds its serialization, or the
  text it was opened from. Two steps are excepted: an edit through \<open>vault_mut\<close>, which is not
  written, and a \<open>clear\<close> that fails, which can delete the container and leave the vault open
  (\<open>failed_clear_stays_open\<close>).
\<close>

theorem reachable_vault_is_stored:
  assumes "local_store S view" and "kv_run D K S w es w'" and "kv_vault w = None"
    and "Clear_failed \<notin> set es" and "Vault_edited \<notin> set es" and "kv_vault w' = Some v"
  shows "\<exists>text. view (kv_store w') CONTAINER = Some text
    \<and> (ck_serialize K (u_container v) = Inr text
       \<or> (\<exists>j slot_id kek. json_parse D text = Inr j \<and> ck_open_device K j slot_id kek = Inr v))"
proof -
  have "e = Operation" if "e \<in> set es" for e
    using that assms(4,5) by (metis kv_event.exhaust)
  then have "set es \<subseteq> {Operation}" by blast
  from local_store.kv_run_backed [OF assms(1,2) this] assms(3,6) show ?thesis
    by (simp add: backed_def)
qed

section \<open>Pushing\<close>

context local_store
begin

lemma read_key_view:
  "read_key S k w = (Inr r, w') \<Longrightarrow>
     r = view (kv_store w) k \<and> view (kv_store w') = view (kv_store w) \<and> kv_vault w' = kv_vault w
     \<and> kv_binding w' = kv_binding w \<and> kv_env w' = kv_env w"
  by (auto simp: read_key_def on_store_Inr_iff dest: read_ok read_frame)

lemma write_key_view:
  "write_key S k v w = (Inr u, w') \<Longrightarrow>
     view (kv_store w') = (view (kv_store w))(k := v) \<and> kv_vault w' = kv_vault w
     \<and> kv_binding w' = kv_binding w \<and> kv_env w' = kv_env w"
  by (auto simp: write_key_def on_store_Inr_iff dest: write_ok)

definition synced :: "('s, 'h) kv \<Rightarrow> bool" where
  "synced w \<longleftrightarrow> (\<exists>v. kv_vault w = Some v
     \<and> view (kv_store w) SYNCED_HASH = Some (c_generation_hash (u_container v)))"

lemma push_conflict_not_done: "push_conflict K S b local e w \<noteq> (Inr True, w')"
  by (auto simp: push_conflict_def push_rechain_def run_iffs split: if_splits option.splits)

lemma push_round_done:
  assumes "push_round K S b w = (Inr True, w')"
  shows "synced w'"
proof -
  obtain v where v: "kv_vault w = Some v"
    using assms by (auto simp: push_round_def run_iffs)
  obtain s w1 where rd: "read_key S SYNCED_HASH w = (Inr s, w1)"
    using assms by (auto simp: push_round_def run_iffs Let_def)
  show ?thesis
  proof (cases "s = Some (c_generation_hash (u_container v))")
    case True
    then have "w' = w1"
      using assms v rd by (auto simp: push_round_def run_iffs Let_def)
    with read_key_view [OF rd] True v show ?thesis by (auto simp: synced_def)
  next
    case False
    then obtain signer put w2 where put: "on_env (ha_put_record (bd_host b) (bd_identity_id b)
        (u_container v) signer (bd_license_device_id b)) w1 = (put, w2)"
      and rest: "(case put of
         Inr _ \<Rightarrow> abind (write_key S SYNCED_HASH (Some (c_generation_hash (u_container v))))
           (\<lambda>_. aret True)
       | Inl e \<Rightarrow> if verr_code e = ''generation_conflict'' then push_conflict K S b v e else afail e)
       w2 = (Inr True, w')"
      using assms v rd
      by (auto simp: push_round_def abind_Inr_iff kv_get_Inr_iff attempt_Inr_iff Let_def)
    from put have w2: "kv_vault w2 = kv_vault w1"
      by (auto simp: on_env_def split: prod.splits)
    have wr: "write_key S SYNCED_HASH (Some (c_generation_hash (u_container v))) w2 = (Inr (), w')"
      using rest by (cases put) (auto simp: abind_Inr_iff push_conflict_not_done split: if_splits)
    from write_key_view [OF wr] w2 read_key_view [OF rd] v show ?thesis by (simp add: synced_def)
  qed
qed

lemma push_rounds_synced: "push_rounds K S b n w = (Inr u, w') \<Longrightarrow> synced w'"
  by (induction n arbitrary: w) (auto simp: abind_Inr_iff push_round_done split: if_splits)

end

text \<open>
  C16. A \<open>push\<close> that returns \<open>Ok\<close> has synced the vault: with a host binding it leaves the vault
  open and the store naming exactly the generation in memory as synced, also when the push
  first had to rechain or merge onto a moved head; without a binding it has done nothing.
\<close>

theorem push_ok_synced:
  assumes "local_store S view" and "kv_push K S w = (Inr u, w')"
  shows "case kv_binding w of
      None \<Rightarrow> w' = w
    | Some b \<Rightarrow> \<exists>v. kv_vault w' = Some v
        \<and> view (kv_store w') SYNCED_HASH = Some (c_generation_hash (u_container v))"
proof (cases "kv_binding w")
  case None
  with assms(2) show ?thesis by (simp add: kv_push_def abind_apply)
next
  case (Some b)
  then have "push_rounds K S b 4 w = (Inr u, w')"
    using assms(2) by (simp add: kv_push_def abind_apply)
  from local_store.push_rounds_synced [OF assms(1) this] Some show ?thesis
    by (simp add: local_store.synced_def [OF assms(1)])
qed

section \<open>Pulling\<close>

lemma on_store_frame: "on_store m w = (r, w') \<Longrightarrow> kv_vault w' = kv_vault w \<and> kv_binding w' = kv_binding w"
  by (auto simp: on_store_def split: prod.splits)

lemma on_env_frame:
  "on_env m w = (r, w') \<Longrightarrow> kv_vault w' = kv_vault w \<and> kv_binding w' = kv_binding w
     \<and> kv_store w' = kv_store w"
  by (auto simp: on_env_def split: prod.splits)

lemma write_key_frame: "write_key S k v w = (r, w') \<Longrightarrow> kv_vault w' = kv_vault w"
  by (auto simp: write_key_def dest: on_store_frame)

lemma persist_vault:
  "persist K S v w = (r, w') \<Longrightarrow> kv_vault w' = kv_vault w \<or> kv_vault w' = Some v"
  by (auto simp: persist_def abind_apply dest: write_key_frame split: prod.splits sum.splits)

lemma open_record_Inr:
  "open_record K S r i w = (Inr v, w') \<Longrightarrow> verify_record_signature K r v i = Inr ()"
  by (auto simp: open_record_def run_iffs)

context local_store
begin

lemma same_keeps:
  "keeps (\<lambda>w. kv_vault w = v \<and> view (kv_store w) = f) (read_key S k)"
  "keeps (\<lambda>w. kv_vault w = v \<and> view (kv_store w) = f) (on_env m)"
  "keeps (\<lambda>w. kv_vault w = v \<and> view (kv_store w) = f) (kv_get g)"
  by (auto simp: keeps_def read_key_def on_store_def on_env_def kv_get_def dest: read_frame
      split: prod.splits)

lemma read_host_same: "keeps (\<lambda>w. kv_vault w = v \<and> view (kv_store w) = f) (read_host K b)"
  unfolding read_host_def by (intro keeps_abind same_keeps)

lemma open_record_same: "keeps (\<lambda>w. kv_vault w = v \<and> view (kv_store w) = f) (open_record K S r i)"
proof -
  have "keeps (\<lambda>w. kv_vault w = v \<and> view (kv_store w) = f)
      (attempt (open_with_device_slot K S c))" for c
    by (auto simp: keeps_def attempt_def dest: open_with_device_slot_frame split: prod.splits)
  then show ?thesis
    unfolding open_record_def by (intro keeps_abind) (auto split: sum.splits)
qed

lemma pull_cases:
  assumes pull: "kv_pull K S w = (r, w')" and b: "kv_binding w = Some b"
    and local: "kv_vault w = Some local"
  shows "kv_vault w' = Some local
    \<or> (\<exists>rec head. verify_record_signature K rec head (bd_identity_id b) = Inr ()
        \<and> (kv_vault w' = Some head
             \<and> view (kv_store w) SYNCED_HASH = Some (c_generation_hash (u_container local))
           \<or> (\<exists>merged cs h h'. merge_normalized K head local h = (Inr (merged, cs), h')
                \<and> kv_vault w' = Some merged)))"
proof -
  let ?I = "\<lambda>w1. kv_vault w1 = Some local \<and> view (kv_store w1) = view (kv_store w)"
  have I: "?I w" using local by simp
  obtain q1 w1 where s1: "read_host K b w = (q1, w1)" by fastforce
  note I1 = keepsD [OF read_host_same I s1]
  show ?thesis
  proof (cases "\<exists>rd rec. q1 = Inr rd \<and> rd_record rd = Some rec
      \<and> vr_generation_hash rec \<noteq> c_generation_hash (u_container local)")
    case False
    with pull b s1 I1 show ?thesis
      by (auto simp: kv_pull_def abind_apply kv_get_def the_vault_def dest: write_key_frame
          split: sum.splits option.splits prod.splits)
  next
    case True
    then obtain rd rec where q1: "q1 = Inr rd" "rd_record rd = Some rec"
      and ne: "vr_generation_hash rec \<noteq> c_generation_hash (u_container local)" by blast
    obtain q2 w2 where s2: "open_record K S rec (bd_identity_id b) w1 = (q2, w2)" by fastforce
    note I2 = keepsD [OF open_record_same I1 s2]
    obtain q3 w3 where s3: "read_key S SYNCED_HASH w2 = (q3, w3)" by fastforce
    note I3 = keepsD [OF same_keeps(1) I2 s3]
    show ?thesis
    proof (cases "\<exists>head synced. q2 = Inr head \<and> q3 = Inr synced")
      case False
      with pull b s1 q1 ne I1 s2 I2 s3 I3 show ?thesis
        by (auto simp: kv_pull_def abind_apply kv_get_def the_vault_def split: sum.splits)
    next
      case True
      then obtain head sy where q23: "q2 = Inr head" "q3 = Inr sy" by blast
      have ver: "verify_record_signature K rec head (bd_identity_id b) = Inr ()"
        by (rule open_record_Inr [OF s2 [unfolded q23]])
      have sy: "sy = view (kv_store w) SYNCED_HASH"
        using read_key_view [OF s3 [unfolded q23]] I2 by simp
      have run: "kv_pull K S w =
          abind (if sy = Some (c_generation_hash (u_container local)) then
              abind (write_key S SYNCED_HASH (Some (vr_generation_hash rec))) (\<lambda>_. persist K S head)
            else
              abind (on_env (merge_normalized K head local)) (\<lambda>(merged, _). persist K S merged))
            (\<lambda>_. aret True) w3"
        using b s1 q1 ne I1 s2 s3 q23
        by (simp add: kv_pull_def abind_apply kv_get_def the_vault_def)
      show ?thesis
      proof (cases "sy = Some (c_generation_hash (u_container local))")
        case True
        then have "kv_vault w' = Some local \<or> kv_vault w' = Some head"
          using pull run I3
          by (auto simp: abind_apply split: prod.splits sum.splits
              dest!: write_key_frame persist_vault)
        with True ver sy show ?thesis by auto
      next
        case False
        then have "kv_vault w' = Some local
            \<or> (\<exists>merged cs h h'. merge_normalized K head local h = (Inr (merged, cs), h')
                 \<and> kv_vault w' = Some merged)"
          using pull run I3
          by (auto simp: abind_apply on_env_def split: prod.splits sum.splits
              dest!: persist_vault)
        with ver show ?thesis by blast
      qed
    qed
  qed
qed

end

text \<open>
  C17. A \<open>pull\<close>, whatever it returns, trusts only the account's signature and loses no local
  change: the vault in memory stays, or it becomes a head whose record signature verifies for
  this identity, and that only when the local generation was the synced one, or else the
  merge of the local vault onto such a head.
\<close>

theorem pull_trusts_only_signed:
  assumes "local_store S view" and "kv_pull K S w = (r, w')" and "kv_binding w = Some b"
    and "kv_vault w = Some local"
  shows "kv_vault w' = Some local
    \<or> (\<exists>rec head. verify_record_signature K rec head (bd_identity_id b) = Inr ()
        \<and> (kv_vault w' = Some head
             \<and> view (kv_store w) SYNCED_HASH = Some (c_generation_hash (u_container local))
           \<or> (\<exists>merged cs h h'. merge_normalized K head local h = (Inr (merged, cs), h')
                \<and> kv_vault w' = Some merged)))"
  by (rule local_store.pull_cases [OF assms])

section \<open>A concrete host\<close>

text \<open>A host that accepts every record and serves one signed record.\<close>

definition sample_identity :: string where
  "sample_identity = ''id''"

definition sample_record_sig :: bytes where
  "sample_record_sig = fix_len 64 (replicate 32 7
     @ bytes_of (vault_records_signing_text sample_identity ''v1'' 1 ''h''))"

definition sample_head_read :: json where
  "sample_head_read = jobj [(''record'', jobj [
     (''msk_signature'', jobj [(''value'', JStr (lower_hex sample_record_sig))]),
     (''container'', JNull), (''generation'', JInt 1)])]"

definition sample_host :: "nat host_api" where
  "sample_host = (host_client_api sample_deps sample_ckvf sample_curve
       (host_client_new ''h'' (\<lambda>rq. afail ''offline'')))
     \<lparr>ha_put_record := (\<lambda>i c signer lic. aret JNull),
      ha_current := (\<lambda>vid auth. aret sample_head_read)\<rparr>"

definition sample_binding :: "nat host_binding" where
  "sample_binding = host_binding_new sample_host sample_identity (static_authorize (device_auth ''d''))"

definition sample_kv :: "unlocked \<Rightarrow> memory \<Rightarrow> (memory, nat) kv" where
  "sample_kv v m = \<lparr>kv_binding = Some sample_binding, kv_vault = Some v, kv_store = m, kv_env = 0\<rparr>"

lemma sample_kv_simps [simp]:
  "kv_binding (sample_kv v m) = Some sample_binding" "kv_vault (sample_kv v m) = Some v"
  "kv_store (sample_kv v m) = m" "kv_env (sample_kv v m) = 0"
  by (simp_all add: sample_kv_def)

lemma memory_store_simps [simp]:
  "st_read memory_store k m = (Inr (m k), m)"
  "st_write memory_store k v m = (Inr (), m(k := v))"
  by (simp_all add: memory_store_def memory_read_def memory_write_def split: option.splits)

theorem push_ok_synced_witness:
  "\<exists>w'. kv_push sample_ckvf memory_store (sample_kv sample_vault memory_new) = (Inr (), w')
     \<and> (\<exists>v. kv_vault w' = Some v
         \<and> kv_store w' SYNCED_HASH = Some (c_generation_hash (u_container v)))"
proof -
  have "\<exists>w'. kv_push sample_ckvf memory_store (sample_kv sample_vault memory_new) = (Inr (), w')"
    by (simp add: kv_push_def abind_apply numeral_eq_Suc push_round_def kv_get_def the_vault_def
        read_key_def write_key_def on_store_def on_env_def attempt_def kv_signer_def msk_seed_def
        msk_signer_new_def sample_binding_def host_binding_new_def sample_host_def memory_new_def
        sample_vault_def sample_payload_def sample_ckvf_def Let_def)
  then show ?thesis
    using push_ok_synced [OF mem.local_store_axioms, of sample_ckvf "sample_kv sample_vault memory_new"]
    by fastforce
qed

definition sample_local :: unlocked where
  "sample_local = sample_vault\<lparr>u_container := sample_container\<lparr>c_generation_hash := ''old''\<rparr>\<rparr>"

definition sample_memory :: memory where
  "sample_memory = [DEVICE_KEK \<mapsto> lower_hex (replicate 32 1), DEVICE_SLOT_ID \<mapsto> ''s'',
     SYNCED_HASH \<mapsto> ''old'']"

definition sample_record :: vault_record where
  "sample_record = \<lparr>vr_container = sample_container, vr_msk_signature = sample_record_sig,
     vr_created_at = None\<rparr>"

lemma sample_head_read_Inr:
  "vault_read_from_json sample_ckvf sample_head_read = Inr \<lparr>rd_record = Some sample_record,
     rd_msk_public_key = None, rd_archived_msk_public_keys = [], rd_oprf_token = None\<rparr>"
proof -
  have "length sample_record_sig = 64" by (simp add: sample_record_sig_def)
  then show ?thesis
    by (simp add: vault_read_from_json_def sample_head_read_def record_from_json_def jobj_def
        obj_of_def obj_get_def sample_ckvf_def decode_len_def jget_def jget_str_def
        sample_container_def sample_record_def)
qed

lemma sample_record_verifies:
  "verify_record_signature sample_ckvf sample_record sample_vault sample_identity = Inr ()"
  by (simp add: verify_record_signature_def sample_vault_def sample_payload_def sample_ckvf_def
      sample_record_def sample_record_sig_def vr_generation_def vr_generation_hash_def
      sample_container_def Let_def)

lemma sample_pull_run:
  "\<exists>w'. kv_pull sample_ckvf memory_store (sample_kv sample_local sample_memory) = (Inr True, w')
     \<and> kv_vault w' = Some sample_vault"
proof -
  have host: "current_record sample_ckvf sample_host vid auth h = (Inr \<lparr>rd_record = Some sample_record,
     rd_msk_public_key = None, rd_archived_msk_public_keys = [], rd_oprf_token = None\<rparr>, h)"
    for vid auth h
    by (simp add: current_record_def abind_apply sample_host_def sample_head_read_Inr)
  have kek: "ck_b64_decode sample_ckvf (lower_hex (replicate 32 1)) = Inr (replicate 32 1)"
    by (simp add: sample_ckvf_def)
  have opened: "ck_open_device sample_ckvf j i k = Inr sample_vault" for j i k
    by (simp add: sample_ckvf_def)
  have hashes: "vr_generation_hash sample_record = ''h''"
    "c_generation_hash (u_container sample_local) = ''old''"
    by (simp_all add: vr_generation_hash_def sample_record_def sample_container_def sample_local_def)
  show ?thesis
    by (simp add: kv_pull_def read_host_def abind_apply kv_get_def vault_id_def the_vault_def
        read_key_def write_key_def on_store_def on_env_def attempt_def open_record_def
        open_with_device_slot_def device_slot_id_def device_kek_def persist_def
        sample_binding_def host_binding_new_def static_authorize_def host kek opened hashes
        sample_record_verifies sample_memory_def)
      (simp add: sample_ckvf_def abind_apply)
qed

theorem pull_trusts_only_signed_witness:
  "\<exists>w' rec head. kv_pull sample_ckvf memory_store (sample_kv sample_local sample_memory)
       = (Inr True, w')
     \<and> kv_vault w' = Some sample_vault
     \<and> verify_record_signature sample_ckvf rec head sample_identity = Inr ()"
proof -
  obtain w' where run: "kv_pull sample_ckvf memory_store (sample_kv sample_local sample_memory)
      = (Inr True, w')" and v: "kv_vault w' = Some sample_vault"
    using sample_pull_run by blast
  have ne: "sample_vault \<noteq> sample_local"
    by (simp add: sample_vault_def sample_local_def sample_container_def)
  have "\<exists>rec head. verify_record_signature sample_ckvf rec head
      (bd_identity_id sample_binding) = Inr ()"
    using pull_trusts_only_signed [OF mem.local_store_axioms run sample_kv_simps(1,2)] v ne by auto
  with run v show ?thesis by (auto simp: sample_binding_def host_binding_new_def)
qed

theorem reachable_vault_is_stored_witness:
  "\<exists>w v t. kv_run sample_deps sample_ckvf memory_store (kv_new None memory_new 0) [Operation] w
     \<and> kv_vault w = Some v \<and> kv_store w CONTAINER = Some t"
proof -
  let ?w0 = "kv_new None memory_new 0 :: (memory, nat) kv"
  let ?run = "kv_create sample_ckvf memory_store ''a@b'' (vault_device_new ''d'' ''n'') None None ?w0"
  have "\<exists>v. kv_vault (snd ?run) = Some v"
    by (simp add: kv_create_def abind_apply on_env_def effect_def ckvf_act_def write_device_def
        write_key_def on_store_def persist_def kv_new_def sample_ckvf_def Let_def)
  then obtain v where v: "kv_vault (snd ?run) = Some v" by blast
  have run: "kv_run sample_deps sample_ckvf memory_store ?w0 ([] @ [Operation]) (snd ?run)"
    by (rule kv_run.step [OF kv_run.start kv_step.create [OF prod.collapse [symmetric]]])
  with reachable_vault_is_stored [OF mem.local_store_axioms run] v show ?thesis
    by (fastforce simp: kv_new_def)
qed

section \<open>Key metadata\<close>

text \<open>Documented: \<open>update_extensions\<close> replaces the extensions of the payload.\<close>

definition ck_extensions_doc :: "'h ckvf \<Rightarrow> bool" where
  "ck_extensions_doc K \<longleftrightarrow>
     (\<forall>v es h v' h'. ck_update_extensions K v es h = (Inr v', h') \<longrightarrow> p_extensions (u_payload v') = es)"

lemma set_meta_lookup:
  assumes "ck_extensions_doc K" "set_meta K v i meta h = (Inr v', h')"
  shows "obj_get (extension_data (u_payload v') (key_meta_extension_id i')) i' =
    (if i' = i then Some meta
     else obj_get (extension_data (u_payload v) (key_meta_extension_id i')) i')"
proof -
  let ?p = "with_extension_entry (u_payload v) (key_meta_extension_id i) i meta"
  have "p_extensions (u_payload v') = p_extensions ?p"
    using assms unfolding set_meta_def Let_def ck_extensions_doc_def ckvf_act_Inr_iff by blast
  then have "extension_data (u_payload v') x = extension_data ?p x" for x
    by (simp add: extension_data_def)
  then show ?thesis by (simp add: extension_data_entry)
qed

text \<open>A host that never answers an upload with a generation conflict, and a push to it.\<close>

definition no_conflicts :: "'h host_binding \<Rightarrow> bool" where
  "no_conflicts b \<longleftrightarrow>
     (\<forall>i c s l h e h'. ha_put_record (bd_host b) i c s l h = (Inl e, h') \<longrightarrow> verr_code e \<noteq> ''generation_conflict'')"

lemma no_conflictsD:
  "no_conflicts b \<Longrightarrow> ha_put_record (bd_host b) i c s l h = (Inl e, h') \<Longrightarrow>
     verr_code e \<noteq> ''generation_conflict''"
  unfolding no_conflicts_def by blast

lemma push_round_same:
  assumes "no_conflicts b" and "push_round K S b w = (r, w')"
  shows "kv_vault w' = kv_vault w \<and> r \<noteq> Inr False"
proof -
  have read: "kv_vault w2 = kv_vault w1" if "read_key S k w1 = (q, w2)" for k w1 q w2
    using that by (auto simp: read_key_def on_store_def split: prod.splits)
  have put: "kv_vault w2 = kv_vault w1" if "write_key S k x (w1\<lparr>kv_env := h\<rparr>) = (q, w2)"
    for k x w1 h q w2
    using write_key_frame [OF that] by simp
  show ?thesis
    using assms
    by (auto simp: push_round_def abind_apply kv_get_def Let_def attempt_def on_env_def
        dest: no_conflictsD [OF assms(1)] split: prod.splits sum.splits if_splits)
      (metis read put)+
qed

lemma push_quietly_same:
  assumes "\<And>b. kv_binding w = Some b \<Longrightarrow> no_conflicts b" and "push_quietly K S w = (r, w')"
  shows "kv_vault w' = kv_vault w"
proof (cases "kv_binding w")
  case None
  with assms(2) show ?thesis by (simp add: push_quietly_def abind_apply)
next
  case (Some b)
  have rounds: "kv_vault w2 = kv_vault w1" if "push_rounds K S b n w1 = (q, w2)" for n w1 q w2
    using that
  proof (cases n)
    case (Suc m)
    obtain q1 w3 where one: "push_round K S b w1 = (q1, w3)" by fastforce
    with push_round_same [OF assms(1) [OF Some] one] that Suc show ?thesis
      by (auto simp: abind_apply split: sum.splits if_splits)
  qed simp
  show ?thesis
    using assms(2) Some
    by (auto simp: push_quietly_def kv_push_def abind_apply attempt_def dest: rounds
        split: prod.splits sum.splits if_splits)
qed

text \<open>
  C18. Key metadata is a map by key id, although it is sharded over extensions: after a
  \<open>set_key_meta\<close> that returns \<open>Ok\<close>, on a vault that is not bound, or bound to a host that does
  not answer the push with a generation conflict (it accepts it, or fails in any other way),
  \<open>key_meta\<close> gives the new value for that key and what it gave before for every other key, also
  for keys of the same shard. On a conflict the push merges the head of the host, whose
  entries may then come in (C13).
\<close>

theorem set_key_meta_lookup:
  assumes "ck_extensions_doc K" and "set_key_meta K S i meta w = (Inr u, w')"
    and "\<And>b. kv_binding w = Some b \<Longrightarrow> no_conflicts b"
  shows "key_meta w' i' = (if i' = i then Inr (Some meta) else key_meta w i')"
proof -
  obtain v nxt h' w1 where v: "kv_vault w = Some v"
    and chg: "set_meta K v i meta (kv_env w) = (Inr nxt, h')"
    and per: "persist K S nxt (w\<lparr>kv_vault := None, kv_env := h'\<rparr>) = (Inr (), w1)"
    and w': "w' = snd (push_quietly K S w1)"
    using assms(2) unfolding set_key_meta_def
    by (elim commit_InrE) (auto simp: plain_change_def abind_Inr_iff)
  have w1: "kv_vault w1 = Some nxt" "kv_binding w1 = kv_binding w"
    using per by (auto simp: persist_Inr_iff)
  then have "kv_vault w' = Some nxt"
    using push_quietly_same [of w1 K S] assms(3) by (metis w' prod.collapse)
  with v show ?thesis
    by (simp add: key_meta_def the_vault_def set_meta_lookup [OF assms(1) chg])
qed

theorem set_key_meta_lookup_witness:
  "\<exists>w'. set_key_meta sample_ckvf memory_store ''k'' (JInt 5) (sample_kv sample_vault memory_new) = (Inr (), w')
     \<and> key_meta w' ''k'' = Inr (Some (JInt 5))"
proof -
  let ?w = "sample_kv sample_vault memory_new"
  have doc: "ck_extensions_doc sample_ckvf"
    by (auto simp: ck_extensions_doc_def sample_ckvf_def sample_edit_def)
  have "no_conflicts sample_binding"
    by (simp add: no_conflicts_def sample_binding_def host_binding_new_def sample_host_def)
  then have bound: "no_conflicts b" if "kv_binding ?w = Some b" for b using that by simp
  have "\<exists>w'. set_key_meta sample_ckvf memory_store ''k'' (JInt 5) ?w = (Inr (), w')"
    by (auto simp: set_key_meta_def commit_def kv_get_def the_vault_def abind_apply on_env_def
        plain_change_def set_meta_def ckvf_act_def sample_ckvf_def sample_edit_def persist_def
        write_key_def on_store_def attempt_def Let_def split: prod.split)
  then obtain w' where run: "set_key_meta sample_ckvf memory_store ''k'' (JInt 5) ?w = (Inr (), w')"
    by blast
  from set_key_meta_lookup [OF doc run bound] run show ?thesis by simp
qed

section \<open>Uploaded records\<close>

text \<open>
  C19. What one device uploads, another accepts: when the host serves the container and the
  signature of an upload under the generation of the container, and the container reads back
  from its JSON, the read is accepted with the same container, and its signature verifies
  for every vault whose current or past MSK public key is the signer's.
\<close>

theorem upload_verifies:
  assumes "ck_b64_doc K" and "ck_signature_doc K"
    and "ck_validate_shape K (ck_to_json K c) = Inr c"
    and "length (signer_seed signer) = 32"
    and "put_record_body K identity_id c signer lic = Inr body"
    and "obj_get body ''container'' = Some cj" and "obj_get body ''msk_signature'' = Some sj"
    and "pk \<in> set (m_public (p_msk (u_payload v)) # m_history (p_msk (u_payload v)))"
    and "\<forall>k \<in> set (m_public (p_msk (u_payload v)) # m_history (p_msk (u_payload v))).
      \<exists>b. ck_b64_decode K k = Inr b"
    and "ck_b64_decode K pk = Inr (signer_public_key K signer)"
  shows "\<exists>rd r. vault_read_from_json K (jobj [(''record'', jobj [(''container'', cj),
        (''msk_signature'', sj), (''generation'', ju64 (c_generation c))])]) = Inr rd
    \<and> rd_record rd = Some r \<and> vr_container r = c
    \<and> verify_record_signature K r v identity_id = Inr ()"
proof -
  let ?m = "bytes_of (vault_records_signing_text identity_id (c_vault_id c) (c_generation c)
    (c_generation_hash c))"
  obtain sig where sig: "ck_ed_sign K (signer_seed signer) ?m = Inr sig"
    and cj: "cj = ck_to_json K c"
    and sj: "sj = jobj [(''algorithm'', JStr ''ed25519''), (''value'', JStr (ck_b64_encode K sig))]"
    using assms(5-7)
    by (auto simp: put_record_body_def record_signature_def signer_sign_def and_then_Inr_iff
        obj_get_obj_of jobj_def Let_def split: option.splits if_splits)
  have len: "length sig = 64" and ver: "ck_ed_verify K (signer_public_key K signer) ?m sig"
    using ck_signature_docD [OF assms(2,4) sig] by (simp_all add: signer_public_key_def)
  let ?r = "\<lparr>vr_container = c, vr_msk_signature = sig, vr_created_at = None\<rparr>"
  have "record_from_json K (obj_of [(''container'', cj), (''msk_signature'', sj),
      (''generation'', ju64 (c_generation c))]) = Inr ?r"
    using len assms(3) ck_b64_docD(1) [OF assms(1)]
    by (simp add: record_from_json_def obj_get_obj_of cj sj decode_len_def)
  then have rd: "\<exists>rd. vault_read_from_json K (jobj [(''record'', jobj [(''container'', cj),
        (''msk_signature'', sj), (''generation'', ju64 (c_generation c))])]) = Inr rd
      \<and> rd_record rd = Some ?r"
    by (simp add: vault_read_from_json_def jobj_def [of "[(''container'', cj),
        (''msk_signature'', sj), (''generation'', ju64 (c_generation c))]"])
  have keys: "verify_with_keys K ?m sig ks = Inr ()"
    if "pk \<in> set ks" "\<forall>k \<in> set ks. \<exists>b. ck_b64_decode K k = Inr b" for ks
    using that ver assms(10) by (induction ks) auto
  have "verify_record_signature K ?r v identity_id = Inr ()"
    using keys [OF assms(8,9)]
    by (simp add: verify_record_signature_def vr_generation_def vr_generation_hash_def Let_def)
  with rd show ?thesis by fastforce
qed

definition sample_signer :: msk_signer where
  "sample_signer = \<lparr>signer_seed = replicate 32 7\<rparr>"

theorem upload_verifies_witness:
  "\<exists>r. vr_container r = sample_container
     \<and> verify_record_signature sample_ckvf r sample_vault sample_identity = Inr ()"
proof -
  obtain body where body: "put_record_body sample_ckvf sample_identity sample_container sample_signer None
      = Inr body"
    by (simp add: put_record_body_def record_signature_def signer_sign_def sample_ckvf_def Let_def)
  then obtain cj sj where "obj_get body ''container'' = Some cj" "obj_get body ''msk_signature'' = Some sj"
    by (auto simp: put_record_body_def and_then_Inr_iff obj_get_obj_of Let_def)
  moreover have "ck_validate_shape sample_ckvf (ck_to_json sample_ckvf sample_container)
      = Inr sample_container"
    by (simp add: sample_ckvf_def)
  moreover have "ck_b64_decode sample_ckvf (lower_hex (replicate 32 7))
      = Inr (signer_public_key sample_ckvf sample_signer)"
    by (simp add: sample_ckvf_def signer_public_key_def sample_signer_def)
  moreover have "m_public (p_msk (u_payload sample_vault)) = lower_hex (replicate 32 7)"
    "m_history (p_msk (u_payload sample_vault)) = []"
    by (simp_all add: sample_vault_def sample_payload_def)
  ultimately show ?thesis
    using upload_verifies [of sample_ckvf sample_container sample_signer sample_identity None body cj sj
        "lower_hex (replicate 32 7)" sample_vault] body
    by (auto simp: sample_signer_def simp del: replicate.simps)
qed

end
