(* ===== verification/Cpace.thy ===== *)
theory Cpace
  imports Oprf
begin

text \<open>
  \<open>crates/scomm-vault/src/pairing/cpace.rs\<close>: the password-authenticated key exchange of the
  pairing. Both sides derive the same key, and the hashed transcript determines its fields.
\<close>

section \<open>The protocol\<close>

definition cpace_dsi :: bytes where
  "cpace_dsi = bytes_of ''CPaceRistretto255''"

definition cpace_dsi_isk :: bytes where
  "cpace_dsi_isk = bytes_of ''CPaceRistretto255_ISK''"

record cpace_initiator =
  cp_scalar :: bytes
  cp_ya :: bytes
  cp_sid :: bytes
  cp_ci :: bytes

definition cpace_fail :: "string \<Rightarrow> verr" where
  "cpace_fail message = verr_msg ''pairing_protocol_error'' message"

fun cpace_lv_cat :: "bytes list \<Rightarrow> verr + bytes" where
  "cpace_lv_cat [] = Inr []"
| "cpace_lv_cat (part # parts) =
     (if length part > 255 then Inl (cpace_fail ''CPace lv_cat field longer than 255 bytes'')
      else and_then (cpace_lv_cat parts) (\<lambda>out. Inr (word_of_nat (length part) # part @ out)))"

definition cpace_generator ::
  "deps \<Rightarrow> ('s, 'p, 'h) curve \<Rightarrow> bytes \<Rightarrow> bytes \<Rightarrow> bytes \<Rightarrow> verr + 'p" where
  "cpace_generator D C prs ci sid =
     (let zpad = 128 - 1 - (1 + length prs) - (1 + length cpace_dsi)
      in and_then (cpace_lv_cat [cpace_dsi, prs, replicate zpad 0, ci, sid]) (\<lambda>gen_str.
           Inr (cv_from_uniform C (sha512 D gen_str))))"

definition scalar_from_seed :: "('s :: field, 'p, 'h) curve \<Rightarrow> bytes \<Rightarrow> verr + 's" where
  "scalar_from_seed C random64 =
     (if length random64 \<noteq> 64
      then Inl (verr_msg ''pairing_protocol_error'' ''CPace scalar seed must be 64 bytes'')
      else let s = cv_scalar_wide C random64
           in if s = 0 then Inl (cpace_fail ''CPace sampled a zero scalar'') else Inr s)"

definition cpace_decode :: "('s, 'p, 'h) curve \<Rightarrow> bytes \<Rightarrow> verr + 'p" where
  "cpace_decode C bs =
     (if length bs \<noteq> 32 then Inl (cpace_fail ''CPace element must be 32 bytes'')
      else ok_or (cpace_fail ''CPace element is not a valid ristretto255 encoding'')
        (cv_decompress C bs))"

definition cpace_isk :: "deps \<Rightarrow> bytes \<Rightarrow> bytes \<Rightarrow> bytes \<Rightarrow> bytes \<Rightarrow> verr + bytes" where
  "cpace_isk D sid k ya yb =
     and_then (cpace_lv_cat [cpace_dsi_isk, sid, k]) (\<lambda>prefix.
     and_then (cpace_lv_cat [ya, []]) (\<lambda>a.
     and_then (cpace_lv_cat [yb, []]) (\<lambda>b.
     Inr (sha512 D (prefix @ a @ b)))))"

definition cpace_shared ::
  "('s, 'p :: ab_group_add, 'h) curve \<Rightarrow> 's \<Rightarrow> 'p \<Rightarrow> verr + 'p" where
  "cpace_shared C s peer =
     (let k = cv_smul C s peer
      in if k = 0 then Inl (cpace_fail ''CPace shared element is identity'') else Inr k)"

definition cpace_start ::
  "deps \<Rightarrow> ('s :: field, 'p, 'h) curve \<Rightarrow> bytes \<Rightarrow> bytes \<Rightarrow> bytes \<Rightarrow> bytes
     \<Rightarrow> verr + cpace_initiator" where
  "cpace_start D C password sid ci random64 =
     and_then (scalar_from_seed C random64) (\<lambda>s.
     and_then (cpace_generator D C password ci sid) (\<lambda>g.
     Inr \<lparr>cp_scalar = cv_scalar_bytes C s, cp_ya = cv_compress C (cv_smul C s g), cp_sid = sid,
       cp_ci = ci\<rparr>))"

record cpace_response =
  cr_yb :: bytes
  cr_isk :: bytes

definition cpace_respond ::
  "deps \<Rightarrow> ('s :: field, 'p :: ab_group_add, 'h) curve \<Rightarrow> bytes \<Rightarrow> bytes \<Rightarrow> bytes \<Rightarrow> bytes \<Rightarrow> bytes
     \<Rightarrow> verr + cpace_response" where
  "cpace_respond D C password sid ci peer_ya random64 =
     and_then (scalar_from_seed C random64) (\<lambda>s.
     and_then (cpace_generator D C password ci sid) (\<lambda>g.
     let yb = cv_compress C (cv_smul C s g) in
     and_then (cpace_decode C peer_ya) (\<lambda>peer.
     and_then (cpace_shared C s peer) (\<lambda>k.
     and_then (cpace_isk D sid (cv_compress C k) peer_ya yb) (\<lambda>i.
     Inr \<lparr>cr_yb = yb, cr_isk = i\<rparr>)))))"

text \<open>
  The state comes from \<open>cpace_start\<close>, so the scalar has the 32 bytes that \<open>copy_from_slice\<close>
  requires.
\<close>

definition cpace_finish ::
  "deps \<Rightarrow> ('s, 'p :: ab_group_add, 'h) curve \<Rightarrow> cpace_initiator \<Rightarrow> bytes \<Rightarrow> verr + bytes" where
  "cpace_finish D C st peer_yb =
     and_then (ok_or (cpace_fail ''CPace scalar is not canonical'')
         (cv_scalar_canonical C (cp_scalar st))) (\<lambda>s.
     and_then (cpace_decode C peer_yb) (\<lambda>peer.
     and_then (cpace_shared C s peer) (\<lambda>k.
     cpace_isk D (cp_sid st) (cv_compress C k) (cp_ya st) peer_yb)))"

section \<open>The transcript\<close>

definition lv :: "bytes \<Rightarrow> bytes" where
  "lv x = word_of_nat (length x) # x"

interpretation lv: framing lv "\<lambda>x. length x \<le> 255"
proof
  fix x y r s :: bytes
  assume len: "length x \<le> 255" "length y \<le> 255" and eq: "lv x @ r = lv y @ s"
  then have "(word_of_nat (length x) :: byte) = word_of_nat (length y)" and app: "x @ r = y @ s"
    by (simp_all add: lv_def)
  with len have "length x = length y"
    by (simp add: word_of_nat_eq_iff take_bit_eq_mod)
  with app show "x = y \<and> r = s" by (simp add: append_eq_same_length)
qed (simp add: lv_def)

lemma cpace_lv_cat_Inr_iff:
  "cpace_lv_cat parts = Inr out \<longleftrightarrow>
     list_all (\<lambda>x. length x \<le> 255) parts \<and> out = concat (map lv parts)"
  by (induction parts arbitrary: out) (auto simp: and_then_Inr_iff lv_def)

lemma cpace_isk_Inr_iff:
  "cpace_isk D sid k ya yb = Inr i \<longleftrightarrow>
     length sid \<le> 255 \<and> length k \<le> 255 \<and> length ya \<le> 255 \<and> length yb \<le> 255
     \<and> i = sha512 D (concat (map lv [cpace_dsi_isk, sid, k, ya, [], yb, []]))"
  by (auto simp: cpace_isk_def and_then_Inr_iff cpace_lv_cat_Inr_iff cpace_dsi_isk_def
      simp del: cpace_lv_cat.simps)

text \<open>
  C21. The key of an exchange is bound to the whole exchange: two runs whose keys are equal,
  and on whose inputs SHA-512 does not collide, have the same session id, shared element and
  public elements.
\<close>

theorem cpace_isk_binds:
  assumes "cpace_isk D sid k ya yb = Inr i" and "cpace_isk D sid' k' ya' yb' = Inr i"
    and "inj_on (sha512 D) {concat (map lv [cpace_dsi_isk, sid, k, ya, [], yb, []]),
      concat (map lv [cpace_dsi_isk, sid', k', ya', [], yb', []])}"
  shows "sid = sid' \<and> k = k' \<and> ya = ya' \<and> yb = yb'"
proof -
  have len: "list_all (\<lambda>x. length x \<le> 255) [cpace_dsi_isk, sid, k, ya, [], yb, []]"
    "list_all (\<lambda>x. length x \<le> 255) [cpace_dsi_isk, sid', k', ya', [], yb', []]"
    using assms(1,2) by (auto simp: cpace_isk_Inr_iff cpace_dsi_isk_def)
  let ?x = "concat (map lv [cpace_dsi_isk, sid, k, ya, [], yb, []])"
  let ?y = "concat (map lv [cpace_dsi_isk, sid', k', ya', [], yb', []])"
  have h: "sha512 D ?x = sha512 D ?y"
    using assms(1,2) unfolding cpace_isk_Inr_iff by metis
  have "?x = ?y"
    by (rule inj_onD [OF assms(3) h]) blast+
  with lv.frames_inject [OF len] show ?thesis by (simp only: list.inject) blast
qed

lemma cpace_decode_compress: "curve_doc C \<Longrightarrow> cpace_decode C (cv_compress C p) = Inr p"
  by (simp add: cpace_decode_def curve_docD)

lemma cpace_agree:
  assumes doc: "curve_doc C"
    and start: "cpace_start D C password sid ci seed_a = Inr st"
    and resp: "cpace_respond D C password sid ci (cp_ya st) seed_b = Inr r"
  shows "cpace_finish D C st (cr_yb r) = Inr (cr_isk r)"
proof -
  obtain a g where a: "scalar_from_seed C seed_a = Inr a"
    and g: "cpace_generator D C password ci sid = Inr g"
    and st: "st = \<lparr>cp_scalar = cv_scalar_bytes C a, cp_ya = cv_compress C (cv_smul C a g),
      cp_sid = sid, cp_ci = ci\<rparr>"
    using start by (auto simp: cpace_start_def and_then_Inr_iff)
  note dec = cpace_decode_compress [OF doc]
  obtain b where yb: "cr_yb r = cv_compress C (cv_smul C b g)"
    and k: "cpace_shared C b (cv_smul C a g) = Inr (cv_smul C b (cv_smul C a g))"
    and isk: "cpace_isk D sid (cv_compress C (cv_smul C b (cv_smul C a g)))
      (cv_compress C (cv_smul C a g)) (cr_yb r) = Inr (cr_isk r)"
    using resp by (auto simp: cpace_respond_def and_then_Inr_iff g st dec cpace_shared_def Let_def
        split: if_splits)
  have "cpace_shared C a (cv_smul C b g) = Inr (cv_smul C b (cv_smul C a g))"
    using k smul_commute [OF doc, of a b g] by (simp add: cpace_shared_def Let_def split: if_splits)
  with isk yb show ?thesis
    using curve_docD(8) [OF doc] by (simp add: cpace_finish_def st dec)
qed

text \<open>
  C20. Pairing devices that use the same password agree: whenever the approving device
  responds to the new device's element under the same password, session and identity, the
  new device finishes with the very key of the response.
\<close>

theorem cpace_agreement:
  assumes "curve_doc C" and "cpace_start D C password sid ci seed_a = Inr st"
    and "cpace_respond D C password sid ci (cp_ya st) seed_b = Inr r"
  shows "cpace_finish D C st (cr_yb r) = Inr (cr_isk r)"
  using assms by (rule cpace_agree)

section \<open>Witnesses\<close>

definition sample_cpace :: cpace_initiator where
  "sample_cpace = \<lparr>cp_scalar = gf3_bytes G2, cp_ya = gf3_bytes 1, cp_sid = [1], cp_ci = [2]\<rparr>"

lemma sample_cpace_start:
  "cpace_start sample_deps sample_curve [7] [1] [2] (replicate 64 0) = Inr sample_cpace"
  by (simp add: cpace_start_def scalar_from_seed_def cpace_generator_def cpace_dsi_def Let_def
      sample_cpace_def)

theorem cpace_agreement_witness:
  "\<exists>r. cpace_respond sample_deps sample_curve [7] [1] [2] (cp_ya sample_cpace) (replicate 64 1) = Inr r
     \<and> cpace_finish sample_deps sample_curve sample_cpace (cr_yb r) = Inr (cr_isk r)"
proof -
  have "\<exists>r. cpace_respond sample_deps sample_curve [7] [1] [2] (cp_ya sample_cpace) (replicate 64 1)
      = Inr r"
    using cpace_decode_compress [OF sample_curve_doc, of 1]
    by (simp add: cpace_respond_def scalar_from_seed_def cpace_generator_def cpace_dsi_def Let_def
        sample_cpace_def cpace_shared_def cpace_isk_Inr_iff cpace_isk_def cpace_dsi_isk_def gf3_bytes_def)
  with cpace_agreement [OF sample_curve_doc sample_cpace_start] show ?thesis by blast
qed

theorem cpace_isk_binds_witness:
  "\<exists>i. cpace_isk sample_deps [1] [2] [3] [4] = Inr i"
proof -
  obtain i where i: "cpace_isk sample_deps [1] [2] [3] [4] = Inr i"
    by (auto simp: cpace_isk_def cpace_dsi_isk_def)
  from cpace_isk_binds [OF i i] i show ?thesis by blast
qed

end
