(* ===== verification/Pairing_Protocol.thy ===== *)
theory Pairing_Protocol
  imports Cpace Vault_Host
begin

text \<open>
  \<open>crates/scomm-vault/src/pairing/pairing_protocol.rs\<close>: the pairing URI, the typed password,
  the derivation of the session id and of the transfer key, the signed transcript and the
  AEAD boxes. Its copy of \<open>urlencoding_encode\<close> is the one of the host client.
\<close>

section \<open>Constants and boxes\<close>

definition PAIRING_CPACE_SID_INFO :: string where
  "PAIRING_CPACE_SID_INFO = ''SComm/Pubkey/pairing/cpace/v2''"

definition PAIRING_TEK_HKDF_INFO :: string where
  "PAIRING_TEK_HKDF_INFO = ''SComm/Pubkey/pairing/tek/v2''"

definition PAIRING_TRANSCRIPT_HEADER :: string where
  "PAIRING_TRANSCRIPT_HEADER = ''SComm/Pubkey/pairing/transcript/v2''"

definition PAIRING_CONFIRM_PLAINTEXT :: string where
  "PAIRING_CONFIRM_PLAINTEXT = ''SComm/Pubkey/pairing/confirm/v2''"

definition PAIRING_URI_SCHEME :: string where
  "PAIRING_URI_SCHEME = ''scomm-pair''"

definition PAIRING_URI_VERSION :: string where
  "PAIRING_URI_VERSION = ''v2''"

definition PAIRING_TIER :: string where
  "PAIRING_TIER = ''full''"

definition CROCKFORD :: string where
  "CROCKFORD = ''0123456789ABCDEFGHJKMNPQRSTVWXYZ''"

record pairing_box =
  bx_iv :: bytes
  bx_ciphertext :: bytes

definition decode_b64_field :: "'h ckvf \<Rightarrow> json \<Rightarrow> string \<Rightarrow> nat option \<Rightarrow> verr + bytes" where
  "decode_b64_field K j field expected =
     and_then (ok_or (verr_msg ''bad_response'' (''missing '' @ field)) (jget_str j field)) (\<lambda>s.
     and_then (map_err (verr_msg ''bad_response'') (ck_b64_decode K s)) (\<lambda>b.
     case expected of
       Some n \<Rightarrow> if length b \<noteq> n
         then Inl (verr_msg ''bad_response'' (field @ '' must be '' @ show_nat n @ '' bytes''))
         else Inr b
     | None \<Rightarrow> Inr b))"

definition box_from_json :: "'h ckvf \<Rightarrow> json \<Rightarrow> verr + pairing_box" where
  "box_from_json K j =
     and_then (decode_b64_field K j ''iv'' (Some 12)) (\<lambda>iv.
     and_then (decode_b64_field K j ''ciphertext'' None) (\<lambda>ct.
     Inr \<lparr>bx_iv = iv, bx_ciphertext = ct\<rparr>))"

definition box_to_json :: "'h ckvf \<Rightarrow> pairing_box \<Rightarrow> json" where
  "box_to_json K b = jobj [(''iv'', JStr (ck_b64_encode K (bx_iv b))),
     (''ciphertext'', JStr (ck_b64_encode K (bx_ciphertext b)))]"

definition box_wire :: "'h ckvf \<Rightarrow> pairing_box \<Rightarrow> string" where
  "box_wire K b = ck_b64_encode K (bx_iv b @ bx_ciphertext b)"

section \<open>The URI\<close>

record pairing_uri =
  pu_session_id :: string
  pu_password :: bytes

definition to_uri_string :: "'h ckvf \<Rightarrow> pairing_uri \<Rightarrow> string" where
  "to_uri_string K u = PAIRING_URI_SCHEME @ '':'' @ PAIRING_URI_VERSION @ ''?sid=''
     @ urlencoding_encode (pu_session_id u) @ ''&pw=''
     @ urlencoding_encode (ck_b64_encode K (pu_password u))"

definition from_hex :: "char \<Rightarrow> byte option" where
  "from_hex c =
     (if is_digit c then Some (byte_of c - 48)
      else if (97::nat) \<le> of_char c \<and> of_char c \<le> (102::nat) then Some (byte_of c - 97 + 10)
      else if (65::nat) \<le> of_char c \<and> of_char c \<le> (70::nat) then Some (byte_of c - 65 + 10)
      else None)"

definition plus_to_space :: "char \<Rightarrow> char" where
  "plus_to_space c = (if c = CHR ''+'' then CHR '' '' else c)"

fun url_decode_bytes :: "string \<Rightarrow> bytes" where
  "url_decode_bytes [] = []"
| "url_decode_bytes (c # s) =
     (case (c = CHR ''%'', s) of
        (True, a # b # r) \<Rightarrow>
          (case (from_hex a, from_hex b) of
             (Some h, Some l) \<Rightarrow> (push_bit 4 h OR l) # url_decode_bytes r
           | _ \<Rightarrow> byte_of (plus_to_space c) # url_decode_bytes s)
      | _ \<Rightarrow> byte_of (plus_to_space c) # url_decode_bytes s)"

definition urlencoding_decode :: "string \<Rightarrow> string" where
  "urlencoding_decode s = from_utf8_lossy (url_decode_bytes s)"

text \<open>The loop over the query: the last \<open>sid\<close> and the last \<open>pw\<close> win.\<close>

definition query_part :: "string \<Rightarrow> string option \<times> string option \<Rightarrow> string option \<times> string option"
where
  "query_part part acc =
     (case split_once (CHR ''='') part of
        None \<Rightarrow> acc
      | Some (k, v) \<Rightarrow>
          let v = urlencoding_decode v in
          if k = ''sid'' then (Some v, snd acc)
          else if k = ''pw'' then (fst acc, Some v)
          else acc)"

definition parse_query :: "'h ckvf \<Rightarrow> string \<Rightarrow> pairing_uri option" where
  "parse_query K rest =
     (case fold query_part (split_char (CHR ''&'') rest) (None, None) of
        (Some sid, Some pw) \<Rightarrow>
          if sid = [] \<or> pw = [] then None
          else (case ck_b64_decode K pw of
              Inl _ \<Rightarrow> None
            | Inr password \<Rightarrow> if length password < 16 then None
                else Some \<lparr>pu_session_id = sid, pu_password = password\<rparr>)
      | _ \<Rightarrow> None)"

definition try_parse :: "'h ckvf \<Rightarrow> string \<Rightarrow> pairing_uri option" where
  "try_parse K raw =
     (let trimmed = trim raw in
      if trimmed = [] then None
      else Option.bind (strip_prefix (PAIRING_URI_SCHEME @ '':'') trimmed) (\<lambda>opaque.
           Option.bind (split_once (CHR ''?'') opaque) (\<lambda>(ver, rest).
           if ver \<noteq> PAIRING_URI_VERSION then None else parse_query K rest)))"

section \<open>PairingProtocol\<close>

definition generate_session_id :: "'h ckvf \<Rightarrow> 'h \<Rightarrow> string \<times> 'h" where
  "generate_session_id K h = (case ck_random K 16 h of (bs, h') \<Rightarrow> (concat (map lower_hex2 bs), h'))"

definition generate_high_entropy_password :: "'h ckvf \<Rightarrow> 'h \<Rightarrow> bytes \<times> 'h" where
  "generate_high_entropy_password K h = ck_random K 16 h"

text \<open>The loop of \<open>generate_typed_password\<close>, for the characters that remain.\<close>

fun typed_loop :: "bytes \<Rightarrow> nat \<Rightarrow> 32 word \<Rightarrow> nat \<Rightarrow> nat \<Rightarrow> string" where
  "typed_loop bs 0 acc bits i = []"
| "typed_loop bs (Suc n) acc bits i =
     (let (acc, bits, i) =
            (if bits < 5 then ((push_bit 8 acc OR ucast (bs ! i)) AND 0xffff, bits + 8, i + 1)
             else (acc, bits, i));
          bits = bits - 5
      in CROCKFORD ! unat (drop_bit bits acc AND 0x1f) # typed_loop bs n acc bits i)"

definition generate_typed_password :: "'h ckvf \<Rightarrow> 'h \<Rightarrow> string \<times> 'h" where
  "generate_typed_password K h =
     (case ck_random K 10 h of (bs, h') \<Rightarrow> (typed_loop bs 16 0 0 0, h'))"

definition typed_password_bytes :: "string \<Rightarrow> verr + bytes" where
  "typed_password_bytes typed =
     (let normalized = map to_ascii_upper (trim typed) in
      if length normalized \<noteq> 16 \<or> list_ex (\<lambda>c. c \<notin> set CROCKFORD) normalized
      then Inl (verr_msg ''pairing_password_mismatch''
        ''Typed pairing password must be 16 Crockford characters'')
      else Inr (bytes_of normalized))"

definition sid_material :: "string \<Rightarrow> string \<Rightarrow> bytes" where
  "sid_material session_id identity_id =
     bytes_of PAIRING_CPACE_SID_INFO @ [0] @ bytes_of session_id @ [0] @ bytes_of identity_id
       @ [0] @ bytes_of PAIRING_TIER"

definition pairing_sid :: "deps \<Rightarrow> string \<Rightarrow> string \<Rightarrow> bytes" where
  "pairing_sid D session_id identity_id = sha256 D (sid_material session_id identity_id)"

definition pairing_ci :: "string \<Rightarrow> bytes" where
  "pairing_ci identity_id = bytes_of identity_id"

text \<open>
  The expansion loop of HKDF for \<open>n\<close> more blocks: an HMAC-SHA-256 output has 32 bytes by its
  type, so \<open>while out.len() < length\<close> runs for \<open>length / 32\<close> blocks, rounded up.
\<close>

fun hkdf_blocks :: "deps \<Rightarrow> bytes \<Rightarrow> bytes \<Rightarrow> nat \<Rightarrow> bytes \<Rightarrow> byte \<Rightarrow> bytes \<Rightarrow> bytes" where
  "hkdf_blocks D prk info 0 t i out = out"
| "hkdf_blocks D prk info (Suc n) t i out =
     (let t = hmac_sha256 D prk (t @ info @ [i])
      in hkdf_blocks D prk info n t (i + 1) (out @ t))"

definition hkdf_sha256 :: "deps \<Rightarrow> bytes \<Rightarrow> bytes \<Rightarrow> nat \<Rightarrow> bytes option \<Rightarrow> bytes" where
  "hkdf_sha256 D ikm info len salt =
     (let salt = (case salt of Some s \<Rightarrow> s | None \<Rightarrow> replicate 32 0);
          prk = hmac_sha256 D salt ikm
      in take len (hkdf_blocks D prk info ((len + 31) div 32) [] 1 []))"

definition tek_info :: "string \<Rightarrow> bytes \<Rightarrow> bytes \<Rightarrow> string \<Rightarrow> bytes" where
  "tek_info session_id ya yb identity_id =
     bytes_of PAIRING_TEK_HKDF_INFO @ bytes_of session_id @ ya @ yb @ bytes_of identity_id
       @ bytes_of PAIRING_TIER @ bytes_of ''v2''"

definition pairing_tek :: "deps \<Rightarrow> bytes \<Rightarrow> string \<Rightarrow> bytes \<Rightarrow> bytes \<Rightarrow> string \<Rightarrow> bytes" where
  "pairing_tek D isk session_id ya yb identity_id =
     hkdf_sha256 D isk (tek_info session_id ya yb identity_id) 32 None"

definition pairing_transcript ::
  "'h ckvf \<Rightarrow> string \<Rightarrow> string \<Rightarrow> bytes \<Rightarrow> bytes \<Rightarrow> pairing_box \<Rightarrow> string" where
  "pairing_transcript K session_id identity_id ya yb confirmation_tag =
     PAIRING_TRANSCRIPT_HEADER
     @ nl @ ''session_id='' @ session_id
     @ nl @ ''identity='' @ identity_id
     @ nl @ ''requested_tier='' @ PAIRING_TIER
     @ nl @ ''ya='' @ ck_b64_encode K ya
     @ nl @ ''yb='' @ ck_b64_encode K yb
     @ nl @ ''confirmation_tag='' @ box_wire K confirmation_tag @ nl"

definition pairing_seal :: "'h ckvf \<Rightarrow> bytes \<Rightarrow> bytes \<Rightarrow> ('h, verr, pairing_box) act" where
  "pairing_seal K key plaintext =
     abind (effect (ck_random K 12)) (\<lambda>iv.
     abind (alift (map_err from_ckvf (ck_aes_encrypt K key iv plaintext []))) (\<lambda>(ct, tag).
     aret \<lparr>bx_iv = iv, bx_ciphertext = ct @ tag\<rparr>))"

definition pairing_open :: "'h ckvf \<Rightarrow> bytes \<Rightarrow> pairing_box \<Rightarrow> verr + bytes" where
  "pairing_open K key box =
     (let n = length (bx_ciphertext box) in
      if n < 16 then Inl (verr_msg ''pairing_protocol_error'' ''box is truncated'')
      else map_err (\<lambda>_. verr_msg ''pairing_password_mismatch''
             ''the confirmation failed: wrong password or tampering'')
           (ck_aes_decrypt K key (bx_iv box) (take (n - 16) (bx_ciphertext box))
             (drop (n - 16) (bx_ciphertext box)) []))"

section \<open>The URI round trip\<close>

lemma from_hex_upper_digit: "n < 16 \<Longrightarrow> from_hex (upper_digit n) = Some (word_of_nat n)"
proof -
  assume "n < 16"
  then have "n = 0 \<or> n = 1 \<or> n = 2 \<or> n = 3 \<or> n = 4 \<or> n = 5 \<or> n = 6 \<or> n = 7 \<or> n = 8 \<or> n = 9
      \<or> n = 10 \<or> n = 11 \<or> n = 12 \<or> n = 13 \<or> n = 14 \<or> n = 15"
    by arith
  then show ?thesis
    by (elim disjE) (simp_all add: from_hex_def upper_digit_def is_digit_def byte_of_def)
qed

lemma nibbles_or:
  fixes b :: byte
  shows "push_bit 4 (word_of_nat (unat b div 16)) OR word_of_nat (unat b mod 16) = b"
proof -
  have "unat b div 16 = unat (drop_bit 4 b)"
    by (simp add: drop_bit_eq_div unat_div)
  moreover have "unat b mod 16 = unat (take_bit 4 b)"
    by (simp add: take_bit_eq_mod unat_mod)
  ultimately show ?thesis
    by (simp only: of_nat_unat ucast_id) (rule bit_eqI, auto simp: bit_simps)
qed

lemma url_decode_escape:
  "url_decode_bytes (CHR ''%'' # upper_hex2 b @ s) = b # url_decode_bytes s"
  by (simp add: upper_hex2_def from_hex_upper_digit byte_nibbles nibbles_or)

lemma url_decode_plain:
  "c \<noteq> CHR ''%'' \<Longrightarrow> c \<noteq> CHR ''+'' \<Longrightarrow> url_decode_bytes (c # s) = byte_of c # url_decode_bytes s"
  by (simp add: plus_to_space_def)

lemma url_decode_encode: "url_decode_bytes (urlencoding_encode s) = bytes_of s"
proof (induction s)
  case Nil
  then show ?case by (simp add: urlencoding_encode_def bytes_of_def)
next
  case (Cons c s)
  have "unreserved c \<Longrightarrow> c \<noteq> CHR ''+''"
    by (auto simp: unreserved_def is_alnum_def is_digit_def is_upper_def is_lower_def)
  then show ?case
    using Cons by (auto simp: urlencoding_Cons url_decode_escape url_decode_plain
        percent_not_unreserved bytes_of_def simp del: url_decode_bytes.simps(2))
qed

lemma urlencoding_decode_encode:
  "utf8_valid s \<Longrightarrow> urlencoding_decode (urlencoding_encode s) = s"
  by (simp add: urlencoding_decode_def url_decode_encode from_utf8_lossy_valid)

lemma urlencoding_chars:
  "list_all (\<lambda>c. unreserved c \<or> c = CHR ''%'') (urlencoding_encode s)"
proof (induction s)
  case Nil
  then show ?case by (simp add: urlencoding_encode_def)
next
  case (Cons c s)
  have "list_all (\<lambda>c. unreserved c \<or> c = CHR ''%'') (upper_hex2 b)" for b
    using upper_digit_class [of "unat b div 16"] upper_digit_class [of "unat b mod 16"]
    by (auto simp: upper_hex2_def byte_nibbles unreserved_def is_alnum_def is_upper_def)
  with Cons show ?case by (auto simp: urlencoding_Cons)
qed

lemma urlencoding_absent:
  "\<not> unreserved c \<Longrightarrow> c \<noteq> CHR ''%'' \<Longrightarrow> c \<notin> set (urlencoding_encode s)"
  using urlencoding_chars [of s] by (auto simp: list_all_iff)

lemma reserved_chars [simp]:
  "\<not> unreserved CHR ''&''" "\<not> unreserved CHR ''=''" "\<not> unreserved CHR ''?''"
  by (simp_all add: unreserved_def is_alnum_def is_digit_def is_upper_def is_lower_def)

lemma url_char_class:
  assumes "unreserved c \<or> c = CHR ''%''"
  shows "ascii c" "\<not> char_is_whitespace [c]"
  using assms
  by (auto simp: unreserved_def is_alnum_def is_digit_def is_upper_def is_lower_def ascii_def
      char_is_whitespace_def)

lemma urlencoding_Nil_iff [simp]: "urlencoding_encode s = [] \<longleftrightarrow> s = []"
  by (cases s) (auto simp: urlencoding_encode_def)

lemma list_all_url_ascii: "list_all ascii (urlencoding_encode s)"
  using urlencoding_chars [of s] url_char_class(1) by (auto simp: list_all_iff)

lemma b64url_utf8_valid: "list_all b64url_char s \<Longrightarrow> utf8_valid s"
  by (rule utf8_valid_ascii) (auto simp: list_all_iff b64url_char_ascii)

lemma trim_uri:
  assumes "pu_password u \<noteq> []" "ck_b64_doc K"
  shows "trim (to_uri_string K u) = to_uri_string K u"
proof (rule trim_ascii_id)
  let ?pw = "urlencoding_encode (ck_b64_encode K (pu_password u))"
  show "list_all ascii (to_uri_string K u)"
    using list_all_url_ascii
    by (simp add: to_uri_string_def PAIRING_URI_SCHEME_def PAIRING_URI_VERSION_def ascii_def)
  show "\<not> char_is_whitespace [hd (to_uri_string K u)]"
    by (simp add: to_uri_string_def PAIRING_URI_SCHEME_def char_is_whitespace_def)
  have ne: "?pw \<noteq> []" using assms by (simp add: ck_b64_docD(3))
  then have "last (to_uri_string K u) = last ?pw" by (simp add: to_uri_string_def)
  moreover have "last ?pw \<in> set ?pw" using ne by simp
  ultimately show "\<not> char_is_whitespace [last (to_uri_string K u)]"
    using urlencoding_chars [of "ck_b64_encode K (pu_password u)"] url_char_class(2)
    by (auto simp: list_all_iff)
qed

text \<open>
  C22. The QR code is read back: for a non-empty session id and a password of at least the 16
  bytes a scanned password has, parsing the URI gives the session id and the password.
\<close>

theorem pairing_uri_roundtrip:
  assumes "ck_b64_doc K" and "utf8_valid (pu_session_id u)" and "pu_session_id u \<noteq> []"
    and "length (pu_password u) \<ge> 16"
  shows "try_parse K (to_uri_string K u) = Some u"
proof -
  let ?sid = "urlencoding_encode (pu_session_id u)"
  let ?pw = "urlencoding_encode (ck_b64_encode K (pu_password u))"
  let ?rest = "''sid='' @ ?sid @ ''&pw='' @ ?pw"
  have pw: "pu_password u \<noteq> []" using assms(4) by auto
  have uri: "to_uri_string K u = (PAIRING_URI_SCHEME @ '':'') @ PAIRING_URI_VERSION @ ''?'' @ ?rest"
    by (simp add: to_uri_string_def)
  have ver: "CHR ''?'' \<notin> set PAIRING_URI_VERSION"
    by (simp add: PAIRING_URI_VERSION_def)
  have parts: "split_char (CHR ''&'') ?rest = [''sid='' @ ?sid, ''pw='' @ ?pw]"
    using split_char_append [of "CHR ''&''" "''sid='' @ ?sid" "''pw='' @ ?pw"]
      split_char_absent [of "CHR ''&''" "''pw='' @ ?pw"]
    by (simp add: urlencoding_absent)
  have sid: "query_part (''sid='' @ ?sid) acc = (Some (pu_session_id u), snd acc)" for acc
    using split_once_append [of "CHR ''=''" "''sid''" ?sid] assms(2)
    by (simp add: query_part_def urlencoding_decode_encode)
  have "utf8_valid (ck_b64_encode K (pu_password u))"
    by (rule b64url_utf8_valid [OF ck_b64_docD(2) [OF assms(1)]])
  then have pwp: "query_part (''pw='' @ ?pw) acc
      = (fst acc, Some (ck_b64_encode K (pu_password u)))" for acc
    using split_once_append [of "CHR ''=''" "''pw''" ?pw]
    by (simp add: query_part_def urlencoding_decode_encode)
  have "parse_query K ?rest = Some u"
    using assms pw by (simp add: parse_query_def parts sid pwp ck_b64_docD del: append_Cons)
  then show ?thesis
    using trim_uri [OF pw assms(1)] ver unfolding try_parse_def
    by (simp add: uri del: append_assoc)
qed

theorem pairing_uri_roundtrip_witness:
  "try_parse sample_ckvf (to_uri_string sample_ckvf
     \<lparr>pu_session_id = ''s/1'', pu_password = replicate 16 5\<rparr>)
   = Some \<lparr>pu_session_id = ''s/1'', pu_password = replicate 16 5\<rparr>"
  by (rule pairing_uri_roundtrip) (simp_all add: utf8_valid_ascii ascii_def)

section \<open>The typed password\<close>

text \<open>The number that bytes, and Crockford characters, stand for, most significant first.\<close>

fun be_val :: "bytes \<Rightarrow> nat" where
  "be_val [] = 0"
| "be_val (b # bs) = unat b * 256 ^ length bs + be_val bs"

definition crockford_digit :: "char \<Rightarrow> nat" where
  "crockford_digit c = length (takeWhile (\<lambda>x. x \<noteq> c) CROCKFORD)"

definition crockford_val :: "nat \<Rightarrow> string \<Rightarrow> nat" where
  "crockford_val start s = foldl (\<lambda>n c. 32 * n + crockford_digit c) start s"

lemma length_CROCKFORD [simp]: "length CROCKFORD = 32"
  by (simp add: CROCKFORD_def)

lemma distinct_CROCKFORD: "distinct CROCKFORD"
  by (simp add: CROCKFORD_def)

lemma crockford_digit_nth: "n < 32 \<Longrightarrow> crockford_digit (CROCKFORD ! n) = n"
proof -
  assume n: "n < 32"
  have "takeWhile (\<lambda>x. x \<noteq> CROCKFORD ! n) CROCKFORD = take n CROCKFORD"
  proof (rule takeWhile_eq_take_P_nth)
    fix i assume "i < n" "i < length CROCKFORD"
    then show "CROCKFORD ! i \<noteq> CROCKFORD ! n"
      using n distinct_CROCKFORD by (simp add: nth_eq_iff_index_eq)
  qed simp
  then show ?thesis using n by (simp add: crockford_digit_def)
qed

lemma unat_shift_in:
  fixes acc :: "32 word" and b :: byte
  assumes "unat acc < 2 ^ 16"
  shows "unat ((push_bit 8 acc OR ucast b) AND 0xffff) = (unat acc * 256 + unat b) mod 2 ^ 16"
proof -
  have disj: "push_bit 8 acc AND ucast b = 0"
    by (rule bit_eqI) (auto simp: bit_simps dest: bit_imp_le_length)
  have "push_bit 8 acc OR ucast b = push_bit 8 acc + ucast b"
    using disj by (simp add: disjunctive_add_eq_or)
  moreover have "unat (push_bit 8 acc) = unat acc * 256"
    using assms by (simp add: push_bit_eq_mult unat_word_ariths)
  moreover have "unat (ucast b :: 32 word) = unat b"
  proof -
    have "unat b < 4294967296" using unat_byte_less [of b] by linarith
    then show ?thesis by (simp add: unsigned_ucast_eq take_bit_eq_mod)
  qed
  moreover have "unat acc * 256 + unat b < 4294967296"
    using assms [simplified] unat_byte_less [of b] by linarith
  ultimately have "unat (push_bit 8 acc OR ucast b) = unat acc * 256 + unat b"
    by (simp add: unat_word_ariths)
  moreover have "x AND 0xffff = take_bit 16 x" for x :: "32 word"
    by (simp add: take_bit_eq_mask mask_eq_exp_minus_1)
  ultimately show ?thesis by (simp add: unat_mod take_bit_eq_mod)
qed

lemma unat_digit:
  fixes acc :: "32 word"
  shows "unat (drop_bit n acc AND 0x1f) = unat acc div 2 ^ n mod 32"
proof -
  have "drop_bit n acc AND 0x1f = take_bit 5 (drop_bit n acc)"
    by (simp add: take_bit_eq_mask mask_eq_exp_minus_1)
  then have "unat (drop_bit n acc AND 0x1f) = take_bit 5 (drop_bit n (unat acc))"
    by (simp only: unsigned_take_bit_eq unat_drop_bit_eq)
  then show ?thesis by (simp add: take_bit_eq_mod drop_bit_eq_div)
qed

lemma typed_loop_val:
  assumes "5 * n = bits + 8 * (length bs - i)" and "i \<le> length bs" and "bits < 13"
    and "unat acc < 2 ^ 16"
  shows "crockford_val start (typed_loop bs n acc bits i)
    = (start * 2 ^ bits + unat acc mod 2 ^ bits) * 256 ^ (length bs - i) + be_val (drop i bs)"
  using assms
proof (induction n arbitrary: acc bits i start)
  case 0
  then show ?case by (simp add: crockford_val_def)
next
  case (Suc n)
  define refill where "refill = (bits < 5)"
  define acc' where "acc' = (if refill then (push_bit 8 acc OR ucast (bs ! i)) AND 0xffff else acc)"
  define bits' where "bits' = (if refill then bits + 8 else bits)"
  define i' where "i' = (if refill then i + 1 else i)"
  have i: "i < length bs" if refill
    using Suc.prems that by (cases "i = length bs") (auto simp: refill_def)
  have bits': "5 \<le> bits'" "bits' < 13" and i': "i' \<le> length bs"
    using Suc.prems i by (auto simp: bits'_def i'_def refill_def)
  have acc': "unat acc' = (if refill then (unat acc * 256 + unat (bs ! i)) mod 2 ^ 16 else unat acc)"
    using unat_shift_in [OF Suc.prems(4), of "bs ! i"] by (simp add: acc'_def)
  then have acc'_less: "unat acc' < 2 ^ 16" using Suc.prems(4) by simp
  have budget: "5 * n = (bits' - 5) + 8 * (length bs - i')"
    using Suc.prems(1) i bits' by (auto simp: bits'_def i'_def refill_def)
  let ?d = "unat acc' div 2 ^ (bits' - 5) mod 32"
  have loop: "typed_loop bs (Suc n) acc bits i
      = CROCKFORD ! ?d # typed_loop bs n acc' (bits' - 5) i'"
    by (simp add: acc'_def bits'_def i'_def refill_def unat_digit Let_def)
  text \<open>One digit leaves the accumulator.\<close>
  have pow5: "(2::nat) ^ bits' = 2 ^ (bits' - 5) * 32"
  proof -
    obtain k where "bits' = 5 + k" using le_Suc_ex [OF bits'(1)] by blast
    then show ?thesis by (simp add: power_add)
  qed
  have split: "unat acc' mod 2 ^ bits' = ?d * 2 ^ (bits' - 5) + unat acc' mod 2 ^ (bits' - 5)"
    by (simp add: pow5 mod_mult2_eq)
  text \<open>A refill moves a byte from the input to the accumulator.\<close>
  have move: "(start * 2 ^ bits' + unat acc' mod 2 ^ bits') * 256 ^ (length bs - i') + be_val (drop i' bs)
      = (start * 2 ^ bits + unat acc mod 2 ^ bits) * 256 ^ (length bs - i) + be_val (drop i bs)"
  proof (cases refill)
    case False
    then show ?thesis by (simp add: acc' bits'_def i'_def)
  next
    case True
    note i = i [OF True]
    have b: "unat (bs ! i) < 2 ^ 8" using unat_byte_less by simp
    have "(unat acc * 256 + unat (bs ! i)) mod 2 ^ 16 mod 2 ^ (bits + 8)
        = (unat acc * 256 + unat (bs ! i)) mod 2 ^ (bits + 8)"
    proof -
      have "(2::nat) ^ (bits + 8) dvd 2 ^ 16"
        using True by (intro le_imp_power_dvd) (simp add: refill_def)
      then show ?thesis by (rule mod_mod_cancel)
    qed
    also have "\<dots> = (unat acc mod 2 ^ bits) * 256 + unat (bs ! i)"
    proof -
      have "(unat acc * 256 + unat (bs ! i)) mod (256 * 2 ^ bits)
          = 256 * ((unat acc * 256 + unat (bs ! i)) div 256 mod 2 ^ bits)
            + (unat acc * 256 + unat (bs ! i)) mod 256"
        by (rule mod_mult2_eq)
      also have "(unat acc * 256 + unat (bs ! i)) div 256 = unat acc" using b by simp
      also have "(unat acc * 256 + unat (bs ! i)) mod 256 = unat (bs ! i)" using b by simp
      finally show ?thesis by (simp add: power_add mult.commute)
    qed
    finally have m: "unat acc' mod 2 ^ bits' = (unat acc mod 2 ^ bits) * 256 + unat (bs ! i)"
      using True by (simp add: acc' bits'_def)
    have drop: "drop i bs = bs ! i # drop (i + 1) bs"
      using i by (simp add: Cons_nth_drop_Suc)
    have pow: "(256::nat) ^ (length bs - i) = 256 * 256 ^ (length bs - (i + 1))"
      using i by (simp add: Suc_diff_Suc flip: power_Suc)
    show ?thesis
      unfolding m drop pow using True by (simp add: bits'_def i'_def power_add algebra_simps)
  qed
  have "crockford_val start (typed_loop bs (Suc n) acc bits i)
      = crockford_val (32 * start + ?d) (typed_loop bs n acc' (bits' - 5) i')"
    by (simp add: loop crockford_val_def crockford_digit_nth del: typed_loop.simps)
  also have "\<dots> = ((32 * start + ?d) * 2 ^ (bits' - 5) + unat acc' mod 2 ^ (bits' - 5))
      * 256 ^ (length bs - i') + be_val (drop i' bs)"
    using Suc.IH [OF budget i' _ acc'_less] bits' by simp
  also have "(32 * start + ?d) * 2 ^ (bits' - 5) + unat acc' mod 2 ^ (bits' - 5)
      = start * 2 ^ bits' + unat acc' mod 2 ^ bits'"
    by (simp add: split) (simp add: pow5 algebra_simps)
  also note move
  finally show ?case .
qed

lemma typed_loop_chars:
  "length (typed_loop bs n acc bits i) = n \<and> set (typed_loop bs n acc bits i) \<subseteq> set CROCKFORD"
proof (induction n arbitrary: acc bits i)
  case 0
  then show ?case by simp
next
  case (Suc n)
  obtain k b i' and a :: "32 word" where loop: "typed_loop bs (Suc n) acc bits i
      = CROCKFORD ! unat (drop_bit k a AND 0x1f) # typed_loop bs n a b i'"
  proof (cases "bits < 5")
    case True
    show ?thesis
      by (rule that [of "bits + 8 - 5" "(push_bit 8 acc OR ucast (bs ! i)) AND 0xffff" "bits + 8 - 5"
            "i + 1"]) (simp add: True Let_def)
  next
    case False
    show ?thesis by (rule that [of "bits - 5" acc "bits - 5" i]) (simp add: False Let_def)
  qed
  have "unat (drop_bit k a AND 0x1f) < length CROCKFORD"
    unfolding unat_digit by simp
  then have "CROCKFORD ! unat (drop_bit k a AND 0x1f) \<in> set CROCKFORD"
    by (rule nth_mem)
  with Suc show ?case unfolding loop by (simp del: typed_loop.simps)
qed

text \<open>
  C23. The typed password is the ten random bytes in base 32: the loop with its 16-bit
  accumulator writes 16 Crockford characters that stand for the same 80-bit number as the
  bytes, so that no entropy is lost, and reads no byte past the tenth; typing it back, in
  either case, gives the password bytes.
\<close>

theorem typed_password_base32:
  assumes "ck_random_doc K" and "generate_typed_password K h = (typed, h')"
  shows "length typed = 16 \<and> set typed \<subseteq> set CROCKFORD
    \<and> crockford_val 0 typed = be_val (fst (ck_random K 10 h))
    \<and> typed_password_bytes typed = Inr (bytes_of typed)"
proof -
  obtain bs where bs: "ck_random K 10 h = (bs, h')" and typed: "typed = typed_loop bs 16 0 0 0"
    using assms(2) by (auto simp: generate_typed_password_def split: prod.splits)
  have len: "length bs = 10" using assms(1) bs by (metis ck_random_doc_def fst_conv)
  have chars: "length typed = 16" "set typed \<subseteq> set CROCKFORD"
    using typed_loop_chars [of bs 16 0 0 0] by (simp_all add: typed)
  have val: "crockford_val 0 typed = be_val bs"
    using typed_loop_val [of 16 0 bs 0 0 0] len by (simp add: typed)
  have upper: "to_ascii_upper c = c" "ascii c" "\<not> char_is_whitespace [c]" if "c \<in> set CROCKFORD" for c
  proof -
    have "list_all (\<lambda>c. to_ascii_upper c = c \<and> ascii c \<and> \<not> char_is_whitespace [c]) CROCKFORD"
      by (simp add: CROCKFORD_def to_ascii_upper_def is_lower_def ascii_def char_is_whitespace_def)
    with that show "to_ascii_upper c = c" "ascii c" "\<not> char_is_whitespace [c]"
      by (auto simp: list_all_iff)
  qed
  have ne: "typed \<noteq> []" using chars(1) by auto
  have "trim typed = typed"
    using chars(2) hd_in_set [OF ne] last_in_set [OF ne] upper(2,3)
    by (intro trim_ascii_id) (auto simp: list_all_iff subset_iff)
  moreover have "map to_ascii_upper typed = typed"
    using chars(2) upper(1) by (intro map_idI) auto
  ultimately have "typed_password_bytes typed = Inr (bytes_of typed)"
    using chars by (auto simp: typed_password_bytes_def list_ex_iff)
  with chars val bs show ?thesis by simp
qed

theorem typed_password_base32_witness:
  "\<exists>typed. typed_password_bytes typed = Inr (bytes_of typed) \<and> length typed = 16"
  using typed_password_base32 [OF sample_ckvf_ok(2) prod.collapse [symmetric], of 0] by blast

section \<open>What a pairing signs and seals\<close>

lemma transcript_lines:
  "pairing_transcript K sid iid ya yb tag =
     lines_text [PAIRING_TRANSCRIPT_HEADER, ''session_id='' @ sid, ''identity='' @ iid,
       ''requested_tier='' @ PAIRING_TIER, ''ya='' @ ck_b64_encode K ya,
       ''yb='' @ ck_b64_encode K yb, ''confirmation_tag='' @ box_wire K tag]"
  by (simp add: lines_text_def pairing_transcript_def)

lemma one_line_transcript_parts [simp]:
  "one_line PAIRING_TRANSCRIPT_HEADER" "one_line PAIRING_TIER"
  by (simp_all add: PAIRING_TRANSCRIPT_HEADER_def PAIRING_TIER_def)

lemma one_line_b64: "ck_b64_doc K \<Longrightarrow> one_line (ck_b64_encode K bs)"
  by (rule one_line_b64url [OF ck_b64_docD(2)])

lemma box_wire_inject:
  assumes "ck_b64_doc K" "length (bx_iv tag) = 12" "length (bx_iv tag') = 12"
  shows "box_wire K tag = box_wire K tag' \<longleftrightarrow> tag = tag'"
  using assms ck_b64_inject [OF assms(1)]
  by (cases tag; cases tag') (auto simp: box_wire_def append_eq_same_length)

lemma transcript_inject:
  assumes "ck_b64_doc K" and "list_all one_line [sid, iid, sid', iid']"
    and "length (bx_iv tag) = 12" and "length (bx_iv tag') = 12"
  shows "pairing_transcript K sid iid ya yb tag = pairing_transcript K sid' iid' ya' yb' tag'
    \<longleftrightarrow> sid = sid' \<and> iid = iid' \<and> ya = ya' \<and> yb = yb' \<and> tag = tag'"
proof -
  note b = one_line_b64 [OF assms(1)]
  have wire: "one_line (box_wire K x)" for x by (simp add: box_wire_def b)
  show ?thesis
    using assms(2) box_wire_inject [OF assms(1,3,4)] ck_b64_inject [OF assms(1)]
    unfolding transcript_lines by (auto simp: lines_text_inject b wire)
qed

lemma transcript_disjoint:
  assumes "ck_b64_doc K" and "list_all one_line [sid, iid]"
  shows "list_all one_line [i, v, gh]
      \<Longrightarrow> pairing_transcript K sid iid ya yb tag \<noteq> vault_records_signing_text i v g gh"
    and "list_all one_line [op, p, n, ph]
      \<Longrightarrow> pairing_transcript K sid iid ya yb tag \<noteq> envelope_text op p t n ph"
proof -
  note b = one_line_b64 [OF assms(1)]
  have wire: "one_line (box_wire K x)" for x by (simp add: box_wire_def b)
  have hdr: "PAIRING_TRANSCRIPT_HEADER \<noteq> vault_domain_separator x" for x
    by (simp add: PAIRING_TRANSCRIPT_HEADER_def vault_domain_separator_canonical domain_separator_def
        show_int_def show_nat.simps [of "Suc 0"])
  show "list_all one_line [i, v, gh]
      \<Longrightarrow> pairing_transcript K sid iid ya yb tag \<noteq> vault_records_signing_text i v g gh"
    "list_all one_line [op, p, n, ph]
      \<Longrightarrow> pairing_transcript K sid iid ya yb tag \<noteq> envelope_text op p t n ph"
    using assms(2) hdr unfolding transcript_lines text_lines
    by (auto simp: lines_text_inject b wire)
qed

lemma transcript_ambiguous:
  "pairing_transcript K (s @ nl @ ''identity='' @ i) i' ya yb tag
     = pairing_transcript K s (i @ nl @ ''identity='' @ i') ya yb tag"
  by (simp add: pairing_transcript_def)

text \<open>
  C24. The pairing transcript binds the pairing when the session and the identity id are single
  lines, and is then nothing else the MSK signs: two equal transcripts have the same session,
  identity, public elements and confirmation box (whose iv has the 12 bytes that \<open>seal\<close> makes
  and \<open>from_json\<close> requires), and no transcript is a records upload text or a request envelope text
  of single-line fields. The code does not check the ids here, and a line break makes the
  transcript ambiguous: it can be moved from the session id to the identity id.
\<close>

theorem pairing_transcript_binds:
  assumes "ck_b64_doc K" and "list_all one_line [sid, iid, sid', iid']"
    and "length (bx_iv tag) = 12" and "length (bx_iv tag') = 12"
  shows "(pairing_transcript K sid iid ya yb tag = pairing_transcript K sid' iid' ya' yb' tag'
      \<longrightarrow> sid = sid' \<and> iid = iid' \<and> ya = ya' \<and> yb = yb' \<and> tag = tag')
    \<and> (list_all one_line [i, v, gh, op, p, n, ph] \<longrightarrow>
        pairing_transcript K sid iid ya yb tag \<noteq> vault_records_signing_text i v g gh
        \<and> pairing_transcript K sid iid ya yb tag \<noteq> envelope_text op p t n ph)
    \<and> pairing_transcript K (s @ nl @ ''identity='' @ i1) i2 ya yb tag
        = pairing_transcript K s (i1 @ nl @ ''identity='' @ i2) ya yb tag"
  using transcript_inject [OF assms, of ya yb ya' yb'] transcript_disjoint [OF assms(1), of sid iid] assms(2)
    transcript_ambiguous [of K s i1 i2 ya yb tag]
  by simp

theorem pairing_transcript_binds_witness:
  "pairing_transcript sample_ckvf ''s'' ''i'' [1] [2] \<lparr>bx_iv = replicate 12 0, bx_ciphertext = []\<rparr>
     \<noteq> vault_records_signing_text ''i'' ''v'' 1 ''h''
   \<and> pairing_transcript sample_ckvf ''s'' ''i'' [1] [2] \<lparr>bx_iv = replicate 12 0, bx_ciphertext = []\<rparr>
     \<noteq> pairing_transcript sample_ckvf ''s'' ''i'' [1] [3] \<lparr>bx_iv = replicate 12 0, bx_ciphertext = []\<rparr>"
  using pairing_transcript_binds [of sample_ckvf "''s''" "''i''" "''s''" "''i''"
      "\<lparr>bx_iv = replicate 12 0, bx_ciphertext = []\<rparr>" "\<lparr>bx_iv = replicate 12 0, bx_ciphertext = []\<rparr>"
      "[1]" "[2]" "[1]" "[3]" "''i''" "''v''" "''h''" "''''" "''''" "''''" "''''" 1 0]
  by simp

lemma sid_material_inject:
  assumes "0 \<notin> set (bytes_of s)" "0 \<notin> set (bytes_of s')" "0 \<notin> set (bytes_of i)" "0 \<notin> set (bytes_of i')"
  shows "sid_material s i = sid_material s' i' \<longleftrightarrow> s = s' \<and> i = i'"
  using assms by (simp add: sid_material_def append_sep_eq)

lemma tek_info_inject:
  assumes "length ya = 32" "length yb = 32" "length ya' = 32" "length yb' = 32"
    and "length i = length i'"
  shows "tek_info s ya yb i = tek_info s' ya' yb' i' \<longleftrightarrow> s = s' \<and> ya = ya' \<and> yb = yb' \<and> i = i'"
proof
  assume eq: "tek_info s ya yb i = tek_info s' ya' yb' i'"
  then have "length s = length s'"
    using arg_cong [OF eq, of length] assms by (simp add: tek_info_def)
  with eq assms show "s = s' \<and> ya = ya' \<and> yb = yb' \<and> i = i'"
    by (simp add: tek_info_def append_eq_same_length)
qed simp

lemma pairing_seal_open:
  assumes "ck_aes_doc K" "pairing_seal K key pt h = (Inr box, h')"
  shows "pairing_open K key box = Inr pt"
proof -
  obtain iv ct tag where e: "ck_aes_encrypt K key iv pt [] = Inr (ct, tag)"
    and box: "box = \<lparr>bx_iv = iv, bx_ciphertext = ct @ tag\<rparr>"
    using assms(2) by (auto simp: pairing_seal_def abind_Inr_iff)
  from ck_aes_docD [OF assms(1) e] show ?thesis by (simp add: pairing_open_def box)
qed

lemma pairing_seal_iv:
  "ck_random_doc K \<Longrightarrow> pairing_seal K key pt h = (Inr box, h') \<Longrightarrow> length (bx_iv box) = 12"
  by (auto simp: pairing_seal_def abind_Inr_iff ck_random_doc_def) (metis fst_conv)

lemma box_json_roundtrip:
  "ck_b64_doc K \<Longrightarrow> length (bx_iv box) = 12 \<Longrightarrow> box_from_json K (box_to_json K box) = Inr box"
  by (simp add: box_from_json_def box_to_json_def decode_b64_field_def jget_str_def ck_b64_docD)

lemma hkdf_one_block:
  "hash_lengths D \<Longrightarrow> hkdf_sha256 D ikm info 32 None
     = hmac_sha256 D (hmac_sha256 D (replicate 32 0) ikm) (info @ [1])"
  by (simp add: hkdf_sha256_def hash_lengthsD Let_def)

end
