(* ===== verification/Pairing_Flow.thy ===== *)
theory Pairing_Flow
  imports Key_Vault Pairing_Protocol
begin

text \<open>
  \<open>crates/scomm-vault/src/pairing/pairing_flow.rs\<close>: both sides of a pairing through the
  host's mailbox. A polling loop may never end, so it takes fuel, one unit per round, and
  gives \<open>None\<close> when it runs out; between two rounds it calls \<open>sleep\<close>, which waits on native
  targets only. The future \<open>completed\<close> of an offer is \<open>await_response\<close> with the arguments kept
  in the offer. A \<open>Duration\<close> is a number of nanoseconds.
\<close>

section \<open>Helpers\<close>

text \<open>The target of the build, and \<open>std::thread::sleep\<close> on the environment.\<close>

datatype target = Native | Wasm32

record 'h platform =
  pl_target :: target
  pl_thread_sleep :: "nat \<Rightarrow> 'h \<Rightarrow> 'h"

definition pairing_sleep :: "'h platform \<Rightarrow> nat \<Rightarrow> 'h \<Rightarrow> 'h" where
  "pairing_sleep P d = (case pl_target P of Native \<Rightarrow> pl_thread_sleep P d | Wasm32 \<Rightarrow> (\<lambda>h. h))"

definition as_millis :: "nat \<Rightarrow> nat" where
  "as_millis d = d div 1000000"

record pairing_offer =
  po_session_id :: string
  po_password :: bytes
  po_typed_password :: "string option"
  po_expires_at_ms :: int
  po_state :: cpace_initiator \<comment> \<open>captured by \<open>completed\<close>, as is the interval\<close>
  po_poll_interval :: nat

definition offer_uri :: "'h ckvf \<Rightarrow> pairing_offer \<Rightarrow> string" where
  "offer_uri K o' = to_uri_string K \<lparr>pu_session_id = po_session_id o', pu_password = po_password o'\<rparr>"

record pending_pairing =
  pp_session_id :: string
  pp_device_name :: string
  pp_device_id :: string
  pp_ya :: bytes

definition refuse_v1 :: "json \<Rightarrow> verr + unit" where
  "refuse_v1 body =
     (if jget body ''b_ephemeral_public_key'' \<noteq> None \<or> jget body ''a_ephemeral_public_key'' \<noteq> None
      then Inl (verr_msg ''pairing_protocol_unsupported''
        ''the pairing mailbox spoke v1 ECDH; CPace v2 is required'')
      else Inr ())"

definition pf_decode_len :: "'h ckvf \<Rightarrow> string \<Rightarrow> nat \<Rightarrow> verr + bytes" where
  "pf_decode_len K s len =
     and_then (map_err (verr_msg ''bad_response'') (ck_b64_decode K s)) (\<lambda>b.
       if length b \<noteq> len
       then Inl (verr_msg ''bad_response'' (''expected '' @ show_nat len @ '' bytes'')) else Inr b)"

definition chrono_parse_ms :: "string \<Rightarrow> int option" where
  "chrono_parse_ms s = None"

text \<open>\<open>i64\<close> arithmetic of a release build.\<close>

definition i64_wrap :: "int \<Rightarrow> int" where
  "i64_wrap x = signed_take_bit 63 x"

definition str_or_empty :: "json \<Rightarrow> string \<Rightarrow> string" where
  "str_or_empty body k = (case jget_str body k of Some s \<Rightarrow> s | None \<Rightarrow> [])"

section \<open>The new device\<close>

definition start_pairing ::
  "deps \<Rightarrow> 'h ckvf \<Rightarrow> ('s :: field, 'p, 'h) curve \<Rightarrow> 'h host_api \<Rightarrow> string \<Rightarrow> string \<Rightarrow> string
     \<Rightarrow> bool \<Rightarrow> nat \<Rightarrow> u64 \<Rightarrow> ('h, verr, pairing_offer) act" where
  "start_pairing D K C H identity_id device_name device_id typed_password poll_interval
      expires_in_seconds =
     abind (effect (generate_session_id K)) (\<lambda>session_id.
     abind (if typed_password
         then abind (effect (generate_typed_password K)) (\<lambda>t. aret (Some t)) else aret None) (\<lambda>typed.
     abind (case typed of
         Some t \<Rightarrow> alift (typed_password_bytes t)
       | None \<Rightarrow> effect (generate_high_entropy_password K)) (\<lambda>password.
     abind (effect (ck_random K 64)) (\<lambda>seed.
     abind (alift (cpace_start D C password (pairing_sid D session_id identity_id)
         (pairing_ci identity_id) seed)) (\<lambda>st.
     abind (ha_create_pairing H session_id (jobj [
         (''identity_id'', JStr identity_id), (''device_name'', JStr device_name),
         (''requested_tier'', JStr PAIRING_TIER),
         (''b_pake_element'', JStr (ck_b64_encode K (cp_ya st))),
         (''device_id'', JStr device_id), (''expires_in'', ju64 expires_in_seconds)])) (\<lambda>created.
     abind (case Option.bind (jget_str created ''expires_at'') chrono_parse_ms of
         Some t \<Rightarrow> aret t
       | None \<Rightarrow> abind (effect (ck_now_ms K)) (\<lambda>now.
           aret (i64_wrap (now + i64_wrap (sint expires_in_seconds * 1000))))) (\<lambda>expires_at_ms.
     aret \<lparr>po_session_id = session_id, po_password = password, po_typed_password = typed,
       po_expires_at_ms = expires_at_ms, po_state = st, po_poll_interval = poll_interval\<rparr>)))))))"

fun await_poll ::
  "'h ckvf \<Rightarrow> 'h host_api \<Rightarrow> 'h platform \<Rightarrow> string \<Rightarrow> string \<Rightarrow> int \<Rightarrow> nat \<Rightarrow> nat
     \<Rightarrow> ('h, verr, json option) act" where
  "await_poll K H P session_id device_id expires_at_ms poll_interval 0 = aret None"
| "await_poll K H P session_id device_id expires_at_ms poll_interval (Suc fuel) =
     abind (ha_get_pairing H session_id (Some device_id)) (\<lambda>body.
     abind (alift (refuse_v1 body)) (\<lambda>_.
     let s = str_or_empty body ''state'' in
     if s = ''RESPONDED'' \<and> jget_str body ''a_pake_element'' \<noteq> None then aret (Some body)
     else if s = ''COMPLETED'' \<or> s = ''RESPONDED'' then
       afail (verr_msg ''pairing_session_already_responded''
         ''the pairing response was already retrieved'')
     else
       abind (effect (ck_now_ms K)) (\<lambda>now.
       if now > expires_at_ms then
         afail (verr_msg ''pairing_session_expired'' ''the other device did not approve in time'')
       else
         abind (aupd (pairing_sleep P poll_interval)) (\<lambda>_.
         await_poll K H P session_id device_id expires_at_ms poll_interval fuel))))"

definition missing_v2 :: verr where
  "missing_v2 = verr_msg ''pairing_protocol_unsupported''
     ''the pairing response is missing CPace v2 fields''"

definition missing_token :: verr where
  "missing_token = verr_msg ''pairing_read_token_invalid''
     ''the pairing response has no vault_id and pairing_read_token''"

text \<open>What follows the loop: the response is opened and checked.\<close>

definition accept_response ::
  "deps \<Rightarrow> 'h ckvf \<Rightarrow> ('s :: field, 'p :: ab_group_add, 'h) curve \<Rightarrow> 'h host_api \<Rightarrow> string \<Rightarrow> string
     \<Rightarrow> cpace_initiator \<Rightarrow> json \<Rightarrow> ('h, verr, unlocked) act" where
  "accept_response D K C H identity_id session_id st body =
     abind (alift (pf_decode_len K (str_or_empty body ''a_pake_element'') 32)) (\<lambda>yb.
     abind (alift (ok_or missing_v2 (jget body ''confirmation_tag''))) (\<lambda>tag.
     abind (alift (ok_or missing_v2 (jget body ''vek_envelope''))) (\<lambda>vek_box.
     abind (alift (ok_or missing_v2 (jget_str body ''msk_signature''))) (\<lambda>sig.
     abind (alift (ok_or missing_token (jget_str body ''vault_id''))) (\<lambda>vid.
     abind (alift (ok_or missing_token (jget_str body ''pairing_read_token''))) (\<lambda>token.
     abind (alift (box_from_json K tag)) (\<lambda>confirmation.
     abind (alift (cpace_finish D C st yb)) (\<lambda>isk.
     let tek = pairing_tek D isk session_id (cp_ya st) yb identity_id in
     abind (alift (map_err (\<lambda>e. if verr_code e = ''pairing_password_mismatch'' then e
         else verr_msg ''pairing_password_mismatch''
           ''the confirmation failed: wrong password or tampering'')
         (pairing_open K tek confirmation))) (\<lambda>_.
     abind (alift (box_from_json K vek_box)) (\<lambda>vb.
     abind (alift (pairing_open K tek vb)) (\<lambda>vek.
     abind (current_record K H vid (pairing_read token)) (\<lambda>rd.
     abind (alift (ok_or (verr_msg ''vault_not_synced''
         ''the other device has not stored its vault on the host yet'') (rd_record rd))) (\<lambda>r.
     abind (alift (map_err from_ckvf (ck_open_vek K (ck_to_json K (vr_container r)) vek))) (\<lambda>opened.
     abind (alift (verify_record_signature K r opened identity_id)) (\<lambda>_.
     let transcript = bytes_of (pairing_transcript K session_id identity_id (cp_ya st) yb confirmation)
     in
     abind (alift (map_err (verr_msg ''bad_response'')
         (ck_b64_decode K (m_public (p_msk (u_payload opened)))))) (\<lambda>pk.
     abind (alift (pf_decode_len K sig 64)) (\<lambda>signature.
     if \<not> ck_ed_verify K pk transcript signature then
       afail (verr_msg ''pairing_signature_invalid''
         ''the pairing transcript is not signed by the vault MSK'')
     else aret opened)))))))))))))))))"

definition await_response ::
  "deps \<Rightarrow> 'h ckvf \<Rightarrow> ('s :: field, 'p :: ab_group_add, 'h) curve \<Rightarrow> 'h host_api \<Rightarrow> 'h platform
     \<Rightarrow> string \<Rightarrow> string \<Rightarrow> string \<Rightarrow> cpace_initiator \<Rightarrow> int \<Rightarrow> nat \<Rightarrow> nat
     \<Rightarrow> ('h, verr, unlocked option) act" where
  "await_response D K C H P identity_id session_id device_id st expires_at_ms poll_interval fuel =
     abind (await_poll K H P session_id device_id expires_at_ms poll_interval fuel) (\<lambda>polled.
     case polled of
       None \<Rightarrow> aret None
     | Some body \<Rightarrow>
         abind (accept_response D K C H identity_id session_id st body) (\<lambda>opened.
         aret (Some opened)))"

section \<open>The approving device\<close>

definition fetch_pairing_request ::
  "'h ckvf \<Rightarrow> 'h host_api \<Rightarrow> string \<Rightarrow> ('h, verr, pending_pairing) act" where
  "fetch_pairing_request K H session_id =
     abind (ha_get_pairing H session_id None) (\<lambda>body.
     abind (alift (refuse_v1 body)) (\<lambda>_.
     if jget_str body ''state'' \<noteq> Some ''PENDING'' then
       afail (verr_msg ''pairing_session_already_responded''
         (''the pairing session is not awaiting approval ('' @ str_or_empty body ''state'' @ '')''))
     else
       abind (alift (ok_or (verr_msg ''pairing_protocol_unsupported''
           ''the pending pairing session has no CPace element'')
           (jget_str body ''b_pake_element''))) (\<lambda>ya.
       abind (alift (pf_decode_len K ya 32)) (\<lambda>ya_bytes.
       aret \<lparr>pp_session_id = session_id, pp_device_name = str_or_empty body ''device_name'',
         pp_device_id = str_or_empty body ''device_id'', pp_ya = ya_bytes\<rparr>))))"

definition response_body ::
  "'h ckvf \<Rightarrow> string \<Rightarrow> bytes \<Rightarrow> pairing_box \<Rightarrow> pairing_box \<Rightarrow> bytes \<Rightarrow> json" where
  "response_body K identity_id yb vek_box tag sig = jobj [
     (''identity_id'', JStr identity_id),
     (''a_pake_element'', JStr (ck_b64_encode K yb)),
     (''vek_envelope'', box_to_json K vek_box),
     (''confirmation_tag'', box_to_json K tag),
     (''msk_signature'', JStr (ck_b64_encode K sig))]"

text \<open>The answer of the approving device, from the password to the body it posts.\<close>

definition build_response ::
  "deps \<Rightarrow> 'h ckvf \<Rightarrow> ('s :: field, 'p :: ab_group_add, 'h) curve \<Rightarrow> string \<Rightarrow> pending_pairing
     \<Rightarrow> bytes \<Rightarrow> ('st, 'h, json) kv_act" where
  "build_response D K C identity_id request password =
     abind (on_env (effect (ck_random K 64))) (\<lambda>seed.
     abind (alift (cpace_respond D C password (pairing_sid D (pp_session_id request) identity_id)
         (pairing_ci identity_id) (pp_ya request) seed)) (\<lambda>responded.
     let tek = pairing_tek D (cr_isk responded) (pp_session_id request) (pp_ya request)
           (cr_yb responded) identity_id in
     abind (on_env (pairing_seal K tek (bytes_of PAIRING_CONFIRM_PLAINTEXT))) (\<lambda>tag.
     abind (kv_get the_vault) (\<lambda>v.
     abind (on_env (pairing_seal K tek (u_vek v))) (\<lambda>vek_box.
     let transcript = bytes_of (pairing_transcript K (pp_session_id request) identity_id
           (pp_ya request) (cr_yb responded) tag) in
     abind (kv_get (kv_signer K)) (\<lambda>signer.
     abind (alift (signer_sign K signer transcript)) (\<lambda>sig.
     aret (response_body K identity_id (cr_yb responded) vek_box tag sig))))))))"

fun completion_poll ::
  "'h ckvf \<Rightarrow> 'h host_api \<Rightarrow> 'h platform \<Rightarrow> string \<Rightarrow> int \<Rightarrow> nat \<Rightarrow> nat \<Rightarrow> ('h, verr, unit option) act"
where
  "completion_poll K H P session_id deadline poll_interval 0 = aret None"
| "completion_poll K H P session_id deadline poll_interval (Suc fuel) =
     abind (ha_get_pairing H session_id None) (\<lambda>body.
     if jget_str body ''state'' = Some ''COMPLETED'' then aret (Some ())
     else
       abind (effect (ck_now_ms K)) (\<lambda>now.
       if now > deadline then
         afail (verr_msg ''pairing_session_expired''
           ''the new device did not collect the pairing response'')
       else
         abind (aupd (pairing_sleep P poll_interval)) (\<lambda>_.
         completion_poll K H P session_id deadline poll_interval fuel)))"

definition approve_pairing ::
  "deps \<Rightarrow> 'h ckvf \<Rightarrow> ('s :: field, 'p :: ab_group_add, 'h) curve \<Rightarrow> 'st store_api \<Rightarrow> 'h platform
     \<Rightarrow> pending_pairing \<Rightarrow> bytes \<Rightarrow> nat \<Rightarrow> nat \<Rightarrow> nat \<Rightarrow> ('st, 'h, unit option) kv_act" where
  "approve_pairing D K C S P request password poll_interval timeout fuel =
     abind (agets kv_binding) (\<lambda>binding.
     abind (alift (ok_or (verr_msg ''not_bound'' ''no vault host binding'') binding)) (\<lambda>b.
     abind (kv_push K S) (\<lambda>_.
     abind (build_response D K C (bd_identity_id b) request password) (\<lambda>body.
     abind (on_env (ha_respond_pairing (bd_host b) (pp_session_id request) body)) (\<lambda>_.
     abind (on_env (effect (ck_now_ms K))) (\<lambda>now.
     on_env (completion_poll K (bd_host b) P (pp_session_id request)
       (i64_wrap (now + i64_wrap (int (as_millis timeout)))) poll_interval fuel)))))))"

section \<open>A pairing completes\<close>

lemma get_response_body:
  "jget (response_body K i yb vek_box tag sig) ''a_pake_element'' = Some (JStr (ck_b64_encode K yb))"
  "jget (response_body K i yb vek_box tag sig) ''vek_envelope'' = Some (box_to_json K vek_box)"
  "jget (response_body K i yb vek_box tag sig) ''confirmation_tag'' = Some (box_to_json K tag)"
  "jget (response_body K i yb vek_box tag sig) ''msk_signature'' = Some (JStr (ck_b64_encode K sig))"
  by (simp_all add: response_body_def)

lemma kv_signer_env: "kv_signer K (w\<lparr>kv_env := h\<rparr>) = kv_signer K w"
  by (simp add: kv_signer_def msk_seed_def the_vault_def)

definition same_fields :: "string list \<Rightarrow> json \<Rightarrow> json \<Rightarrow> bool" where
  "same_fields ks a b \<longleftrightarrow> list_all (\<lambda>k. jget a k = jget b k) ks"

lemma pairing_accepts:
  assumes docs: "curve_doc C" "ck_b64_doc K" "ck_random_doc K" "ck_aes_doc K" "ck_signature_doc K"
    and start: "cpace_start D C password (pairing_sid D s iid) (pairing_ci iid) seed = Inr st"
    and req: "pp_session_id req = s" "pp_ya req = cp_ya st"
    and answer: "build_response D K C iid req password w = (Inr body, w')"
    and approver: "kv_vault w = Some v" "kv_signer K w = Inr signer"
    and msk: "ck_b64_decode K (m_public (p_msk (u_payload v))) = Inr (signer_public_key K signer)"
    and served: "same_fields [''a_pake_element'', ''vek_envelope'', ''confirmation_tag'', ''msk_signature'']
      served body" "jget_str served ''vault_id'' = Some vid"
      "jget_str served ''pairing_read_token'' = Some token"
    and host: "current_record K H vid (pairing_read token) h = (Inr rd, h')" "rd_record rd = Some r"
      "ck_open_vek K (ck_to_json K (vr_container r)) (u_vek v) = Inr opened"
      "verify_record_signature K r opened iid = Inr ()"
      "p_msk (u_payload opened) = p_msk (u_payload v)"
  shows "accept_response D K C H iid s st served h = (Inr opened, h')"
proof -
  obtain seed' responded tag vek_box sig h1 h2 h3 h4 where
    resp: "cpace_respond D C password (pairing_sid D s iid) (pairing_ci iid) (cp_ya st) seed'
      = Inr responded"
    and tag: "pairing_seal K (pairing_tek D (cr_isk responded) s (cp_ya st) (cr_yb responded) iid)
      (bytes_of PAIRING_CONFIRM_PLAINTEXT) h1 = (Inr tag, h2)"
    and vek: "pairing_seal K (pairing_tek D (cr_isk responded) s (cp_ya st) (cr_yb responded) iid)
      (u_vek v) h3 = (Inr vek_box, h4)"
    and sig: "signer_sign K signer
      (bytes_of (pairing_transcript K s iid (cp_ya st) (cr_yb responded) tag)) = Inr sig"
    and body: "body = response_body K iid (cr_yb responded) vek_box tag sig"
    using answer req approver
    by (auto simp: build_response_def run_iffs Let_def kv_signer_env)
  have yb: "length (cr_yb responded) = 32"
    using resp docs(1) by (auto simp: cpace_respond_def and_then_Inr_iff Let_def curve_docD)
  have finish: "cpace_finish D C st (cr_yb responded) = Inr (cr_isk responded)"
    by (rule cpace_agree [OF docs(1) start resp])
  have opens: "pairing_open K (pairing_tek D (cr_isk responded) s (cp_ya st) (cr_yb responded) iid) tag
        = Inr (bytes_of PAIRING_CONFIRM_PLAINTEXT)"
      "pairing_open K (pairing_tek D (cr_isk responded) s (cp_ya st) (cr_yb responded) iid) vek_box
        = Inr (u_vek v)"
    using pairing_seal_open [OF docs(4)] tag vek by blast+
  have boxes: "box_from_json K (box_to_json K tag) = Inr tag"
    "box_from_json K (box_to_json K vek_box) = Inr vek_box"
    using box_json_roundtrip [OF docs(2)] pairing_seal_iv [OF docs(3)] tag vek by blast+
  have "length (signer_seed signer) = 32"
    using approver(2) by (auto simp: kv_signer_def msk_signer_new_def and_then_Inr_iff split: if_splits)
  then have signed: "length sig = 64" "ck_ed_verify K (signer_public_key K signer)
      (bytes_of (pairing_transcript K s iid (cp_ya st) (cr_yb responded) tag)) sig"
    using ck_signature_docD [OF docs(5)] sig by (auto simp: signer_sign_def signer_public_key_def)
  have fields: "jget_str served ''a_pake_element'' = Some (ck_b64_encode K (cr_yb responded))"
    "jget served ''vek_envelope'' = Some (box_to_json K vek_box)"
    "jget served ''confirmation_tag'' = Some (box_to_json K tag)"
    "jget_str served ''msk_signature'' = Some (ck_b64_encode K sig)"
    using served(1) by (simp_all add: same_fields_def body get_response_body jget_str_def)
  show ?thesis
    unfolding accept_response_def str_or_empty_def
    by (simp add: fields served(2,3) abind_apply pf_decode_len_def ck_b64_docD(1) [OF docs(2)] yb boxes
        finish opens host msk signed Let_def)
qed


text \<open>
  C25. A pairing completes: when both devices use the same password, session and identity,
  the mailbox serves the answer of the approving device unchanged together with a vault id
  and a read token, and the host serves a record that the VEK opens, whose signature
  verifies and whose MSK is the approver's, the new device gets the opened vault.
\<close>

theorem pairing_completes:
  assumes docs: "curve_doc C" "ck_b64_doc K" "ck_random_doc K" "ck_aes_doc K" "ck_signature_doc K"
    and start: "cpace_start D C password (pairing_sid D s iid) (pairing_ci iid) seed = Inr st"
    and req: "pp_session_id req = s" "pp_ya req = cp_ya st"
    and answer: "build_response D K C iid req password w = (Inr body, w')"
    and approver: "kv_vault w = Some v" "kv_signer K w = Inr signer"
    and msk: "ck_b64_decode K (m_public (p_msk (u_payload v))) = Inr (signer_public_key K signer)"
    and served: "same_fields [''a_pake_element'', ''vek_envelope'', ''confirmation_tag'', ''msk_signature'']
      served body" "jget_str served ''vault_id'' = Some vid"
      "jget_str served ''pairing_read_token'' = Some token"
    and host: "current_record K H vid (pairing_read token) h = (Inr rd, h')" "rd_record rd = Some r"
      "ck_open_vek K (ck_to_json K (vr_container r)) (u_vek v) = Inr opened"
      "verify_record_signature K r opened iid = Inr ()"
      "p_msk (u_payload opened) = p_msk (u_payload v)"
  shows "accept_response D K C H iid s st served h = (Inr opened, h')"
  using assms by (rule pairing_accepts)

definition served_answer :: "string \<Rightarrow> string \<Rightarrow> json \<Rightarrow> json" where
  "served_answer vid token body =
     (case body of JObj m \<Rightarrow> JObj (obj_insert ''vault_id'' (JStr vid)
        (obj_insert ''pairing_read_token'' (JStr token) (obj_insert ''state'' (JStr ''RESPONDED'') m)))
      | _ \<Rightarrow> body)"

definition sample_request :: pending_pairing where
  "sample_request = \<lparr>pp_session_id = ''s'', pp_device_name = [], pp_device_id = [], pp_ya = gf3_bytes 1\<rparr>"

lemma length_pairing_sid: "hash_lengths D \<Longrightarrow> length (pairing_sid D s i) = 32"
  by (simp add: pairing_sid_def hash_lengthsD)

lemma sample_pairing_start:
  "\<exists>st. cpace_start sample_deps sample_curve [7] (pairing_sid sample_deps ''s'' sample_identity)
      (pairing_ci sample_identity) (replicate 64 0) = Inr st \<and> cp_ya st = gf3_bytes 1"
  by (simp add: cpace_start_def scalar_from_seed_def cpace_generator_def cpace_dsi_def Let_def
      pairing_ci_def sample_identity_def length_pairing_sid)

text \<open>
  The sample crate with a signer that signs, and a verifier that accepts, only the messages
  of a given class.
\<close>

definition picky_ckvf :: "(bytes \<Rightarrow> bool) \<Rightarrow> nat ckvf" where
  "picky_ckvf P = sample_ckvf\<lparr>
     ck_ed_sign := (\<lambda>seed m. if P m then Inr (fix_len 64 (seed @ m)) else Inl (Code ''ERR_SIGN'')),
     ck_ed_verify := (\<lambda>pk m sig. P m \<and> sig = fix_len 64 (pk @ m))\<rparr>"

lemma picky_ckvf_ok [simp]:
  "ck_b64_doc (picky_ckvf P)" "ck_random_doc (picky_ckvf P)" "ck_signature_doc (picky_ckvf P)"
  "ck_aes_doc (picky_ckvf P)"
  using sample_ckvf_ok
  by (simp_all add: picky_ckvf_def ck_b64_doc_def ck_random_doc_def ck_aes_doc_def ck_signature_doc_def)
    (auto simp: sample_ckvf_def)

lemma picky_transcript: "pairing_transcript (picky_ckvf P) = pairing_transcript sample_ckvf"
  by (intro ext) (simp add: pairing_transcript_def box_wire_def picky_ckvf_def)

lemma picky_seal:
  "pairing_seal (picky_ckvf P) key pt h = (Inr \<lparr>bx_iv = replicate 12 (word_of_nat h),
     bx_ciphertext = pt @ fix_len 16 key\<rparr>, Suc h)"
  by (simp add: pairing_seal_def abind_apply effect_def picky_ckvf_def sample_ckvf_def)

lemma picky_signer: "kv_signer (picky_ckvf P) (sample_kv sample_vault m) = Inr sample_signer"
  by (simp add: kv_signer_def msk_seed_def the_vault_def sample_signer_def)
    (simp add: picky_ckvf_def sample_ckvf_def sample_vault_def sample_payload_def msk_signer_new_def)

definition signs_request :: "(bytes \<Rightarrow> bool) \<Rightarrow> bool" where
  "signs_request P \<longleftrightarrow>
     P (bytes_of (vault_records_signing_text sample_identity ''v1'' 1 ''h''))
     \<and> (\<forall>yb tag. length (bx_iv tag) = 12
         \<longrightarrow> P (bytes_of (pairing_transcript sample_ckvf ''s'' sample_identity (gf3_bytes 1) yb tag)))"

lemma picky_answer:
  assumes "signs_request P"
  shows "\<exists>body w'. build_response sample_deps (picky_ckvf P) sample_curve sample_identity sample_request
      [7] (sample_kv sample_vault memory_new) = (Inr body, w')"
proof -
  have rnd: "ck_random (picky_ckvf P) 64 0 = (replicate 64 0, 1)"
    by (simp add: picky_ckvf_def sample_ckvf_def)
  have "\<exists>r. cpace_respond sample_deps sample_curve [7] (pairing_sid sample_deps ''s'' sample_identity)
      (pairing_ci sample_identity) (gf3_bytes 1) (replicate 64 0) = Inr r"
    using cpace_decode_compress [OF sample_curve_doc, of 1]
    by (simp add: cpace_respond_def scalar_from_seed_def cpace_generator_def cpace_dsi_def Let_def
        cpace_shared_def cpace_isk_def cpace_dsi_isk_def gf3_bytes_def pairing_ci_def sample_identity_def
        length_pairing_sid)
  moreover have "\<exists>sig. signer_sign (picky_ckvf P) sample_signer (bytes_of (pairing_transcript
      sample_ckvf ''s'' sample_identity (gf3_bytes 1) yb \<lparr>bx_iv = replicate 12 b, bx_ciphertext = c\<rparr>))
      = Inr sig" for yb b c
    using assms by (simp add: signs_request_def signer_sign_def picky_ckvf_def)
  ultimately show ?thesis
    by (auto simp: build_response_def run_iffs sample_request_def rnd picky_seal kv_signer_env
        picky_signer picky_transcript Let_def)
qed

lemma picky_host:
  assumes "signs_request P"
  shows "current_record (picky_ckvf P) sample_host vid auth h = (Inr \<lparr>rd_record = Some sample_record,
      rd_msk_public_key = None, rd_archived_msk_public_keys = [], rd_oprf_token = None\<rparr>, h)"
    and "verify_record_signature (picky_ckvf P) sample_record sample_vault sample_identity = Inr ()"
    and "ck_open_vek (picky_ckvf P) j (u_vek sample_vault) = Inr sample_vault"
    and "ck_b64_decode (picky_ckvf P) (m_public (p_msk (u_payload sample_vault)))
      = Inr (signer_public_key (picky_ckvf P) sample_signer)"
proof -
  have "length sample_record_sig = 64" by (simp add: sample_record_sig_def)
  then show "current_record (picky_ckvf P) sample_host vid auth h = (Inr \<lparr>rd_record = Some sample_record,
      rd_msk_public_key = None, rd_archived_msk_public_keys = [], rd_oprf_token = None\<rparr>, h)"
    by (simp add: current_record_def abind_apply sample_host_def vault_read_from_json_def
        sample_head_read_def record_from_json_def jobj_def obj_of_def obj_get_def picky_ckvf_def
        sample_ckvf_def decode_len_def jget_def jget_str_def sample_container_def sample_record_def)
  show "verify_record_signature (picky_ckvf P) sample_record sample_vault sample_identity = Inr ()"
    using assms
    by (simp add: verify_record_signature_def sample_vault_def sample_payload_def picky_ckvf_def
        sample_record_def vr_generation_def vr_generation_hash_def sample_container_def Let_def
        signs_request_def)
     (simp add: sample_ckvf_def sample_record_sig_def)
qed (simp_all add: picky_ckvf_def sample_ckvf_def sample_vault_def sample_payload_def sample_signer_def
  signer_public_key_def)

text \<open>One whole pairing on the sample crates.\<close>

lemma picky_pairing:
  assumes "signs_request P"
  shows "\<exists>st body w'. cpace_start sample_deps sample_curve [7]
      (pairing_sid sample_deps ''s'' sample_identity) (pairing_ci sample_identity) (replicate 64 0) = Inr st
    \<and> cp_ya st = gf3_bytes 1
    \<and> build_response sample_deps (picky_ckvf P) sample_curve sample_identity sample_request [7]
      (sample_kv sample_vault memory_new) = (Inr body, w')
    \<and> same_fields [''a_pake_element'', ''vek_envelope'', ''confirmation_tag'', ''msk_signature'']
      (served_answer ''v1'' ''t'' body) body
    \<and> jget_str (served_answer ''v1'' ''t'' body) ''vault_id'' = Some ''v1''
    \<and> jget_str (served_answer ''v1'' ''t'' body) ''pairing_read_token'' = Some ''t''"
proof -
  obtain body w' where body: "build_response sample_deps (picky_ckvf P) sample_curve sample_identity
      sample_request [7] (sample_kv sample_vault memory_new) = (Inr body, w')"
    using picky_answer [OF assms] by blast
  then obtain m where m: "body = JObj m"
    by (auto simp: build_response_def run_iffs Let_def response_body_def jobj_def)
  show ?thesis
    using sample_pairing_start body
    by (auto simp: m served_answer_def same_fields_def jget_str_def)
qed

theorem pairing_completes_witness:
  "\<exists>st body. accept_response sample_deps (picky_ckvf (\<lambda>_. True)) sample_curve sample_host sample_identity
      ''s'' st (served_answer ''v1'' ''t'' body) 0 = (Inr sample_vault, 0)"
proof -
  have P: "signs_request (\<lambda>_. True)" by (simp add: signs_request_def)
  show ?thesis
    using picky_pairing [OF P] pairing_completes [OF sample_curve_doc picky_ckvf_ok(1,2,4,3), of sample_deps "[7]"
      "''s''" sample_identity "replicate 64 0" _ sample_request "\<lambda>_. True" _ _ _ sample_vault sample_signer
      _ "''v1''" "''t''" sample_host 0 _ 0 sample_record sample_vault]
      picky_host [OF P] picky_signer
    by (fastforce simp: sample_request_def)
qed


section \<open>A pairing that is accepted was approved\<close>

text \<open>The texts an MSK signs when its holder approved the pairings \<open>A\<close>.\<close>

definition msk_texts ::
  "'h ckvf \<Rightarrow> (string \<times> string \<times> bytes \<times> bytes \<times> pairing_box) set \<Rightarrow> string set" where
  "msk_texts K A =
     {pairing_transcript K s i ya yb tag | s i ya yb tag.
        (s, i, ya, yb, tag) \<in> A \<and> list_all one_line [s, i] \<and> length (bx_iv tag) = 12}
     \<union> {vault_records_signing_text i v g gh | i v g gh. list_all one_line [i, v, gh]}
     \<union> {envelope_text op p t n ph | op p t n ph. list_all one_line [op, p, n, ph]}"

lemma msk_texts_transcript:
  assumes "ck_b64_doc K" "list_all one_line [s, i]" "length (bx_iv tag) = 12"
    and "pairing_transcript K s i ya yb tag \<in> msk_texts K A"
  shows "(s, i, ya, yb, tag) \<in> A"
  using assms(4) transcript_disjoint [OF assms(1,2)]
  unfolding msk_texts_def
  by (auto simp: transcript_inject [OF assms(1) _ assms(3)] assms(2)[simplified])

lemma accept_response_run:
  assumes "accept_response D K C H iid s st body h = (Inr opened, h')"
  shows "\<exists>yb isk tag pt vb vek vid token rd r pk sig.
    pf_decode_len K (str_or_empty body ''a_pake_element'') 32 = Inr yb
    \<and> cpace_finish D C st yb = Inr isk
    \<and> and_then (ok_or missing_v2 (jget body ''confirmation_tag'')) (box_from_json K) = Inr tag
    \<and> pairing_open K (pairing_tek D isk s (cp_ya st) yb iid) tag = Inr pt
    \<and> and_then (ok_or missing_v2 (jget body ''vek_envelope'')) (box_from_json K) = Inr vb
    \<and> pairing_open K (pairing_tek D isk s (cp_ya st) yb iid) vb = Inr vek
    \<and> jget_str body ''vault_id'' = Some vid \<and> jget_str body ''pairing_read_token'' = Some token
    \<and> current_record K H vid (pairing_read token) h = (Inr rd, h') \<and> rd_record rd = Some r
    \<and> ck_open_vek K (ck_to_json K (vr_container r)) vek = Inr opened
    \<and> verify_record_signature K r opened iid = Inr ()
    \<and> ck_b64_decode K (m_public (p_msk (u_payload opened))) = Inr pk
    \<and> and_then (ok_or missing_v2 (jget_str body ''msk_signature'')) (\<lambda>sig. pf_decode_len K sig 64) = Inr sig
    \<and> ck_ed_verify K pk (bytes_of (pairing_transcript K s iid (cp_ya st) yb tag)) sig"
  using assms unfolding accept_response_def
  by (auto simp: abind_Inr_iff Let_def jget_str_def split: if_splits)

lemma box_from_json_iv: "box_from_json K j = Inr b \<Longrightarrow> length (bx_iv b) = 12"
  by (auto simp: box_from_json_def decode_b64_field_def and_then_Inr_iff split: if_splits)

text \<open>
  C26. A pairing that is accepted was approved: if only texts of approved pairings (and
  uploads and requests) verify under the MSK of the vault that was opened, then the holder
  of that MSK approved this very session, for this identity and this device's key exchange
  element; the transfer key of that exchange opened the confirmation and carried the VEK that
  opened the vault.
\<close>

theorem accepted_pairing_was_approved:
  assumes "accept_response D K C H iid s st body h = (Inr opened, h')"
    and "ck_b64_doc K" and "list_all one_line [s, iid]"
    and unforgeable: "\<forall>pk m sig. ck_b64_decode K (m_public (p_msk (u_payload opened))) = Inr pk
      \<longrightarrow> ck_ed_verify K pk m sig \<longrightarrow> m \<in> bytes_of ` msk_texts K A"
  shows "\<exists>yb isk tag vek vb r. (s, iid, cp_ya st, yb, tag) \<in> A
    \<and> cpace_finish D C st yb = Inr isk
    \<and> (\<exists>pt. pairing_open K (pairing_tek D isk s (cp_ya st) yb iid) tag = Inr pt)
    \<and> pairing_open K (pairing_tek D isk s (cp_ya st) yb iid) vb = Inr vek
    \<and> ck_open_vek K (ck_to_json K (vr_container r)) vek = Inr opened
    \<and> verify_record_signature K r opened iid = Inr ()"
proof -
  from accept_response_run [OF assms(1)] obtain yb isk tag pt vb vek vid token rd r pk sig where run:
    "cpace_finish D C st yb = Inr isk"
    "and_then (ok_or missing_v2 (jget body ''confirmation_tag'')) (box_from_json K) = Inr tag"
    "pairing_open K (pairing_tek D isk s (cp_ya st) yb iid) tag = Inr pt"
    "ck_open_vek K (ck_to_json K (vr_container r)) vek = Inr opened"
    "pairing_open K (pairing_tek D isk s (cp_ya st) yb iid) vb = Inr vek"
    "verify_record_signature K r opened iid = Inr ()"
    "ck_b64_decode K (m_public (p_msk (u_payload opened))) = Inr pk"
    "ck_ed_verify K pk (bytes_of (pairing_transcript K s iid (cp_ya st) yb tag)) sig"
    by blast
  have "length (bx_iv tag) = 12"
    using run(2) box_from_json_iv by (auto simp: and_then_Inr_iff)
  moreover have "pairing_transcript K s iid (cp_ya st) yb tag \<in> msk_texts K A"
    using unforgeable run(7,8) by fastforce
  ultimately have "(s, iid, cp_ya st, yb, tag) \<in> A"
    using msk_texts_transcript [OF assms(2,3)] by blast
  with run show ?thesis by blast
qed

definition sample_approvals :: "(string \<times> string \<times> bytes \<times> bytes \<times> pairing_box) set" where
  "sample_approvals = {(s, i, ya, yb, tag). s = ''s'' \<and> i = sample_identity \<and> ya = gf3_bytes 1}"

definition approved_only :: "bytes \<Rightarrow> bool" where
  "approved_only m \<longleftrightarrow> m \<in> bytes_of ` msk_texts sample_ckvf sample_approvals"

lemma approved_only_signs: "signs_request approved_only"
proof -
  have "vault_records_signing_text sample_identity ''v1'' 1 ''h'' \<in> msk_texts sample_ckvf sample_approvals"
    unfolding msk_texts_def by (rule UnI1, rule UnI2) (force simp: one_line_def sample_identity_def)
  moreover have "pairing_transcript sample_ckvf ''s'' sample_identity (gf3_bytes 1) yb tag
      \<in> msk_texts sample_ckvf sample_approvals" if "length (bx_iv tag) = 12" for yb tag
    using that unfolding msk_texts_def
    by (intro UnI1) (fastforce simp: one_line_def sample_identity_def sample_approvals_def)
  ultimately show ?thesis by (simp add: signs_request_def approved_only_def)
qed

theorem accepted_pairing_was_approved_witness:
  "\<exists>st body yb tag. accept_response sample_deps (picky_ckvf approved_only) sample_curve sample_host
      sample_identity ''s'' st (served_answer ''v1'' ''t'' body) 0 = (Inr sample_vault, 0)
    \<and> (''s'', sample_identity, cp_ya st, yb, tag) \<in> sample_approvals"
proof -
  note P = approved_only_signs
  obtain st body where acc: "accept_response sample_deps (picky_ckvf approved_only) sample_curve sample_host
      sample_identity ''s'' st (served_answer ''v1'' ''t'' body) 0 = (Inr sample_vault, 0)"
    using picky_pairing [OF P] pairing_accepts [OF sample_curve_doc picky_ckvf_ok(1,2,4,3), of sample_deps "[7]"
      "''s''" sample_identity "replicate 64 0" _ sample_request approved_only _ _ _ sample_vault sample_signer
      _ "''v1''" "''t''" sample_host 0 _ 0 sample_record sample_vault]
      picky_host [OF P] picky_signer
    by (fastforce simp: sample_request_def)
  have "msk_texts (picky_ckvf approved_only) = msk_texts sample_ckvf"
    by (intro ext) (simp add: msk_texts_def picky_transcript)
  then have "ck_ed_verify (picky_ckvf approved_only) pk m sig
      \<Longrightarrow> m \<in> bytes_of ` msk_texts (picky_ckvf approved_only) sample_approvals" for pk m sig
    by (simp add: picky_ckvf_def [of approved_only]) (simp add: approved_only_def)
  with accepted_pairing_was_approved [OF acc picky_ckvf_ok(1), of sample_approvals] acc show ?thesis
    by (fastforce simp: one_line_def sample_identity_def)
qed

section \<open>The waits end\<close>

text \<open>
  One round of either loop that goes on: the mailbox is asked, the clock is read, the thread
  sleeps. What the clock says in round \<open>n\<close> of a wait that starts at \<open>h\<close>.
\<close>

definition poll_round ::
  "'h ckvf \<Rightarrow> 'h host_api \<Rightarrow> 'h platform \<Rightarrow> nat \<Rightarrow> string \<Rightarrow> string option \<Rightarrow> 'h \<Rightarrow> 'h" where
  "poll_round K H P itv s dev h = pairing_sleep P itv (snd (ck_now_ms K (snd (ha_get_pairing H s dev h))))"

definition poll_clock ::
  "'h ckvf \<Rightarrow> 'h host_api \<Rightarrow> 'h platform \<Rightarrow> nat \<Rightarrow> string \<Rightarrow> string option \<Rightarrow> nat \<Rightarrow> 'h \<Rightarrow> int" where
  "poll_clock K H P itv s dev n h =
     fst (ck_now_ms K (snd (ha_get_pairing H s dev ((poll_round K H P itv s dev ^^ n) h))))"

lemma poll_clock_Suc:
  "poll_clock K H P itv s dev (Suc n) h = poll_clock K H P itv s dev n (poll_round K H P itv s dev h)"
  by (simp add: poll_clock_def funpow_swap1)

text \<open>A wait that is not over after its fuel has read no clock past the deadline.\<close>

lemma await_poll_waits:
  "await_poll K H P s d expires itv fuel h = (Inr None, h') \<Longrightarrow> n < fuel \<Longrightarrow>
     poll_clock K H P itv s (Some d) n h \<le> expires"
proof (induction fuel arbitrary: h n)
  case (Suc fuel)
  from Suc.prems(1) obtain body h1 now h2 where get: "ha_get_pairing H s (Some d) h = (Inr body, h1)"
    and now: "ck_now_ms K h1 = (now, h2)" "now \<le> expires"
    and rest: "await_poll K H P s d expires itv fuel (pairing_sleep P itv h2) = (Inr None, h')"
    by (auto simp: abind_Inr_iff Let_def split: if_splits)
  have "poll_round K H P itv s (Some d) h = pairing_sleep P itv h2"
    by (simp add: poll_round_def get now(1))
  with Suc.IH [OF rest] Suc.prems(2) get now show ?case
    by (cases n) (simp_all add: poll_clock_Suc, simp add: poll_clock_def)
qed simp

lemma completion_poll_waits:
  "completion_poll K H P s deadline itv fuel h = (Inr None, h') \<Longrightarrow> n < fuel \<Longrightarrow>
     poll_clock K H P itv s None n h \<le> deadline"
proof (induction fuel arbitrary: h n)
  case (Suc fuel)
  from Suc.prems(1) obtain body h1 now h2 where get: "ha_get_pairing H s None h = (Inr body, h1)"
    and now: "ck_now_ms K h1 = (now, h2)" "now \<le> deadline"
    and rest: "completion_poll K H P s deadline itv fuel (pairing_sleep P itv h2) = (Inr None, h')"
    by (auto simp: abind_Inr_iff split: if_splits)
  have "poll_round K H P itv s None h = pairing_sleep P itv h2"
    by (simp add: poll_round_def get now(1))
  with Suc.IH [OF rest] Suc.prems(2) get now show ?case
    by (cases n) (simp_all add: poll_clock_Suc, simp add: poll_clock_def)
qed simp

lemma await_response_waits:
  assumes "fst (await_response D K C H P iid s d st expires itv fuel h) = Inr None"
  shows "\<exists>h'. await_poll K H P s d expires itv fuel h = (Inr None, h')"
proof -
  obtain h' where "await_response D K C H P iid s d st expires itv fuel h = (Inr None, h')"
    using assms by (metis prod.collapse)
  then show ?thesis by (auto simp: await_response_def abind_Inr_iff split: option.splits)
qed

lemma approve_pairing_waits:
  assumes "fst (approve_pairing D K C S P req password itv timeout fuel w) = Inr None"
  shows "\<exists>b body answer h0 now h1 h2 h3. kv_binding w = Some b
    \<and> ha_respond_pairing (bd_host b) (pp_session_id req) body h0 = (Inr answer, h1)
    \<and> ck_now_ms K h1 = (now, h2)
    \<and> completion_poll K (bd_host b) P (pp_session_id req)
        (i64_wrap (now + i64_wrap (int (as_millis timeout)))) itv fuel h2 = (Inr None, h3)"
proof -
  obtain w' where "approve_pairing D K C S P req password itv timeout fuel w = (Inr None, w')"
    using assms by (metis prod.collapse)
  then show ?thesis by (auto simp: approve_pairing_def run_iffs) blast
qed

text \<open>
  A clock that is not set back: \<open>clk\<close> is what it reads, no call lowers it, and
  \<open>std::thread::sleep\<close>, which is documented never to sleep less than it is asked to, raises it
  by the time slept. \<open>SystemTime\<close> promises nothing of the kind: this is a condition on a run.
\<close>

definition steady_clock :: "'h ckvf \<Rightarrow> 'h host_api \<Rightarrow> 'h platform \<Rightarrow> ('h \<Rightarrow> int) \<Rightarrow> bool" where
  "steady_clock K H P clk \<longleftrightarrow>
     (\<forall>h. 0 \<le> clk h \<and> fst (ck_now_ms K h) = clk h \<and> clk h \<le> clk (snd (ck_now_ms K h))
        \<and> (\<forall>s d. clk h \<le> clk (snd (ha_get_pairing H s d h)))
        \<and> (\<forall>d. clk h + int (as_millis d) \<le> clk (pl_thread_sleep P d h)))"

lemma steady_round:
  assumes "steady_clock K H P clk" and "pl_target P = Native"
  shows "clk h + int (as_millis itv) \<le> clk (poll_round K H P itv s dev h)"
proof -
  define h1 where "h1 = snd (ha_get_pairing H s dev h)"
  define h2 where "h2 = snd (ck_now_ms K h1)"
  have "clk h \<le> clk h1" "clk h1 \<le> clk h2" "clk h2 + int (as_millis itv) \<le> clk (pl_thread_sleep P itv h2)"
    using assms(1) by (simp_all add: steady_clock_def h1_def h2_def)
  then show ?thesis by (simp add: poll_round_def pairing_sleep_def assms(2) h1_def h2_def)
qed

lemma steady_poll_clock:
  assumes "steady_clock K H P clk" and "pl_target P = Native"
  shows "clk h + int (n * as_millis itv) \<le> poll_clock K H P itv s dev n h"
proof (induction n arbitrary: h)
  case 0
  show ?case using assms(1) by (simp add: steady_clock_def poll_clock_def)
next
  case (Suc n)
  show ?case
    using Suc.IH [of "poll_round K H P itv s dev h"] steady_round [OF assms, of h itv s dev]
    by (simp add: poll_clock_Suc algebra_simps)
qed

lemma i64_wrap_le: "- (2 ^ 63) \<le> x \<Longrightarrow> i64_wrap x \<le> x"
  by (simp add: i64_wrap_def signed_take_bit_int_less_eq_self_iff)

lemma i64_wrap_ge: "- (2 ^ 63) \<le> i64_wrap x"
  unfolding i64_wrap_def by (rule signed_take_bit_int_greater_eq_minus_exp)

lemma deadline_le:
  assumes "0 \<le> now" and "0 \<le> t"
  shows "i64_wrap (now + i64_wrap t) \<le> now + t"
proof -
  have "- (2 ^ 63) \<le> t" using assms(2) by simp
  note t = i64_wrap_le [OF this] i64_wrap_ge [of t]
  then have "- (2 ^ 63) \<le> now + i64_wrap t" using assms(1) by simp
  from i64_wrap_le [OF this] t(1) show ?thesis by simp
qed

text \<open>On \<open>wasm32\<close> the loops do not wait between two rounds, whatever the interval.\<close>

lemma wasm_sleep: "pl_target P = Wasm32 \<Longrightarrow> pairing_sleep P itv = pairing_sleep P itv'"
  by (simp add: pairing_sleep_def)

lemma wasm_await_poll:
  "pl_target P = Wasm32 \<Longrightarrow> await_poll K H P s d expires itv fuel = await_poll K H P s d expires itv' fuel"
  by (induction fuel) (simp_all only: await_poll.simps wasm_sleep [of P itv itv'])

text \<open>
  C27. Both waits of a pairing end with the deadline. Whatever the target, the interval, the
  host and the clock do: a wait that is still going on after \<open>fuel\<close> rounds has read no clock
  past its deadline in any of them, the expiry of the offer or the timeout of the approving
  device. On a native target and with a system clock that is not set back, where a sleep
  takes the time it is asked for, this bounds the rounds: as soon as their intervals, in whole
  milliseconds, add up to more than the time left there is an answer or an error. (An
  interval under a millisecond gives no such bound, and on \<open>wasm32\<close> the interval has no effect
  at all: the loop does not wait between two requests.)
\<close>

theorem pairing_waits_end:
  "(fst (await_response D K C H P iid s d st expires itv fuel h) = Inr None \<longrightarrow>
      (\<forall>n < fuel. poll_clock K H P itv s (Some d) n h \<le> expires))
    \<and> (fst (approve_pairing D K C S P req password itv timeout fuel w) = Inr None \<longrightarrow>
      (\<exists>b body answer h0 now h1 h2. kv_binding w = Some b
        \<and> ha_respond_pairing (bd_host b) (pp_session_id req) body h0 = (Inr answer, h1)
        \<and> ck_now_ms K h1 = (now, h2)
        \<and> (\<forall>n < fuel. poll_clock K (bd_host b) P itv (pp_session_id req) None n h2
            \<le> i64_wrap (now + i64_wrap (int (as_millis timeout))))))
    \<and> (steady_clock K H P clk \<and> pl_target P = Native \<longrightarrow>
      (expires < clk h + int (fuel * as_millis itv) \<longrightarrow>
         fst (await_response D K C H P iid s d st expires itv (Suc fuel) h) \<noteq> Inr None)
      \<and> (as_millis timeout < fuel * as_millis itv \<and> (\<exists>b. kv_binding w = Some b \<and> bd_host b = H) \<longrightarrow>
         fst (approve_pairing D K C S P req password itv timeout (Suc fuel) w) \<noteq> Inr None))
    \<and> (pl_target P = Wasm32 \<longrightarrow>
         await_response D K C H P iid s d st expires itv fuel h
           = await_response D K C H P iid s d st expires itv' fuel h)"
proof (intro conjI impI notI allI)
  fix n assume "fst (await_response D K C H P iid s d st expires itv fuel h) = Inr None" and "n < fuel"
  then show "poll_clock K H P itv s (Some d) n h \<le> expires"
    using await_response_waits await_poll_waits by metis
next
  assume "fst (approve_pairing D K C S P req password itv timeout fuel w) = Inr None"
  from approve_pairing_waits [OF this] obtain b body answer h0 now h1 h2 h3 where
    run: "kv_binding w = Some b"
      "ha_respond_pairing (bd_host b) (pp_session_id req) body h0 = (Inr answer, h1)"
      "ck_now_ms K h1 = (now, h2)"
    and poll: "completion_poll K (bd_host b) P (pp_session_id req)
      (i64_wrap (now + i64_wrap (int (as_millis timeout)))) itv fuel h2 = (Inr None, h3)"
    by blast
  from run completion_poll_waits [OF poll] show "\<exists>b body answer h0 now h1 h2. kv_binding w = Some b
        \<and> ha_respond_pairing (bd_host b) (pp_session_id req) body h0 = (Inr answer, h1)
        \<and> ck_now_ms K h1 = (now, h2)
        \<and> (\<forall>n < fuel. poll_clock K (bd_host b) P itv (pp_session_id req) None n h2
            \<le> i64_wrap (now + i64_wrap (int (as_millis timeout))))"
    by blast
next
  assume steady: "steady_clock K H P clk \<and> pl_target P = Native"
    and "expires < clk h + int (fuel * as_millis itv)"
    and "fst (await_response D K C H P iid s d st expires itv (Suc fuel) h) = Inr None"
  moreover from this(3) have "poll_clock K H P itv s (Some d) fuel h \<le> expires"
    using await_response_waits await_poll_waits by (metis lessI)
  ultimately show False
    using steady_poll_clock [of K H P clk h fuel itv s "Some d"] by linarith
next
  assume steady: "steady_clock K H P clk \<and> pl_target P = Native"
    and time: "as_millis timeout < fuel * as_millis itv \<and> (\<exists>b. kv_binding w = Some b \<and> bd_host b = H)"
    and waits: "fst (approve_pairing D K C S P req password itv timeout (Suc fuel) w) = Inr None"
  from approve_pairing_waits [OF waits] time obtain now h1 h2 h3 where now: "ck_now_ms K h1 = (now, h2)"
    and poll: "completion_poll K H P (pp_session_id req)
      (i64_wrap (now + i64_wrap (int (as_millis timeout)))) itv (Suc fuel) h2 = (Inr None, h3)"
    by auto
  have now': "0 \<le> now" "now \<le> clk h2"
    using steady now unfolding steady_clock_def by (metis fst_conv snd_conv)+
  have "clk h2 + int (fuel * as_millis itv) \<le> poll_clock K H P itv (pp_session_id req) None fuel h2"
    using steady by (blast intro: steady_poll_clock)
  also have "\<dots> \<le> i64_wrap (now + i64_wrap (int (as_millis timeout)))"
    using completion_poll_waits [OF poll] by simp
  also have "\<dots> \<le> now + int (as_millis timeout)" using now'(1) by (rule deadline_le) simp
  finally show False using time now'(2) by linarith
next
  assume "pl_target P = Wasm32"
  then show "await_response D K C H P iid s d st expires itv fuel h
      = await_response D K C H P iid s d st expires itv' fuel h"
    unfolding await_response_def by (simp only: wasm_await_poll [of P K H s d expires itv fuel itv'])
qed

text \<open>A clock in milliseconds that only a sleep, and reading it, move on.\<close>

definition sample_platform :: "nat platform" where
  "sample_platform = \<lparr>pl_target = Native, pl_thread_sleep = (\<lambda>d h. h + as_millis d)\<rparr>"

theorem pairing_waits_end_witness:
  "fst (await_response sample_deps sample_ckvf sample_curve sample_host sample_platform ''i'' ''s'' ''d''
      sample_cpace 3 2000000 3 0) \<noteq> Inr None"
proof -
  have get: "snd (ha_get_pairing sample_host s d h) = h" for s d h
    by (simp add: sample_host_def host_client_api_def client_get_pairing_def host_get_def host_send_def
        host_client_new_def)
  have "steady_clock sample_ckvf sample_host sample_platform int \<and> pl_target sample_platform = Native"
    by (simp add: steady_clock_def sample_platform_def get) (simp add: sample_ckvf_def)
  then have "3 < int 0 + int (2 * as_millis 2000000) \<longrightarrow> fst (await_response sample_deps sample_ckvf
      sample_curve sample_host sample_platform ''i'' ''s'' ''d'' sample_cpace 3 2000000 (Suc 2) 0) \<noteq> Inr None"
    by (rule conjunct1 [OF mp [OF conjunct1 [OF conjunct2 [OF conjunct2 [OF pairing_waits_end]]]]])
  then show ?thesis by (simp add: as_millis_def numeral_3_eq_3)
qed

end
