(* ===== verification/Folder_Sync.thy ===== *)
theory Folder_Sync
  imports Ckvf "HOL-Library.Countable"
begin

text \<open>
  \<open>crates/scomm-vault/src/vault_sync.rs\<close>: immutable generations and a head on an untrusted
  folder. The folder is a map from paths to file contents with the calls of \<open>std::fs\<close> that
  the code makes; a schedule says which of the coming calls fail, and how many bytes a
  failing write leaves behind, so that every theorem also speaks about the I/O errors.
  Paths are those of Unix.
\<close>

section \<open>The folder\<close>

record folder =
  fd_files :: "string \<Rightarrow> string option"
  fd_dirs :: "string set"
  fd_faults :: "nat option list" \<comment> \<open>of the calls to come; \<open>Some n\<close>: it fails\<close>
  fd_stats :: "bool list" \<comment> \<open>which \<open>exists\<close> calls cannot read the metadata\<close>

text \<open>Errors of \<open>std::io\<close>: the kind that the code tests, and the rest.\<close>

datatype io_error = Not_Found | Io_Other string

definition next_fault :: "folder \<Rightarrow> nat option \<times> folder" where
  "next_fault w = (case fd_faults w of [] \<Rightarrow> (None, w) | f # fs \<Rightarrow> (f, w\<lparr>fd_faults := fs\<rparr>))"

definition fs_read :: "string \<Rightarrow> (folder, io_error, string) act" where
  "fs_read p = (\<lambda>w. case next_fault w of
       (Some n, w) \<Rightarrow> (Inl (Io_Other ''read''), w)
     | (None, w) \<Rightarrow> (case fd_files w p of
           None \<Rightarrow> (Inl Not_Found, w)
         | Some s \<Rightarrow> if utf8_valid s then (Inr s, w) else (Inl (Io_Other ''invalid UTF-8''), w)))"

definition path_parent :: "string \<Rightarrow> string" where
  "path_parent p = (case rfind_char (CHR ''/'') p of None \<Rightarrow> [] | Some i \<Rightarrow> take i p)"

definition fs_write :: "string \<Rightarrow> string \<Rightarrow> (folder, io_error, unit) act" where
  "fs_write p s = (\<lambda>w. case next_fault w of
       (Some n, w) \<Rightarrow> (Inl (Io_Other ''write''),
         if n = 0 then w else w\<lparr>fd_files := (fd_files w)(p \<mapsto> take (n - 1) s)\<rparr>)
     | (None, w) \<Rightarrow> if path_parent p \<in> fd_dirs w
         then (Inr (), w\<lparr>fd_files := (fd_files w)(p \<mapsto> s)\<rparr>) else (Inl Not_Found, w))"

definition fs_rename :: "string \<Rightarrow> string \<Rightarrow> (folder, io_error, unit) act" where
  "fs_rename p q = (\<lambda>w. case next_fault w of
       (Some n, w) \<Rightarrow> (Inl (Io_Other ''rename''), w)
     | (None, w) \<Rightarrow> (case fd_files w p of
           None \<Rightarrow> (Inl Not_Found, w)
         | Some s \<Rightarrow> (Inr (), w\<lparr>fd_files := (fd_files w)(p := None, q \<mapsto> s)\<rparr>)))"

text \<open>The directories from the root of the path to it; \<open>create_dir_all\<close> makes them all.\<close>

definition dirs_to :: "string \<Rightarrow> string set" where
  "dirs_to p = {q. \<exists>r. p = q @ r \<and> (r = [] \<or> hd r = CHR ''/'')}"

definition fs_create_dir_all :: "string \<Rightarrow> (folder, io_error, unit) act" where
  "fs_create_dir_all p = (\<lambda>w. case next_fault w of
       (Some n, w) \<Rightarrow> (Inl (Io_Other ''mkdir''), w)
     | (None, w) \<Rightarrow> (Inr (), w\<lparr>fd_dirs := fd_dirs w \<union> dirs_to p\<rparr>))"

text \<open>\<open>Path::exists\<close> is false when the metadata cannot be read.\<close>

definition fs_exists :: "string \<Rightarrow> folder \<Rightarrow> bool \<times> folder" where
  "fs_exists p w =
     (let known = (fd_files w p \<noteq> None \<or> p \<in> fd_dirs w)
      in case fd_stats w of [] \<Rightarrow> (known, w) | b # bs \<Rightarrow> (known \<and> \<not> b, w\<lparr>fd_stats := bs\<rparr>))"

section \<open>Paths\<close>

text \<open>\<open>Path::join\<close> of a relative path, and \<open>Path::with_extension\<close>.\<close>

definition path_join :: "string \<Rightarrow> string \<Rightarrow> string" where
  "path_join p q = p @ ''/'' @ q"

definition with_extension :: "string \<Rightarrow> string \<Rightarrow> string" where
  "with_extension p ext =
     (let dir = (case rfind_char (CHR ''/'') p of None \<Rightarrow> 0 | Some i \<Rightarrow> i + 1);
          name = drop dir p;
          stem = (case rfind_char (CHR ''.'') name of None \<Rightarrow> name | Some 0 \<Rightarrow> name
                  | Some i \<Rightarrow> take i name)
      in take dir p @ stem @ ''.'' @ ext)"

section \<open>FolderVaultSync\<close>

definition sync_err :: "string \<Rightarrow> string \<Rightarrow> verr" where
  "sync_err code message = verr_new code (Some message)"

fun io_text :: "io_error \<Rightarrow> string" where
  "io_text Not_Found = ''not found''"
| "io_text (Io_Other s) = s"

definition io_act :: "(folder, io_error, 'a) act \<Rightarrow> (folder, verr, 'a) act" where
  "io_act m = (\<lambda>w. case m w of (r, w') \<Rightarrow> (map_err (\<lambda>e. sync_err ''sync_io'' (io_text e)) r, w'))"

record vault_head =
  vh_vault_id :: string
  vh_generation :: u64
  vh_generation_hash :: string

definition id_char :: "char \<Rightarrow> bool" where
  "id_char c \<longleftrightarrow> is_alnum c \<or> c = CHR ''-'' \<or> c = CHR ''_''"

definition sync_dir :: "string \<Rightarrow> string \<Rightarrow> verr + string" where
  "sync_dir root vault_id =
     (if vault_id = [] \<or> \<not> list_all id_char vault_id
      then Inl (sync_err ''sync_path'' ''vault id'')
      else Inr (path_join root vault_id))"

definition head_path :: "string \<Rightarrow> string \<Rightarrow> verr + string" where
  "head_path root vault_id =
     and_then (sync_dir root vault_id) (\<lambda>d. Inr (path_join d ''head.json''))"

definition generation_path :: "string \<Rightarrow> string \<Rightarrow> u64 \<Rightarrow> verr + string" where
  "generation_path root vault_id gen =
     and_then (sync_dir root vault_id) (\<lambda>d.
     Inr (path_join (path_join d ''g'') (show_nat (unat gen) @ ''.json'')))"

definition read_to_string :: "string \<Rightarrow> (folder, verr, string option) act" where
  "read_to_string p = (\<lambda>w. case fs_read p w of
       (Inr t, w) \<Rightarrow> (Inr (Some t), w)
     | (Inl Not_Found, w) \<Rightarrow> (Inr None, w)
     | (Inl (Io_Other e), w) \<Rightarrow> (Inl (sync_err ''sync_io'' e), w))"

definition parse_head :: "deps \<Rightarrow> string \<Rightarrow> verr + vault_head" where
  "parse_head D raw =
     and_then (map_err (\<lambda>_. sync_err ''sync_head'' ''head is not json'') (json_parse D raw)) (\<lambda>j.
     if jget_str j ''format'' \<noteq> Some ''CKVF-HEAD''
     then Inl (sync_err ''sync_head'' ''unrecognized head'')
     else Inr \<lparr>
       vh_vault_id = (case jget_str j ''vault_id'' of Some s \<Rightarrow> s | None \<Rightarrow> []),
       vh_generation = (case Option.bind (jget j ''generation'') as_u64 of Some n \<Rightarrow> n | None \<Rightarrow> 0),
       vh_generation_hash = (case jget_str j ''generation_hash'' of Some s \<Rightarrow> s | None \<Rightarrow> [])\<rparr>)"

definition sync_get_head :: "deps \<Rightarrow> string \<Rightarrow> string \<Rightarrow> (folder, verr, vault_head option) act" where
  "sync_get_head D root vault_id =
     abind (alift (head_path root vault_id)) (\<lambda>p.
     abind (read_to_string p) (\<lambda>raw. case raw of
         None \<Rightarrow> aret None
       | Some s \<Rightarrow> abind (alift (parse_head D s)) (\<lambda>head. aret (Some head))))"

definition sync_get_generation :: "string \<Rightarrow> string \<Rightarrow> u64 \<Rightarrow> (folder, verr, string option) act" where
  "sync_get_generation root vault_id gen =
     abind (alift (generation_path root vault_id gen)) read_to_string"

text \<open>The new contents go to a temporary file that is renamed over the target.\<close>

definition replace_file :: "string \<Rightarrow> string \<Rightarrow> (folder, verr, unit) act" where
  "replace_file p s =
     (let tmp = with_extension p ''json.tmp''
      in abind (io_act (fs_write tmp s)) (\<lambda>_. io_act (fs_rename tmp p)))"

definition put_if_absent :: "string \<Rightarrow> string \<Rightarrow> u64 \<Rightarrow> string \<Rightarrow> (folder, verr, unit) act" where
  "put_if_absent root vault_id gen container_json =
     abind (alift (generation_path root vault_id gen)) (\<lambda>p.
     abind (io_act (fs_create_dir_all (path_parent p))) (\<lambda>_.
     abind (\<lambda>w. case fs_exists p w of (b, w') \<Rightarrow> (Inr b, w')) (\<lambda>exists.
     if exists then
       abind (io_act (fs_read p)) (\<lambda>existing.
       if existing \<noteq> container_json
       then afail (sync_err ''sync_tamper''
         (''generation '' @ show_nat (unat gen) @ '' already has different bytes''))
       else aret ())
     else replace_file p container_json)))"

definition head_body :: "vault_head \<Rightarrow> json" where
  "head_body head = jobj [(''format'', JStr ''CKVF-HEAD''), (''version'', JStr ''1''),
     (''vault_id'', JStr (vh_vault_id head)), (''generation'', ju64 (vh_generation head)),
     (''generation_hash'', JStr (vh_generation_hash head))]"

definition compare_and_swap_head ::
  "deps \<Rightarrow> string \<Rightarrow> vault_head \<Rightarrow> string option \<Rightarrow> (folder, verr, bool) act" where
  "compare_and_swap_head D root nxt expected_hash =
     abind (alift (head_path root (vh_vault_id nxt))) (\<lambda>p.
     abind (io_act (fs_create_dir_all (path_parent p))) (\<lambda>_.
     abind (sync_get_head D root (vh_vault_id nxt)) (\<lambda>current.
     if map_option vh_generation_hash current \<noteq> expected_hash then aret False
     else abind (replace_file p (json_print D (head_body nxt))) (\<lambda>_. aret True))))"


section \<open>Frames of the file calls\<close>

text \<open>\<open>good\<close>: the metadata can be read, so that \<open>exists\<close> answers what is there.\<close>

definition good :: "folder \<Rightarrow> bool" where
  "good w \<longleftrightarrow> True \<notin> set (fd_stats w)"

definition same_except :: "string set \<Rightarrow> folder \<Rightarrow> folder \<Rightarrow> bool" where
  "same_except P w w' \<longleftrightarrow> (good w \<longrightarrow> good w') \<and> (\<forall>q. q \<notin> P \<longrightarrow> fd_files w' q = fd_files w q)"

lemma same_except_refl [simp]: "same_except P w w"
  by (simp add: same_except_def)

lemma same_except_trans: "same_except P u v \<Longrightarrow> same_except P v w \<Longrightarrow> same_except P u w"
  by (simp add: same_except_def)

lemma same_except_mono: "same_except P v w \<Longrightarrow> P \<subseteq> Q \<Longrightarrow> same_except Q v w"
  by (auto simp: same_except_def)

lemma next_fault_same: "next_fault w = (f, w') \<Longrightarrow> same_except {} w w' \<and> fd_files w' = fd_files w"
  by (auto simp: next_fault_def same_except_def good_def split: list.splits)

lemma fs_read_same: "fs_read p w = (r, w') \<Longrightarrow> same_except {} w w' \<and> fd_files w' = fd_files w"
  using next_fault_same [of w]
  by (auto simp: fs_read_def split: prod.splits option.splits if_splits)

lemma fs_read_Inr: "fs_read p w = (Inr t, w') \<Longrightarrow> fd_files w p = Some t"
  using next_fault_same [of w]
  by (auto simp: fs_read_def split: prod.splits option.splits if_splits)

lemma fs_create_same: "fs_create_dir_all p w = (r, w') \<Longrightarrow> same_except {} w w' \<and> fd_files w' = fd_files w"
  using next_fault_same [of w]
  by (auto simp: fs_create_dir_all_def same_except_def good_def split: prod.splits option.splits)

lemma fs_write_same: "fs_write p s w = (r, w') \<Longrightarrow> same_except {p} w w'"
  and fs_write_Inr: "fs_write p s w = (Inr u, w') \<Longrightarrow> fd_files w' p = Some s"
  using next_fault_same [of w]
  by (auto simp: fs_write_def same_except_def good_def split: prod.splits option.splits if_splits)

lemma fs_rename_same: "fs_rename p q w = (r, w') \<Longrightarrow> same_except {p, q} w w'"
  and fs_rename_Inr: "fs_rename p q w = (Inr u, w') \<Longrightarrow> fd_files w' q = fd_files w p"
  and fs_rename_Inl: "fs_rename p q w = (Inl e, w') \<Longrightarrow> fd_files w' = fd_files w"
  using next_fault_same [of w]
  by (auto simp: fs_rename_def same_except_def good_def split: prod.splits option.splits)

lemma io_act_cases:
  "io_act m w = (Inr a, w') \<longleftrightarrow> m w = (Inr a, w')"
  "io_act m w = (Inl e, w') \<longleftrightarrow> (\<exists>i. m w = (Inl i, w') \<and> e = sync_err ''sync_io'' (io_text i))"
  by (auto simp: io_act_def map_err_def split: prod.splits sum.splits)

lemma io_act_world: "io_act m w = (r, w') \<Longrightarrow> \<exists>r'. m w = (r', w')"
  by (auto simp: io_act_def split: prod.splits)

lemma read_to_string_same:
  "read_to_string p w = (r, w') \<Longrightarrow> same_except {} w w' \<and> fd_files w' = fd_files w"
  using fs_read_same [of p w]
  by (auto simp: read_to_string_def split: prod.splits sum.splits io_error.splits)

lemma read_to_string_Inr: "read_to_string p w = (Inr t, w') \<Longrightarrow> t = fd_files w p"
  using next_fault_same [of w]
  by (auto simp: read_to_string_def fs_read_def split: prod.splits option.splits if_splits)

text \<open>
  Writing the temporary file and renaming it is atomic for the target: it holds the new
  contents after a success, and is untouched after any failure.
\<close>

lemma replace_file_atomic:
  assumes "replace_file p s w = (r, w')" and tmp: "with_extension p ''json.tmp'' \<noteq> p"
  shows "same_except {p, with_extension p ''json.tmp''} w w'"
    and "fd_files w' p = (case r of Inr _ \<Rightarrow> Some s | Inl _ \<Rightarrow> fd_files w p)"
proof -
  let ?t = "with_extension p ''json.tmp''"
  obtain r1 w1 where wr: "fs_write ?t s w = (r1, w1)" by fastforce
  have w1: "same_except {p, ?t} w w1" "fd_files w1 p = fd_files w p"
    using fs_write_same [OF wr] tmp by (auto simp: same_except_def)
  obtain r2 w2 where rn: "fs_rename ?t p w1 = (r2, w2)" by fastforce
  have w2: "same_except {p, ?t} w1 w2"
    using fs_rename_same [OF rn] by (simp add: insert_commute)
  have run: "replace_file p s w = (case r1 of Inl i \<Rightarrow> (Inl (sync_err ''sync_io'' (io_text i)), w1)
      | Inr _ \<Rightarrow> (map_err (\<lambda>e. sync_err ''sync_io'' (io_text e)) r2, w2))"
    by (simp add: replace_file_def abind_apply io_act_def wr rn Let_def split: sum.splits)
  show "same_except {p, ?t} w w'"
    using assms(1) w1(1) same_except_trans [OF w1(1) w2] by (auto simp: run split: sum.splits)
  show "fd_files w' p = (case r of Inr _ \<Rightarrow> Some s | Inl _ \<Rightarrow> fd_files w p)"
  proof (cases r1)
    case (Inl i)
    then show ?thesis using assms(1) w1 by (auto simp: run)
  next
    case (Inr u)
    then have "fd_files w1 ?t = Some s" using fs_write_Inr wr by blast
    moreover have "fd_files w2 p = (case r2 of Inr _ \<Rightarrow> fd_files w1 ?t | Inl _ \<Rightarrow> fd_files w1 p)"
      using rn fs_rename_Inr fs_rename_Inl by (cases r2) fastforce+
    moreover have "w' = w2 \<and> r = map_err (\<lambda>e. sync_err ''sync_io'' (io_text e)) r2"
      using assms(1) Inr by (simp add: run)
    ultimately show ?thesis using w1(2) by (cases r2) simp_all
  qed
qed


section \<open>The paths of a vault\<close>

definition vault_file :: "string \<Rightarrow> string \<Rightarrow> string \<Rightarrow> string" where
  "vault_file root vault_id rest = root @ CHR ''/'' # vault_id @ CHR ''/'' # rest"

lemma id_char_sep: "list_all id_char v \<Longrightarrow> CHR ''/'' \<notin> set v"
  by (auto simp: list_all_iff id_char_def is_alnum_def is_digit_def is_upper_def is_lower_def)

lemma vault_file_inject:
  "list_all id_char v \<Longrightarrow> list_all id_char v'
    \<Longrightarrow> vault_file root v r = vault_file root v' r' \<longleftrightarrow> v = v' \<and> r = r'"
  by (simp add: vault_file_def append_sep_eq id_char_sep)

lemma head_path_Inr_iff:
  "head_path root v = Inr p \<longleftrightarrow>
     v \<noteq> [] \<and> list_all id_char v \<and> p = vault_file root v ''head.json''"
  by (auto simp: head_path_def sync_dir_def vault_file_def path_join_def)

lemma generation_path_Inr_iff:
  "generation_path root v g = Inr p \<longleftrightarrow>
     v \<noteq> [] \<and> list_all id_char v \<and> p = vault_file root v (CHR ''g'' # CHR ''/'' # show_nat (unat g) @ ''.json'')"
  by (auto simp: generation_path_def sync_dir_def vault_file_def path_join_def)

lemma with_extension_json:
  assumes "CHR ''/'' \<notin> set n" "CHR ''.'' \<notin> set n" "n \<noteq> []"
  shows "with_extension (d @ CHR ''/'' # n @ ''.json'') ''json.tmp'' = d @ CHR ''/'' # n @ ''.json.tmp''"
proof -
  have "rfind_char (CHR ''/'') (d @ CHR ''/'' # n @ ''.json'') = Some (length d)"
    using assms(1) by (intro rfind_char_append) simp
  moreover have "rfind_char (CHR ''.'') (n @ ''.json'') = Some (length n)"
    using rfind_char_append [of "CHR ''.''" "''json''" n] by simp
  ultimately show ?thesis
    using assms(3) by (cases "length n") (simp_all add: with_extension_def)
qed

lemma digits_plain: "CHR ''/'' \<notin> set (show_nat n)" "CHR ''.'' \<notin> set (show_nat n)"
  by (simp_all add: show_nat_no_char is_digit_def)

lemma tmp_of_head:
  "with_extension (vault_file root v ''head.json'') ''json.tmp'' = vault_file root v ''head.json.tmp''"
  using with_extension_json [of "''head''" "root @ CHR ''/'' # v"] by (simp add: vault_file_def)

lemma tmp_of_generation:
  "with_extension (vault_file root v (CHR ''g'' # CHR ''/'' # show_nat n @ ''.json'')) ''json.tmp''
     = vault_file root v (CHR ''g'' # CHR ''/'' # show_nat n @ ''.json.tmp'')"
  using with_extension_json [of "show_nat n" "root @ CHR ''/'' # v @ ''/g''"]
  by (simp add: vault_file_def digits_plain)

lemma parent_of_generation:
  assumes "CHR ''/'' \<notin> set ext"
  shows "path_parent (vault_file root v (CHR ''g'' # CHR ''/'' # show_nat n @ ext)) = root @ CHR ''/'' # v @ ''/g''"
  using assms rfind_char_append [of "CHR ''/''" "show_nat n @ ext" "root @ CHR ''/'' # v @ ''/g''"]
  by (simp add: path_parent_def vault_file_def digits_plain numeral_3_eq_3)

lemma generation_names:
  "show_nat m @ ''.json'' = show_nat n @ ''.json'' \<longleftrightarrow> m = n"
  "show_nat m @ ''.json'' \<noteq> show_nat n @ ''.json.tmp''"
  using append_sep_eq [of "CHR ''.''" "show_nat m" "show_nat n"] by (simp_all add: digits_plain)

section \<open>The contract of a sync store\<close>

text \<open>A history of calls to a store, whatever their results, and the heads that were set.\<close>

inductive sync_history ::
  "(string \<Rightarrow> u64 \<Rightarrow> string \<Rightarrow> ('w, verr, unit) act) \<Rightarrow> (vault_head \<Rightarrow> string option \<Rightarrow> ('w, verr, bool) act)
     \<Rightarrow> 'w \<Rightarrow> (vault_head \<times> string option) list \<Rightarrow> 'w \<Rightarrow> bool" for put cas w where
  start: "sync_history put cas w [] w"
| putting: "sync_history put cas w hs w1 \<Longrightarrow> put v g s w1 = (r, w2) \<Longrightarrow> sync_history put cas w hs w2"
| losing: "sync_history put cas w hs w1 \<Longrightarrow> cas nxt e w1 = (b, w2) \<Longrightarrow> b \<noteq> Inr True
    \<Longrightarrow> sync_history put cas w hs w2"
| winning: "sync_history put cas w hs w1 \<Longrightarrow> cas nxt e w1 = (Inr True, w2)
    \<Longrightarrow> sync_history put cas w (hs @ [(nxt, e)]) w2"

text \<open>The heads form a chain: each was set over the hash that the one before reads back with.\<close>

fun chained ::
  "(vault_head \<Rightarrow> string option) \<Rightarrow> string option \<Rightarrow> (vault_head \<times> string option) list \<Rightarrow> string option \<Rightarrow> bool"
where
  "chained published h [] h' \<longleftrightarrow> h' = h"
| "chained published h ((nxt, e) # hs) h' \<longleftrightarrow> e = h \<and> chained published (published nxt) hs h'"

lemma chained_cong:
  "(\<And>nxt e. (nxt, e) \<in> set hs \<Longrightarrow> p nxt = q nxt) \<Longrightarrow> chained p h hs h' = chained q h hs h'"
proof (induction hs arbitrary: h)
  case (Cons x hs)
  obtain nxt e where x: "x = (nxt, e)" by fastforce
  have "p nxt = q nxt" "chained p (p nxt) hs h' = chained q (p nxt) hs h'"
    using Cons by (auto simp: x)
  then show ?case by (simp add: x)
qed simp

lemma chained_snoc:
  "chained published h hs h' \<Longrightarrow> chained published h (hs @ [(nxt, h')]) (published nxt)"
  by (induction hs arbitrary: h) auto

text \<open>
  What the trait promises its callers, over a view of the store: the text of each generation
  and the hash of each head. Generations are written once, and the head only moves from the
  expected hash.
\<close>

locale sync_store =
  fixes ok :: "'w \<Rightarrow> bool"
    and gens :: "'w \<Rightarrow> string \<Rightarrow> u64 \<Rightarrow> string option"
    and head_hash :: "'w \<Rightarrow> string \<Rightarrow> string option"
    and put :: "string \<Rightarrow> u64 \<Rightarrow> string \<Rightarrow> ('w, verr, unit) act"
    and published :: "vault_head \<Rightarrow> string option" \<comment> \<open>the hash that a stored head reads back with\<close>
    and cas :: "vault_head \<Rightarrow> string option \<Rightarrow> ('w, verr, bool) act"
  assumes put_frame: "ok w \<Longrightarrow> put v g s w = (r, w') \<Longrightarrow>
      ok w' \<and> head_hash w' = head_hash w \<and> (\<forall>v' g' t. gens w v' g' = Some t \<longrightarrow> gens w' v' g' = Some t)"
    and put_ok: "ok w \<Longrightarrow> put v g s w = (Inr u, w') \<Longrightarrow> gens w' v g = Some s"
    and cas_frame: "ok w \<Longrightarrow> cas nxt e w = (b, w') \<Longrightarrow>
      ok w' \<and> gens w' = gens w \<and> (\<forall>v. v \<noteq> vh_vault_id nxt \<longrightarrow> head_hash w' v = head_hash w v)"
    and cas_lost: "ok w \<Longrightarrow> cas nxt e w = (b, w') \<Longrightarrow> b \<noteq> Inr True \<Longrightarrow> head_hash w' = head_hash w"
    and cas_won: "ok w \<Longrightarrow> cas nxt e w = (Inr True, w') \<Longrightarrow>
      head_hash w (vh_vault_id nxt) = e
      \<and> head_hash w' (vh_vault_id nxt) = published nxt"
begin

lemma history_ok: "sync_history put cas w hs w' \<Longrightarrow> ok w \<Longrightarrow> ok w'"
  by (induction rule: sync_history.induct) (auto dest: put_frame cas_frame)

lemma history_gens:
  "sync_history put cas w hs w' \<Longrightarrow> ok w \<Longrightarrow> gens w v g = Some t \<Longrightarrow> gens w' v g = Some t"
proof (induction rule: sync_history.induct)
  case (putting hs w1 v' g' s r w2)
  then show ?case using put_frame [OF history_ok [OF putting.hyps(1)]] by blast
next
  case (losing hs w1 nxt e b w2)
  then show ?case using cas_frame [OF history_ok [OF losing.hyps(1)]] by metis
next
  case (winning hs w1 nxt e w2)
  then show ?case using cas_frame [OF history_ok [OF winning.hyps(1)]] by metis
qed

lemma history_chained:
  "sync_history put cas w hs w' \<Longrightarrow> ok w
    \<Longrightarrow> chained published (head_hash w v) (filter (\<lambda>(nxt, e). vh_vault_id nxt = v) hs) (head_hash w' v)"
proof (induction rule: sync_history.induct)
  case (putting hs w1 v' g' s r w2)
  then show ?case using put_frame [OF history_ok [OF putting.hyps(1)] putting.hyps(2)] by simp
next
  case (losing hs w1 nxt e b w2)
  then show ?case using cas_lost [OF history_ok [OF losing.hyps(1)] losing.hyps(2,3)] by simp
next
  case (winning hs w1 nxt e w2)
  then have ok: "ok w1" using history_ok by blast
  show ?case
    using winning cas_frame [OF ok winning.hyps(2)] cas_won [OF ok winning.hyps(2)] chained_snoc
    by (cases "vh_vault_id nxt = v") auto
qed simp

end


section \<open>The folder keeps the contract\<close>

definition folder_gens :: "string \<Rightarrow> folder \<Rightarrow> string \<Rightarrow> u64 \<Rightarrow> string option" where
  "folder_gens root w v g = (case generation_path root v g of Inl _ \<Rightarrow> None | Inr p \<Rightarrow> fd_files w p)"

definition read_hash :: "deps \<Rightarrow> string \<Rightarrow> string option" where
  "read_hash D raw = map_option vh_generation_hash (result_ok (parse_head D raw))"

definition folder_head :: "deps \<Rightarrow> string \<Rightarrow> folder \<Rightarrow> string \<Rightarrow> string option" where
  "folder_head D root w v =
     (case head_path root v of Inl _ \<Rightarrow> None | Inr p \<Rightarrow> Option.bind (fd_files w p) (read_hash D))"

definition folder_published :: "deps \<Rightarrow> vault_head \<Rightarrow> string option" where
  "folder_published D nxt = read_hash D (json_print D (head_body nxt))"

lemma folder_views_frame:
  assumes "same_except P w w'"
    and "\<And>p. generation_path root v g = Inr p \<Longrightarrow> p \<notin> P"
  shows "folder_gens root w' v g = folder_gens root w v g"
  using assms by (auto simp: folder_gens_def same_except_def split: sum.splits)

lemma folder_head_frame:
  assumes "same_except P w w'"
    and "\<And>p. head_path root v = Inr p \<Longrightarrow> p \<notin> P"
  shows "folder_head D root w' v = folder_head D root w v"
  using assms by (auto simp: folder_head_def same_except_def split: sum.splits)

text \<open>What a call of \<open>put_if_absent\<close> does to the files.\<close>

lemma put_if_absent_cases:
  assumes "good w" and run: "put_if_absent root v g s w = (r, w')"
  shows "(same_except {} w w' \<and> r \<noteq> Inr ())
    \<or> (\<exists>p. generation_path root v g = Inr p \<and> fd_files w p = Some s \<and> same_except {} w w' \<and> r = Inr ())
    \<or> (\<exists>p. generation_path root v g = Inr p \<and> fd_files w p = None
        \<and> same_except {p, with_extension p ''json.tmp''} w w'
        \<and> fd_files w' p = (case r of Inr _ \<Rightarrow> Some s | Inl _ \<Rightarrow> None))"
proof (cases "generation_path root v g")
  case (Inl e)
  then show ?thesis using run by (auto simp: put_if_absent_def abind_apply)
next
  case (Inr p)
  let ?t = "with_extension p ''json.tmp''"
  have neq: "?t \<noteq> p"
    using Inr by (auto simp: generation_path_Inr_iff tmp_of_generation vault_file_inject generation_names)
  obtain r1 w1 where mk: "fs_create_dir_all (path_parent p) w = (r1, w1)" by fastforce
  obtain b w2 where ex: "fs_exists p w1 = (b, w2)" by fastforce
  have w1: "same_except {} w w1" "fd_files w1 = fd_files w" using fs_create_same [OF mk] by auto
  then have "good w1" using assms(1) by (simp add: same_except_def)
  then have w2: "same_except {} w1 w2" "fd_files w2 = fd_files w1" and b: "\<not> b \<Longrightarrow> fd_files w p = None"
    using ex w1 by (auto simp: fs_exists_def good_def same_except_def Let_def split: list.splits)
  note here = same_except_trans [OF w1(1) w2(1)]
  show ?thesis
  proof (cases r1)
    case (Inl e)
    then show ?thesis
      using run w1 Inr by (auto simp: put_if_absent_def abind_apply io_act_def mk)
  next
    case r1: (Inr u)
    show ?thesis
    proof (cases b)
      case False
      then have "replace_file p s w2 = (r, w')"
        using run Inr r1 by (simp add: put_if_absent_def abind_apply io_act_def mk ex)
      from replace_file_atomic [OF this neq] here b [OF False] w1(2) w2(2) show ?thesis
        using Inr same_except_trans [OF same_except_mono [OF here]] by (auto split: sum.splits)
    next
      case True
      obtain r3 w3 where rd: "fs_read p w2 = (r3, w3)" by fastforce
      have w3: "same_except {} w w3"
        using fs_read_same [OF rd] here same_except_trans by blast
      have found: "fd_files w p = Some t" if "r3 = Inr t" for t
        using fs_read_Inr rd w1(2) w2(2) that by metis
      show ?thesis
        using run Inr r1 True w3 found
        by (cases r3) (auto simp: put_if_absent_def abind_apply io_act_def mk ex rd split: if_splits)
    qed
  qed
qed


lemma sync_get_head_same:
  "sync_get_head D root v w = (r, w') \<Longrightarrow> same_except {} w w' \<and> fd_files w' = fd_files w"
  using read_to_string_same [of _ w]
  by (auto simp: sync_get_head_def abind_apply split: prod.splits sum.splits option.splits)

lemma sync_get_head_Inr:
  "sync_get_head D root v w = (Inr c, w') \<Longrightarrow> map_option vh_generation_hash c = folder_head D root w v"
  using read_to_string_Inr [of _ w]
  by (auto simp: sync_get_head_def abind_Inr_iff folder_head_def read_hash_def split: option.splits)

text \<open>What a call of \<open>compare_and_swap_head\<close> does to the files, whatever fails.\<close>

lemma cas_cases:
  assumes run: "compare_and_swap_head D root nxt e w = (b, w')"
    and p: "head_path root (vh_vault_id nxt) = Inr p"
  shows "same_except {p, with_extension p ''json.tmp''} w w'
    \<and> (if b = Inr True
        then folder_head D root w (vh_vault_id nxt) = e
          \<and> fd_files w' p = Some (json_print D (head_body nxt))
        else fd_files w' p = fd_files w p)"
proof -
  let ?t = "with_extension p ''json.tmp''"
  have neq: "?t \<noteq> p"
    using p by (auto simp: head_path_Inr_iff tmp_of_head vault_file_inject)
  obtain r1 w1 where mk: "fs_create_dir_all (path_parent p) w = (r1, w1)" by fastforce
  obtain r2 w2 where hd: "sync_get_head D root (vh_vault_id nxt) w1 = (r2, w2)" by fastforce
  have w1: "same_except {} w w1" "fd_files w1 = fd_files w" using fs_create_same [OF mk] by auto
  have w2: "same_except {} w1 w2" "fd_files w2 = fd_files w1" using sync_get_head_same [OF hd] by auto
  have here: "same_except {p, ?t} w w1" "same_except {p, ?t} w w2"
    using same_except_mono [OF w1(1)] same_except_mono [OF same_except_trans [OF w1(1) w2(1)]] by auto
  show ?thesis
  proof (cases r1)
    case (Inl i)
    then show ?thesis
      using run p here w1 by (auto simp: compare_and_swap_head_def abind_apply io_act_def mk)
  next
    case r1: (Inr u)
    show ?thesis
    proof (cases r2)
      case (Inl i)
      then show ?thesis
        using run p here w1 w2 r1
        by (auto simp: compare_and_swap_head_def abind_apply io_act_def mk hd)
    next
      case (Inr c)
      have c: "map_option vh_generation_hash c = folder_head D root w (vh_vault_id nxt)"
        using sync_get_head_Inr [of D root _ w1 c w2] hd Inr
        by (simp add: folder_head_def w1(2) cong: sum.case_cong)
      show ?thesis
      proof (cases "map_option vh_generation_hash c = e")
        case False
        then show ?thesis
          using run p here w1 w2 r1 Inr
          by (auto simp: compare_and_swap_head_def abind_apply io_act_def mk hd)
      next
        case True
        obtain r3 w3 where rp: "replace_file p (json_print D (head_body nxt)) w2 = (r3, w3)"
          by fastforce
        have "b = (case r3 of Inl e \<Rightarrow> Inl e | Inr _ \<Rightarrow> Inr True) \<and> w' = w3"
          using run p r1 Inr True
          by (auto simp: compare_and_swap_head_def abind_apply io_act_def mk hd rp split: sum.splits)
        with replace_file_atomic [OF rp neq] same_except_trans [OF here(2)] c True w1(2) w2(2)
        show ?thesis by (cases r3) auto
      qed
    qed
  qed
qed

lemma cas_bad_id:
  "head_path root (vh_vault_id nxt) = Inl i \<Longrightarrow> compare_and_swap_head D root nxt e w = (Inl i, w)"
  by (simp add: compare_and_swap_head_def abind_apply)

lemma head_not_generation:
  assumes "head_path root v = Inr p" "generation_path root v' g = Inr q"
  shows "q \<notin> {p, with_extension p ''json.tmp''}" "p \<notin> {q, with_extension q ''json.tmp''}"
  using assms
  by (auto simp: head_path_Inr_iff generation_path_Inr_iff tmp_of_head tmp_of_generation vault_file_inject)

interpretation folder: sync_store good "folder_gens root" "folder_head D root" "put_if_absent root"
  "folder_published D" "compare_and_swap_head D root" for D root
proof
  fix w v g s r w'
  assume ok: "good w" and run: "put_if_absent root v g s w = (r, w')"
  note cases = put_if_absent_cases [OF ok run]
  have kept: "good w'" using cases ok by (auto simp: same_except_def)
  have head: "folder_head D root w' = folder_head D root w"
  proof
    fix v'
    have "fd_files w' q = fd_files w q" if "head_path root v' = Inr q" for q
      using cases head_not_generation(2) [OF that] by (auto simp: same_except_def)
    then show "folder_head D root w' v' = folder_head D root w v'"
      by (simp add: folder_head_def split: sum.splits)
  qed
  have "folder_gens root w' v' g' = Some t" if t: "folder_gens root w v' g' = Some t" for v' g' t
  proof -
    obtain q where q: "generation_path root v' g' = Inr q" "fd_files w q = Some t"
      using t by (auto simp: folder_gens_def split: sum.splits)
    have "q \<notin> {p, with_extension p ''json.tmp''}"
      if "generation_path root v g = Inr p" "fd_files w p = None" for p
      using q that
      by (auto simp: generation_path_Inr_iff tmp_of_generation vault_file_inject generation_names)
    then have "fd_files w' q = fd_files w q" using cases by (auto simp: same_except_def)
    with q show ?thesis by (simp add: folder_gens_def)
  qed
  with kept head show "good w' \<and> folder_head D root w' = folder_head D root w \<and>
      (\<forall>v' g' t. folder_gens root w v' g' = Some t \<longrightarrow> folder_gens root w' v' g' = Some t)"
    by blast
next
  fix w v g s u w'
  assume "good w" and run: "put_if_absent root v g s w = (Inr u, w')"
  then show "folder_gens root w' v g = Some s"
    using put_if_absent_cases [OF _ run] by (auto simp: folder_gens_def same_except_def)
next
  fix w nxt e b w'
  assume ok: "good w" and run: "compare_and_swap_head D root nxt e w = (b, w')"
  show "good w' \<and> folder_gens root w' = folder_gens root w
    \<and> (\<forall>v. v \<noteq> vh_vault_id nxt \<longrightarrow> folder_head D root w' v = folder_head D root w v)"
  proof (cases "head_path root (vh_vault_id nxt)")
    case (Inl i)
    then show ?thesis using run ok by (simp add: cas_bad_id)
  next
    case (Inr p)
    have "q \<notin> {p, with_extension p ''json.tmp''}"
      if "head_path root v = Inr q" "v \<noteq> vh_vault_id nxt" for v q
      using that Inr by (auto simp: head_path_Inr_iff tmp_of_head vault_file_inject)
    note other = this
    have same: "same_except {p, with_extension p ''json.tmp''} w w'"
      using cas_cases [OF run Inr] by blast
    have "folder_gens root w' v g = folder_gens root w v g" for v g
      by (rule folder_views_frame [OF same head_not_generation(1) [OF Inr]])
    moreover have "folder_head D root w' v = folder_head D root w v" if "v \<noteq> vh_vault_id nxt" for v
      by (rule folder_head_frame [OF same]) (use other that in blast)
    ultimately show ?thesis using same ok by (simp add: fun_eq_iff same_except_def)
  qed
next
  fix w nxt e b w'
  assume "good w" and run: "compare_and_swap_head D root nxt e w = (b, w')" and lost: "b \<noteq> Inr True"
  show "folder_head D root w' = folder_head D root w"
  proof (cases "head_path root (vh_vault_id nxt)")
    case (Inl i)
    then show ?thesis using run by (simp add: cas_bad_id)
  next
    case (Inr p)
    have "fd_files w' q = fd_files w q" if "head_path root v = Inr q" for v q
      using cas_cases [OF run Inr] lost that Inr
      by (cases "v = vh_vault_id nxt")
        (auto simp: same_except_def head_path_Inr_iff tmp_of_head vault_file_inject)
    then show ?thesis by (auto simp: folder_head_def fun_eq_iff split: sum.splits)
  qed
next
  fix w nxt e w'
  assume "good w" and run: "compare_and_swap_head D root nxt e w = (Inr True, w')"
  then obtain p where p: "head_path root (vh_vault_id nxt) = Inr p"
    using cas_bad_id by (cases "head_path root (vh_vault_id nxt)") auto
  with cas_cases [OF run p]
  show "folder_head D root w (vh_vault_id nxt) = e
      \<and> folder_head D root w' (vh_vault_id nxt) = folder_published D nxt"
    by (simp add: folder_head_def folder_published_def)
qed


section \<open>The properties of the folder\<close>

text \<open>Without its metadata a stored generation looks absent, and is written over.\<close>

lemma unreadable_metadata_overwrites:
  assumes p: "generation_path root v g = Inr p" and lost: "fd_stats w = True # bs" and ok: "fd_faults w = []"
  shows "\<exists>w'. put_if_absent root v g s w = (Inr (), w') \<and> fd_files w' p = Some s"
proof -
  define t where "t = with_extension p ''json.tmp''"
  define w1 where "w1 = w\<lparr>fd_dirs := fd_dirs w \<union> dirs_to (path_parent p), fd_stats := bs\<rparr>"
  have "path_parent t = path_parent p"
    using p by (auto simp: t_def generation_path_Inr_iff tmp_of_generation parent_of_generation)
  then have "path_parent t \<in> fd_dirs w1" by (simp add: w1_def dirs_to_def)
  then have "replace_file p s w1 = (Inr (), w1\<lparr>fd_files := (fd_files w1)(t := None, p \<mapsto> s)\<rparr>)"
    using ok by (simp add: replace_file_def Let_def abind_apply io_act_def fs_write_def fs_rename_def
        next_fault_def w1_def flip: t_def)
  moreover have "put_if_absent root v g s w = replace_file p s w1"
    using ok lost by (simp add: put_if_absent_def abind_apply p io_act_def fs_create_dir_all_def
        next_fault_def fs_exists_def w1_def)
  ultimately show ?thesis by simp
qed

text \<open>
  C28. Generations are immutable as long as the metadata of the folder can be read: through any
  number of calls by this client, each succeeding or failing at any file operation, the text
  of a generation that is there never changes, and a successful \<open>put_if_absent\<close> leaves exactly
  the given text. Where the metadata of a stored generation cannot be read, the code takes it
  for absent and writes over it.
\<close>

theorem generations_immutable:
  assumes "sync_history (put_if_absent root) (compare_and_swap_head D root) w hs w'" and "good w"
  shows "(folder_gens root w v g = Some t \<longrightarrow> folder_gens root w' v g = Some t)
    \<and> (put_if_absent root v g s w' = (Inr u, w'') \<longrightarrow> folder_gens root w'' v g = Some s)
    \<and> (folder_gens root w1 v g = Some t \<and> fd_stats w1 = True # bs \<and> fd_faults w1 = [] \<longrightarrow>
        (\<exists>w2. put_if_absent root v g s w1 = (Inr (), w2) \<and> folder_gens root w2 v g = Some s))"
proof -
  have "\<exists>w2. put_if_absent root v g s w1 = (Inr (), w2) \<and> folder_gens root w2 v g = Some s"
    if "folder_gens root w1 v g = Some t" "fd_stats w1 = True # bs" "fd_faults w1 = []"
    using that unreadable_metadata_overwrites [of root v g _ w1 bs s]
    by (auto simp: folder_gens_def split: sum.splits)
  then show ?thesis
    using folder.history_gens [OF assms] folder.put_ok [OF folder.history_ok [OF assms]] by blast
qed

text \<open>A head of UTF-8 strings is written as a text that is read back as this head.\<close>

lemma head_body_plain:
  assumes "utf8_valid (vh_vault_id nxt)" "utf8_valid (vh_generation_hash nxt)"
  shows "plain_json 127 (head_body nxt)"
proof -
  have "- (2 ^ 63) \<le> uint (vh_generation nxt)" by (rule order_trans [OF _ uint_ge_0]) simp
  moreover have "uint (vh_generation nxt) < 2 ^ 64" using uint_lt2p [of "vh_generation nxt"] by simp
  ultimately show ?thesis
    using assms by (simp add: head_body_def jobj_def obj_of_def ordered_map_def ju64_def utf8_valid_ascii ascii_def)
qed

lemma published_head:
  assumes "json_doc D" "utf8_valid (vh_vault_id nxt)" "utf8_valid (vh_generation_hash nxt)"
  shows "folder_published D nxt = Some (vh_generation_hash nxt)"
proof -
  have "json_parse D (json_print D (head_body nxt)) = Inr (head_body nxt)"
    using assms(1) head_body_plain [OF assms(2,3)] by (simp add: json_doc_def)
  then show ?thesis
    by (simp add: folder_published_def read_hash_def parse_head_def head_body_def jget_str_def)
qed

text \<open>
  C29. The head of a vault moves as a compare-and-swap: through any calls of this client and I/O
  failures, while the metadata can be read, the heads that were set form a chain in which each
  expected hash is the hash of the head set just before, and the folder reads back the last of
  them, never a torn one. The heads are of Rust strings, that is of UTF-8, and \<open>serde_json\<close>
  reads back the texts it prints for such values.
\<close>

theorem head_swaps_form_chain:
  assumes "sync_history (put_if_absent root) (compare_and_swap_head D root) w hs w'" and "good w"
    and "json_doc D"
    and "\<And>nxt e. (nxt, e) \<in> set hs \<Longrightarrow> utf8_valid (vh_vault_id nxt) \<and> utf8_valid (vh_generation_hash nxt)"
  shows "chained (\<lambda>nxt. Some (vh_generation_hash nxt)) (folder_head D root w v)
    (filter (\<lambda>(nxt, e). vh_vault_id nxt = v) hs) (folder_head D root w' v)"
proof -
  let ?hs = "filter (\<lambda>(nxt, e). vh_vault_id nxt = v) hs"
  have "chained (folder_published D) (folder_head D root w v) ?hs (folder_head D root w' v)"
    by (rule folder.history_chained [OF assms(1,2)])
  moreover have "folder_published D nxt = Some (vh_generation_hash nxt)" if "(nxt, e) \<in> set ?hs" for nxt e
    using that assms(4) by (intro published_head [OF assms(3)]) auto
  ultimately show ?thesis using chained_cong [of ?hs "folder_published D"] by metis
qed

text \<open>
  C30. The files of a vault stay in its folder: a vault id with a character that could leave
  the folder is refused, distinct generations of distinct vaults have distinct files below
  the folder of their vault, and no temporary file is a head or a generation.
\<close>

theorem sync_paths_confined:
  assumes "generation_path root v g = Inr p" and "generation_path root v' g' = Inr p'"
    and "head_path root v' = Inr q"
  shows "(p = p' \<longleftrightarrow> v = v' \<and> g = g') \<and> p \<noteq> q
    \<and> with_extension p ''json.tmp'' \<notin> {p', q} \<and> with_extension q ''json.tmp'' \<notin> {p, q}
    \<and> (\<exists>rest. p = root @ ''/'' @ v @ ''/'' @ rest) \<and> CHR ''/'' \<notin> set v \<and> CHR ''.'' \<notin> set v"
proof -
  have "CHR ''.'' \<notin> set v" if "list_all id_char v"
    using that by (auto simp: list_all_iff id_char_def is_alnum_def is_digit_def is_upper_def is_lower_def)
  moreover have "\<exists>rest. p = root @ ''/'' @ v @ ''/'' @ rest"
    using assms(1) by (auto simp: generation_path_Inr_iff vault_file_def)
  moreover have "(p = p' \<longleftrightarrow> v = v' \<and> g = g') \<and> p \<noteq> q
    \<and> with_extension p ''json.tmp'' \<notin> {p', q} \<and> with_extension q ''json.tmp'' \<notin> {p, q}"
    using assms
    by (auto simp: generation_path_Inr_iff head_path_Inr_iff tmp_of_head tmp_of_generation
        vault_file_inject generation_names unsigned_word_eqI)
  ultimately show ?thesis using assms(1) id_char_sep by (simp add: generation_path_Inr_iff)
qed

section \<open>Witnesses\<close>

text \<open>A JSON text as a number: a printer whose texts read back.\<close>

instance json :: countable
  by countable_datatype

definition coded_deps :: deps where
  "coded_deps = sample_deps\<lparr>json_print := (\<lambda>v. show_nat (to_nat v)),
     json_parse := (\<lambda>s. Inr (from_nat (digits_val s)))\<rparr>"

lemma coded_deps_json [simp]: "json_doc coded_deps"
  by (simp add: coded_deps_def json_doc_def)

definition sample_folder :: folder where
  "sample_folder = \<lparr>fd_files = Map.empty, fd_dirs = {}, fd_faults = [], fd_stats = []\<rparr>"

lemma sample_folder_good [simp]: "good sample_folder"
  by (simp add: sample_folder_def good_def)

definition sample_head :: vault_head where
  "sample_head = \<lparr>vh_vault_id = ''v1'', vh_generation = 1, vh_generation_hash = ''h''\<rparr>"

lemma sample_paths:
  "generation_path ''r'' ''v1'' 1 = Inr ''r/v1/g/1.json''"
  "head_path ''r'' ''v1'' = Inr ''r/v1/head.json''"
  by (simp_all add: generation_path_def head_path_def sync_dir_def id_char_def is_alnum_def is_digit_def
      is_lower_def path_join_def show_nat.simps [of "Suc 0"] char_of_def bit_Suc_0_iff)

lemma replace_file_runs:
  assumes "fd_faults w = []" "path_parent (with_extension p ''json.tmp'') \<in> fd_dirs w"
  shows "\<exists>w'. replace_file p s w = (Inr (), w')"
  using assms by (simp add: replace_file_def abind_apply io_act_def fs_write_def fs_rename_def next_fault_def Let_def)

lemma dirs_to_self: "p \<in> dirs_to p"
  by (simp add: dirs_to_def)

lemma sample_put:
  "\<exists>w. put_if_absent ''r'' ''v1'' 1 ''c'' sample_folder = (Inr (), w)"
proof -
  let ?p = "''r/v1/g/1.json''"
  have "path_parent (with_extension ?p ''json.tmp'') = path_parent ?p" "?p \<noteq> path_parent ?p"
    "?p \<notin> dirs_to (path_parent ?p)"
    by (simp_all add: path_parent_def with_extension_def dirs_to_def)
  moreover from this have "\<exists>w'. replace_file ?p ''c'' (sample_folder\<lparr>fd_dirs := dirs_to (path_parent ?p)\<rparr>)
      = (Inr (), w')"
    by (intro replace_file_runs) (simp_all add: sample_folder_def dirs_to_self)
  ultimately show ?thesis
    by (simp add: put_if_absent_def abind_apply sample_paths io_act_def fs_create_dir_all_def
        next_fault_def sample_folder_def fs_exists_def)
qed

theorem generations_immutable_witness:
  "\<exists>w. put_if_absent ''r'' ''v1'' 1 ''c'' sample_folder = (Inr (), w)
     \<and> folder_gens ''r'' w ''v1'' 1 = Some ''c''"
  using sample_put generations_immutable [OF sync_history.start sample_folder_good] by blast

lemma sample_cas:
  "\<exists>w. compare_and_swap_head coded_deps ''r'' sample_head None sample_folder = (Inr True, w)"
proof -
  define p where "p = ''r/v1/head.json''"
  define w1 where "w1 = sample_folder\<lparr>fd_dirs := dirs_to (path_parent p)\<rparr>"
  have path: "head_path ''r'' (vh_vault_id sample_head) = Inr p"
    by (simp add: p_def sample_paths sample_head_def)
  have "path_parent (with_extension p ''json.tmp'') = path_parent p"
    by (simp add: p_def path_parent_def with_extension_def)
  then obtain w2 where w2: "replace_file p (json_print coded_deps (head_body sample_head)) w1 = (Inr (), w2)"
    using replace_file_runs [of w1 p] by (auto simp: w1_def sample_folder_def dirs_to_self)
  have "sync_get_head coded_deps ''r'' (vh_vault_id sample_head) w1 = (Inr None, w1)"
    by (simp add: sync_get_head_def abind_apply path read_to_string_def fs_read_def
        next_fault_def sample_folder_def w1_def)
  moreover have "fs_create_dir_all (path_parent p) sample_folder = (Inr (), w1)"
    by (simp add: fs_create_dir_all_def next_fault_def sample_folder_def w1_def)
  ultimately show ?thesis
    by (simp add: compare_and_swap_head_def abind_apply path io_act_def w2)
qed

theorem head_swaps_form_chain_witness:
  "\<exists>w. compare_and_swap_head coded_deps ''r'' sample_head None sample_folder = (Inr True, w)
     \<and> folder_head coded_deps ''r'' w ''v1'' = Some ''h''"
proof -
  obtain w where w: "compare_and_swap_head coded_deps ''r'' sample_head None sample_folder = (Inr True, w)"
    using sample_cas by blast
  have "sync_history (put_if_absent ''r'') (compare_and_swap_head coded_deps ''r'') sample_folder
      ([] @ [(sample_head, None)]) w"
    using sync_history.start w by (rule sync_history.winning)
  from head_swaps_form_chain [OF this sample_folder_good coded_deps_json, of "''v1''"] w show ?thesis
    by (simp add: sample_head_def utf8_valid_ascii ascii_def)
qed

theorem sync_paths_confined_witness:
  "\<exists>p q. generation_path ''r'' ''v1'' 1 = Inr p \<and> head_path ''r'' ''v1'' = Inr q \<and> p \<noteq> q"
proof -
  have "list_all id_char ''v1''" by (simp add: id_char_def is_alnum_def is_digit_def is_lower_def)
  then obtain p q where "generation_path ''r'' ''v1'' 1 = Inr p" "head_path ''r'' ''v1'' = Inr q"
    by (simp add: generation_path_Inr_iff head_path_Inr_iff)
  with sync_paths_confined [of "''r''" "''v1''" 1 p "''v1''" 1 p q] show ?thesis by blast
qed

end
