(* ===== verification/Discovery_Http.thy ===== *)
theory Discovery_Http
  imports Signed_Text
begin

text \<open>
  The ground of \<open>crates/discovery\<close>: \<open>errors.rs\<close>, \<open>http.rs\<close>, \<open>config.rs\<close>, \<open>identity_wire.rs\<close>
  and the path builders of \<open>locator.rs\<close>. The HTTP transport (\<open>reqwest\<close>), the clock, the
  random source and RFC 3339 dates are a record of parameters over an environment \<open>'h\<close>.
\<close>

section \<open>errors.rs\<close>

record perr =
  pe_code :: string
  pe_message :: string
  pe_status :: "u16 option"
  pe_server_time :: "json option"

definition perr_new :: "string \<Rightarrow> string \<Rightarrow> perr" where
  "perr_new code message =
     \<lparr>pe_code = code, pe_message = message, pe_status = None, pe_server_time = None\<rparr>"

definition perr_with_status :: "string \<Rightarrow> string \<Rightarrow> u16 \<Rightarrow> perr" where
  "perr_with_status code message status =
     \<lparr>pe_code = code, pe_message = message, pe_status = Some status, pe_server_time = None\<rparr>"

definition is_pubkey_replay_rejection :: "string \<Rightarrow> bool" where
  "is_pubkey_replay_rejection code \<longleftrightarrow> code = ''nonce_replayed'' \<or> code = ''replay_rejection''"

definition is_replay_rejection :: "perr \<Rightarrow> bool" where
  "is_replay_rejection e = is_pubkey_replay_rejection (pe_code e)"

text \<open>\<open>Option::or_else\<close> and \<open>Option::unwrap_or\<close>.\<close>

fun or_else :: "'a option \<Rightarrow> 'a option \<Rightarrow> 'a option" where
  "or_else (Some a) b = Some a"
| "or_else None b = b"

fun unwrap_or :: "'a \<Rightarrow> 'a option \<Rightarrow> 'a" where
  "unwrap_or d (Some a) = a"
| "unwrap_or d None = d"

definition failed_message :: "u16 \<Rightarrow> string" where
  "failed_message status = ''Pubkey request failed ('' @ show_nat (unat status) @ '')''"

definition perr_from_response :: "u16 \<Rightarrow> json \<Rightarrow> perr" where
  "perr_from_response status body =
     (case as_object body of
        None \<Rightarrow> \<lparr>pe_code = ''server_error'', pe_message = failed_message status,
            pe_status = Some status, pe_server_time = None\<rparr>
      | Some obj \<Rightarrow>
          (case Option.bind (obj_get obj ''error'') as_object of
             Some nested \<Rightarrow> \<lparr>
               pe_code = unwrap_or ''server_error''
                 (or_else (get_str nested ''code'') (get_str obj ''code'')),
               pe_message = unwrap_or (failed_message status)
                 (or_else (get_str nested ''message'') (get_str obj ''message'')),
               pe_status = Some status,
               pe_server_time = or_else
                 (Option.bind (obj_get nested ''details'') (\<lambda>d. jget d ''server_time''))
                 (obj_get obj ''server_time'')\<rparr>
           | None \<Rightarrow> \<lparr>
               pe_code = unwrap_or ''server_error''
                 (or_else (get_str obj ''error'') (get_str obj ''code'')),
               pe_message = unwrap_or (failed_message status) (get_str obj ''message''),
               pe_status = Some status,
               pe_server_time = obj_get obj ''server_time''\<rparr>))"

section \<open>The environment\<close>

text \<open>A transport error: its \<open>Display\<close> text, \<open>is_timeout\<close> and \<open>is_connect\<close>.\<close>

record transport_error =
  te_text :: string
  te_timeout :: bool
  te_connect :: bool

record wire_request =
  wq_method :: string
  wq_url :: string
  wq_headers :: "(string \<times> string) list"
  wq_json :: "json option"

text \<open>
  \<open>nt_send\<close> gives the status and the body text, which may be unreadable. \<open>nt_get_config\<close> is
  the request of the mailer that also reads the \<open>cache-control\<close> header and parses the body.
\<close>

record 'h net =
  nt_send :: "wire_request \<Rightarrow> 'h \<Rightarrow> (transport_error + u16 \<times> string option) \<times> 'h"
  nt_get_config :: "string \<Rightarrow> 'h \<Rightarrow> (string + string option \<times> u16 \<times> (string + json)) \<times> 'h"
  nt_sleep :: "'h \<Rightarrow> 'h" \<comment> \<open>400 milliseconds\<close>
  nt_now_ms :: "'h \<Rightarrow> int \<times> 'h"
  nt_instant :: "'h \<Rightarrow> nat \<times> 'h" \<comment> \<open>\<open>Instant::now()\<close>, in seconds\<close>
  nt_random :: "nat \<Rightarrow> 'h \<Rightarrow> (string + bytes) \<times> 'h"
  nt_expires_in :: "string \<Rightarrow> 'h \<Rightarrow> int option \<times> 'h" \<comment> \<open>seconds until an RFC 3339 date\<close>

section \<open>http.rs\<close>

definition CONNECTION_ATTEMPTS :: nat where
  "CONNECTION_ATTEMPTS = 4"

definition UNREACHABLE_MESSAGE :: string where
  "UNREACHABLE_MESSAGE = ''The pubkey server could not be reached.''"

definition HTTPS_FAILED_MESSAGE :: string where
  "HTTPS_FAILED_MESSAGE = ''The pubkey server was reached but HTTPS could not be established.''"

definition TIMEOUT_MESSAGE :: string where
  "TIMEOUT_MESSAGE = ''The pubkey server did not respond in time.''"

definition reconciled_from_replay_response :: json where
  "reconciled_from_replay_response =
     jobj [(''ok'', JBool True), (''reconciled_from_replay'', JBool True)]"

definition join_url :: "string \<Rightarrow> string \<Rightarrow> string" where
  "join_url base path =
     trim_end_char (CHR ''/'') base @ (if starts_with ''/'' path then path else ''/'' @ path)"

datatype transport_class = Tls | Timeout | Unreachable | Other

definition classify_transport :: "deps \<Rightarrow> transport_error \<Rightarrow> transport_class" where
  "classify_transport D e =
     (let t = to_lowercase D (te_text e) in
      if te_timeout e then Timeout
      else if contains_str ''handshake'' t \<or> contains_str ''certificate'' t \<or> contains_str ''tls'' t
        \<or> contains_str ''ssl'' t \<or> contains_str ''badcertificate'' t then Tls
      else if te_connect e \<or> contains_str ''connection failed'' t
        \<or> contains_str ''connection refused'' t \<or> contains_str ''connection reset'' t
        \<or> contains_str ''dns'' t \<or> contains_str ''failed to lookup'' t
        \<or> contains_str ''name resolution'' t then Unreachable
      else Other)"

text \<open>
  The method of the request: the four the code names, another token as it is, and \<open>GET\<close> for
  what is not a method token (\<open>http::Method\<close> accepts the token characters of RFC 9110).
\<close>

definition token_char :: "char \<Rightarrow> bool" where
  "token_char c \<longleftrightarrow> is_alnum c \<or> c \<in> set ''!#$%&*+-.^_`|~'' \<or> c = CHR 0x27"

definition request_method :: "deps \<Rightarrow> string \<Rightarrow> string" where
  "request_method D m =
     (let u = to_uppercase D m
      in if u \<noteq> [] \<and> list_all token_char u then u else ''GET'')"

definition build_request :: "deps \<Rightarrow> string \<Rightarrow> string \<Rightarrow> json option \<Rightarrow> wire_request" where
  "build_request D url m body =
     \<lparr>wq_method = request_method D m, wq_url = url,
      wq_headers = (''Accept'', ''application/json'')
        # (if body = None then [] else [(''Content-Type'', ''application/json'')]),
      wq_json = body\<rparr>"

definition parse_body :: "deps \<Rightarrow> string option \<Rightarrow> json" where
  "parse_body D received =
     (let t = unwrap_or [] received
      in if trim t = [] then JNull
         else (case json_parse D t of Inr v \<Rightarrow> v | Inl _ \<Rightarrow> JStr t))"

text \<open>What an answer of the server gives, \<open>had_failure\<close> telling of earlier attempts.\<close>

definition request_answer :: "deps \<Rightarrow> bool \<Rightarrow> bool \<Rightarrow> u16 \<Rightarrow> string option \<Rightarrow> perr + json" where
  "request_answer D reconcile had_failure status received =
     (let parsed = parse_body D received in
      if \<not> (200 \<le> unat status \<and> unat status < 300) then
        (let e = perr_from_response status parsed in
         if reconcile \<and> had_failure \<and> is_replay_rejection e
         then Inr reconciled_from_replay_response else Inl e)
      else Inr parsed)"

definition connection_error :: "transport_class \<Rightarrow> perr" where
  "connection_error c = (if c = Timeout
     then perr_with_status ''request_timeout'' TIMEOUT_MESSAGE 0
     else perr_with_status ''pubkey_unreachable'' UNREACHABLE_MESSAGE 0)"

text \<open>The loop over the attempts; the number counts those that are left.\<close>

fun request_attempts ::
  "deps \<Rightarrow> 'h net \<Rightarrow> wire_request \<Rightarrow> bool \<Rightarrow> bool \<Rightarrow> perr option \<Rightarrow> nat \<Rightarrow> ('h, perr, json) act"
where
  "request_attempts D N rq reconcile had_failure last_error 0 =
     afail (unwrap_or (perr_with_status ''pubkey_unreachable'' UNREACHABLE_MESSAGE 0) last_error)"
| "request_attempts D N rq reconcile had_failure last_error (Suc n) = (\<lambda>h.
     case nt_send N rq h of
       (Inr (status, received), h) \<Rightarrow> (request_answer D reconcile had_failure status received, h)
     | (Inl e, h) \<Rightarrow>
         (case classify_transport D e of
            Tls \<Rightarrow> (Inl (perr_with_status ''https_could_not_be_established'' HTTPS_FAILED_MESSAGE 0), h)
          | Other \<Rightarrow> (Inl (perr_new ''provider_unavailable'' (te_text e)), h)
          | c \<Rightarrow>
              if n = 0 then (Inl (connection_error c), h)
              else request_attempts D N rq reconcile True (Some (connection_error c)) n
                (nt_sleep N h)))"

definition pubkey_request ::
  "deps \<Rightarrow> 'h net \<Rightarrow> string \<Rightarrow> string \<Rightarrow> json option \<Rightarrow> bool \<Rightarrow> ('h, perr, json) act" where
  "pubkey_request D N url m body reconcile =
     request_attempts D N (build_request D url m body) reconcile False None CONNECTION_ATTEMPTS"

section \<open>config.rs and locator.rs\<close>

definition require_url :: "string \<Rightarrow> string option \<Rightarrow> string + string" where
  "require_url name value =
     (let resolved = trim (unwrap_or [] value)
      in if resolved = [] then Inl (name @ '' is required and must not be empty'')
         else Inr resolved)"

definition mailbox_sha256_hex :: "deps \<Rightarrow> string \<Rightarrow> string" where
  "mailbox_sha256_hex D canonical_mailbox = hex_encode D (sha256 D (bytes_of canonical_mailbox))"

definition keys_path :: "string \<Rightarrow> string \<Rightarrow> string option \<Rightarrow> string" where
  "keys_path sha256_hex purpose key_id =
     ''/v1/keys?sha256='' @ sha256_hex @ ''&purpose='' @ purpose
     @ (case key_id of Some k \<Rightarrow> ''&key_id='' @ k | None \<Rightarrow> [])"

definition mailbox_path :: "string \<Rightarrow> string" where
  "mailbox_path sha256_hex = ''/v1/mailboxes/'' @ sha256_hex"

section \<open>identity\_wire.rs\<close>

record identity_binding =
  ib_identity_id :: "string option"
  ib_vault_id :: "string option"

definition has_identity :: "identity_binding \<Rightarrow> bool" where
  "has_identity b = (case ib_identity_id b of Some i \<Rightarrow> length i = 64 | None \<Rightarrow> False)"

fun refuse_keys :: "(string \<Rightarrow> string) \<Rightarrow> jmap \<Rightarrow> string list \<Rightarrow> perr + unit" where
  "refuse_keys msg m [] = Inr ()"
| "refuse_keys msg m (k # ks) =
     (if obj_has m k then Inl (perr_new ''invalid_request'' (msg k)) else refuse_keys msg m ks)"

definition assert_no_mailbox_address :: "string \<Rightarrow> json option \<Rightarrow> perr + unit" where
  "assert_no_mailbox_address url body =
     (if CHR ''@'' \<in> set url
      then Inl (perr_new ''invalid_request'' ''Pubkey URL must not contain a mailbox address'')
      else (case Option.bind body as_object of
          None \<Rightarrow> Inr ()
        | Some m \<Rightarrow> refuse_keys (\<lambda>k. ''Pubkey request must not include '' @ k) m
            [''email'', ''address'', ''mailbox'', ''rfc5322'']))"

definition assert_discovery_wire :: "string \<Rightarrow> json option \<Rightarrow> perr + unit" where
  "assert_discovery_wire url body = assert_no_mailbox_address url body"

definition assert_vault_wire :: "string \<Rightarrow> json option \<Rightarrow> perr + unit" where
  "assert_vault_wire url body =
     and_then (assert_no_mailbox_address url body) (\<lambda>_.
       case Option.bind body as_object of
         None \<Rightarrow> Inr ()
       | Some m \<Rightarrow> refuse_keys (\<lambda>k. ''Vault request must not include '' @ k) m
           [''sha256'', ''email_sha256'', ''mailboxSha256''])"

definition assert_pubkey_wire_has_no_mailbox :: "string \<Rightarrow> json option \<Rightarrow> perr + unit" where
  "assert_pubkey_wire_has_no_mailbox url body = assert_no_mailbox_address url body"

definition require_identity_id :: "string \<Rightarrow> perr + unit" where
  "require_identity_id identity_id =
     (if \<not> hex64 identity_id
      then Inl (perr_new ''invalid_request'' ''identity_id must be 64 lowercase hex characters'')
      else Inr ())"

definition require_mailbox_sha256 :: "string \<Rightarrow> perr + unit" where
  "require_mailbox_sha256 s =
     (if \<not> hex64 s
      then Inl (perr_new ''invalid_request'' ''mailboxSha256 must be 64 lowercase hex characters'')
      else Inr ())"

section \<open>What a request does\<close>

text \<open>
  \<open>lost_to D N rq k h\<close> is the environment after \<open>k\<close> sends that all lost their connection,
  each followed by the retry delay.
\<close>

definition connection_lost :: "deps \<Rightarrow> transport_error \<Rightarrow> bool" where
  "connection_lost D e \<longleftrightarrow> classify_transport D e \<in> {Timeout, Unreachable}"

fun lost_to :: "deps \<Rightarrow> 'h net \<Rightarrow> wire_request \<Rightarrow> nat \<Rightarrow> 'h \<Rightarrow> 'h option" where
  "lost_to D N rq 0 h = Some h"
| "lost_to D N rq (Suc k) h =
     (case nt_send N rq h of
        (Inl e, h) \<Rightarrow> if connection_lost D e then lost_to D N rq k (nt_sleep N h) else None
      | (Inr r, h) \<Rightarrow> None)"

text \<open>How the last send ends the request.\<close>

definition ends_with_send ::
  "deps \<Rightarrow> 'h net \<Rightarrow> wire_request \<Rightarrow> bool \<Rightarrow> bool \<Rightarrow> bool \<Rightarrow> 'h \<Rightarrow> perr + json \<Rightarrow> 'h \<Rightarrow> bool"
where
  "ends_with_send D N rq reconcile lost final h r h' \<longleftrightarrow>
     (case nt_send N rq h of
        (Inr (status, received), g) \<Rightarrow> h' = g \<and> r = request_answer D reconcile lost status received
      | (Inl e, g) \<Rightarrow> h' = g \<and>
          (case classify_transport D e of
             Tls \<Rightarrow> r = Inl (perr_with_status ''https_could_not_be_established'' HTTPS_FAILED_MESSAGE 0)
           | Other \<Rightarrow> r = Inl (perr_new ''provider_unavailable'' (te_text e))
           | c \<Rightarrow> final \<and> r = Inl (connection_error c)))"

lemma request_attempts_outcome:
  assumes "request_attempts D N rq reconcile had prev n h = (r, h')" and "0 < n"
  shows "\<exists>k g. k < n \<and> lost_to D N rq k h = Some g
    \<and> ends_with_send D N rq reconcile (had \<or> 0 < k) (Suc k = n) g r h'"
  using assms
proof (induction n arbitrary: had prev h)
  case 0
  then show ?case by simp
next
  case (Suc n)
  show ?case
  proof (cases "\<exists>e g. nt_send N rq h = (Inl e, g) \<and> connection_lost D e \<and> 0 < n")
    case True
    then obtain e g where send: "nt_send N rq h = (Inl e, g)" "connection_lost D e" "0 < n"
      by blast
    then have "request_attempts D N rq reconcile True (Some (connection_error (classify_transport D e)))
        n (nt_sleep N g) = (r, h')"
      using Suc.prems(1) by (auto simp: connection_lost_def)
    from Suc.IH [OF this send(3)] obtain k g' where "k < n"
      "lost_to D N rq k (nt_sleep N g) = Some g'"
      "ends_with_send D N rq reconcile True (Suc k = n) g' r h'"
      by auto
    then show ?thesis
      by (intro exI [of _ "Suc k"] exI [of _ g']) (simp add: send)
  next
    case False
    then have "ends_with_send D N rq reconcile had (Suc 0 = Suc n) h r h'"
      using Suc.prems(1)
      by (auto simp: ends_with_send_def connection_lost_def
          split: prod.splits sum.splits transport_class.splits if_splits)
    then show ?thesis by (intro exI [of _ 0] exI [of _ h]) simp
  qed
qed

lemma request_answer_failed:
  assumes "request_answer D reconcile lost status received = Inr v"
    and "\<not> (200 \<le> unat status \<and> unat status < 300)"
  shows "reconcile \<and> lost \<and> v = reconciled_from_replay_response
    \<and> is_replay_rejection (perr_from_response status (parse_body D received))"
  using assms by (auto simp: request_answer_def Let_def split: if_splits)

text \<open>
  C31. A request sends at most four times and its last send decides: it ends after \<open>k < 4\<close> sends
  that lost their connection, with the answer of the next one, with its TLS or other transport
  error, or, only when that was the fourth, with the error of the lost connection. An answer
  outside 200..299 becomes a success only as the reconciliation of a replay: the caller asked
  for it, an earlier attempt lost its connection, and the server rejects the nonce as replayed.
\<close>

theorem request_outcome:
  assumes "pubkey_request D N url m body reconcile h = (r, h')"
  shows "\<exists>k g. k < 4 \<and> lost_to D N (build_request D url m body) k h = Some g
    \<and> ends_with_send D N (build_request D url m body) reconcile (0 < k) (k = 3) g r h'
    \<and> (\<forall>status received v. nt_send N (build_request D url m body) g = (Inr (status, received), h')
        \<longrightarrow> r = Inr v \<longrightarrow> \<not> (200 \<le> unat status \<and> unat status < 300)
        \<longrightarrow> reconcile \<and> 0 < k \<and> v = reconciled_from_replay_response
          \<and> is_replay_rejection (perr_from_response status (parse_body D received)))"
proof -
  let ?rq = "build_request D url m body"
  from assms have "request_attempts D N ?rq reconcile False None 4 h = (r, h')"
    by (simp add: pubkey_request_def CONNECTION_ATTEMPTS_def)
  from request_attempts_outcome [OF this] obtain k g where k: "k < 4" "lost_to D N ?rq k h = Some g"
    and "ends_with_send D N ?rq reconcile (False \<or> 0 < k) (Suc k = 4) g r h'"
    by (auto simp del: de_Morgan_disj)
  moreover have "(Suc k = 4) = (k = 3)" by auto
  ultimately have ends: "ends_with_send D N ?rq reconcile (0 < k) (k = 3) g r h'" by simp
  have "reconcile \<and> 0 < k \<and> v = reconciled_from_replay_response
      \<and> is_replay_rejection (perr_from_response status (parse_body D received))"
    if "nt_send N ?rq g = (Inr (status, received), h')" "r = Inr v"
      "\<not> (200 \<le> unat status \<and> unat status < 300)" for status received v
    using ends that by (intro request_answer_failed) (simp_all add: ends_with_send_def)
  with k ends show ?thesis by (intro exI [of _ k] exI [of _ g]) blast
qed

text \<open>A network that plays a script of outcomes.\<close>

type_synonym script = "(transport_error + u16 \<times> string option) list"

definition sample_net :: "script net" where
  "sample_net = \<lparr>
     nt_send = (\<lambda>rq s. case s of [] \<Rightarrow> (Inr (200, Some []), []) | x # r \<Rightarrow> (x, r)),
     nt_get_config = (\<lambda>url s. (Inl ''offline'', s)), nt_sleep = id, nt_now_ms = (\<lambda>s. (0, s)),
     nt_instant = (\<lambda>s. (0, s)), nt_random = (\<lambda>n s. (Inr (replicate n 7), s)),
     nt_expires_in = (\<lambda>t s. (None, s))\<rparr>"

definition sample_timeout :: transport_error where
  "sample_timeout = \<lparr>te_text = ''timed out'', te_timeout = True, te_connect = False\<rparr>"

definition replaying_deps :: deps where
  "replaying_deps = sample_deps\<lparr>json_parse := (\<lambda>s. Inr (jobj [(''error'', JStr ''nonce_replayed'')]))\<rparr>"

definition replay_script :: script where
  "replay_script = [Inl sample_timeout, Inr (409, Some ''{}'')]"

lemma replay_script_runs:
  "pubkey_request replaying_deps sample_net ''u'' ''post'' (Some JNull) True replay_script
     = (Inr reconciled_from_replay_response, [])"
proof -
  have "trim ''{}'' \<noteq> []"
    by (simp add: trim_def chars_of_ascii_text ascii_def char_is_whitespace_def)
  then have "parse_body replaying_deps (Some ''{}'') = jobj [(''error'', JStr ''nonce_replayed'')]"
    by (simp add: parse_body_def replaying_deps_def)
  then have "request_answer replaying_deps True True 409 (Some ''{}'') = Inr reconciled_from_replay_response"
    by (simp add: request_answer_def perr_from_response_def jobj_def obj_get_obj_of get_str_def
        is_replay_rejection_def is_pubkey_replay_rejection_def)
  moreover have "classify_transport replaying_deps sample_timeout = Timeout"
    by (simp add: classify_transport_def sample_timeout_def)
  ultimately show ?thesis
    by (simp add: pubkey_request_def CONNECTION_ATTEMPTS_def numeral_eq_Suc replay_script_def
        sample_net_def)
qed

theorem request_outcome_witness:
  "\<exists>g. lost_to replaying_deps sample_net (build_request replaying_deps ''u'' ''post'' (Some JNull)) 1
        replay_script = Some g
     \<and> nt_send sample_net (build_request replaying_deps ''u'' ''post'' (Some JNull)) g = (Inr (409, Some ''{}''), [])
     \<and> is_replay_rejection (perr_from_response 409 (parse_body replaying_deps (Some ''{}'')))"
proof -
  let ?rq = "build_request replaying_deps ''u'' ''post'' (Some JNull)"
  have lost: "classify_transport replaying_deps sample_timeout = Timeout"
    by (simp add: classify_transport_def sample_timeout_def)
  from request_outcome [OF replay_script_runs] obtain k g where
    g: "lost_to replaying_deps sample_net ?rq k replay_script = Some g"
    and ends: "ends_with_send replaying_deps sample_net ?rq True (0 < k) (k = 3) g
      (Inr reconciled_from_replay_response) []"
    and replay: "\<And>status received. nt_send sample_net ?rq g = (Inr (status, received), []) \<Longrightarrow>
      \<not> (200 \<le> unat status \<and> unat status < 300) \<Longrightarrow>
      is_replay_rejection (perr_from_response status (parse_body replaying_deps received))"
    by blast
  have "k = 1"
  proof (cases k)
    case 0
    then have "g = [Inl sample_timeout, Inr (409, Some ''{}'')]" using g by (simp add: replay_script_def)
    with ends lost show ?thesis by (simp add: ends_with_send_def sample_net_def)
  next
    case (Suc j)
    with g lost show ?thesis
      by (cases j) (simp_all add: sample_net_def replay_script_def connection_lost_def)
  qed
  with g lost have "g = [Inr (409, Some ''{}'')]"
    by (simp add: sample_net_def replay_script_def connection_lost_def)
  with g replay [of 409 "Some ''{}''"] \<open>k = 1\<close> show ?thesis by (simp add: sample_net_def)
qed

end
