(* ===== verification/Identity.thy ===== *)
theory Identity
  imports Discovery_Http
begin

text \<open>
  \<open>identity.rs\<close> and the module \<open>mailbox_otp\<close> of \<open>constants.rs\<close> in \<open>crates/discovery\<close>: the
  canonical form and the validity of a mailbox address, its hash, and the UUIDs derived from
  hashes. Case mapping, normalization and the character classes of Unicode are parameters.
\<close>

unbundle bit_operations_syntax

section \<open>Addresses\<close>

definition MAX_EMAIL_OCTETS :: nat where "MAX_EMAIL_OCTETS = 254"
definition MAX_LOCAL_OCTETS :: nat where "MAX_LOCAL_OCTETS = 64"
definition MAX_DOMAIN_OCTETS :: nat where "MAX_DOMAIN_OCTETS = 255"
definition MAX_LABEL_OCTETS :: nat where "MAX_LABEL_OCTETS = 63"

text \<open>The regular expressions, on the characters of a text.\<close>

definition word_char :: "deps \<Rightarrow> string \<Rightarrow> bool" where
  "word_char D ch \<longleftrightarrow> uni_letter D ch \<or> uni_number D ch \<or> uni_mark D ch"

definition LOCAL_SPECIALS :: string where
  "LOCAL_SPECIALS = ''!#$%&*+/=?^_`{|}~.-'' @ [CHR 0x27]"

definition local_chars :: "deps \<Rightarrow> string \<Rightarrow> bool" where
  "local_chars D s \<longleftrightarrow> s \<noteq> []
     \<and> list_all (\<lambda>ch. word_char D ch \<or> (\<exists>c \<in> set LOCAL_SPECIALS. ch = [c])) (chars_of s)"

definition domain_label_chars :: "deps \<Rightarrow> string \<Rightarrow> bool" where
  "domain_label_chars D s \<longleftrightarrow> s \<noteq> [] \<and> list_all (\<lambda>ch. word_char D ch \<or> ch = ''-'') (chars_of s)"

definition disallowed_in_address :: "deps \<Rightarrow> string \<Rightarrow> bool" where
  "disallowed_in_address D s \<longleftrightarrow>
     list_ex (\<lambda>ch. char_is_whitespace ch \<or> uni_control D ch \<or> uni_format D ch) (chars_of s)"

definition digits_only :: "deps \<Rightarrow> string \<Rightarrow> bool" where
  "digits_only D s \<longleftrightarrow> s \<noteq> [] \<and> list_all (uni_digit D) (chars_of s)"

definition has_letter :: "deps \<Rightarrow> string \<Rightarrow> bool" where
  "has_letter D s \<longleftrightarrow> list_ex (uni_letter D) (chars_of s)"

definition fold_utf8 :: "deps \<Rightarrow> string \<Rightarrow> string" where
  "fold_utf8 D s = nfc D (to_lowercase D s)"

definition hex_to_bytes :: "deps \<Rightarrow> string \<Rightarrow> string + bytes" where
  "hex_to_bytes D hex_str =
     (let clean = concat (filter (\<lambda>ch. \<not> char_is_whitespace ch) (chars_of hex_str))
      in if length clean mod 2 \<noteq> 0 then Inl ''hex string must have even length''
         else hex_decode D clean)"

definition normalize_email :: "deps \<Rightarrow> string option \<Rightarrow> string" where
  "normalize_email D email =
     (case email of
        None \<Rightarrow> []
      | Some email \<Rightarrow>
          let trimmed = nfc D (trim email) in
          case rfind_char (CHR ''@'') trimmed of
            None \<Rightarrow> fold_utf8 D trimmed
          | Some at \<Rightarrow>
              if at = 0 \<or> at = length trimmed - 1 then fold_utf8 D trimmed
              else fold_utf8 D (take at trimmed) @ ''@'' @ fold_utf8 D (drop (at + 1) trimmed))"

definition is_valid_local_part :: "deps \<Rightarrow> string \<Rightarrow> bool" where
  "is_valid_local_part D local \<longleftrightarrow>
     \<not> (local = [] \<or> starts_with ''.'' local \<or> ends_with ''.'' local \<or> contains_str ''..'' local)
     \<and> local_chars D local"

definition is_valid_label :: "deps \<Rightarrow> string \<Rightarrow> bool" where
  "is_valid_label D label \<longleftrightarrow>
     \<not> (label = [] \<or> length label > MAX_LABEL_OCTETS \<or> starts_with ''-'' label
        \<or> ends_with ''-'' label \<or> \<not> domain_label_chars D label)"

definition is_valid_domain :: "deps \<Rightarrow> string \<Rightarrow> bool" where
  "is_valid_domain D domain \<longleftrightarrow>
     \<not> (starts_with ''['' domain \<or> ends_with '']'' domain \<or> starts_with ''.'' domain
        \<or> ends_with ''.'' domain \<or> contains_str ''..'' domain)
     \<and> (let labels = split_char (CHR ''.'') domain in
        \<not> length labels < 2 \<and> list_all (is_valid_label D) labels
        \<and> (let tld = last labels in
           \<not> (length tld < 2 \<or> digits_only D tld \<or> \<not> has_letter D tld)))"

definition is_valid_email :: "deps \<Rightarrow> string option \<Rightarrow> bool" where
  "is_valid_email D email =
     (case email of
        None \<Rightarrow> False
      | Some email \<Rightarrow>
          if email = [] then False
          else if disallowed_in_address D email \<or> CHR 0x00 \<in> set email then False
          else (case find_char (CHR ''@'') email of
              None \<Rightarrow> False
            | Some at \<Rightarrow>
                if at = 0 \<or> rfind_char (CHR ''@'') email \<noteq> Some at \<or> at = length email - 1
                then False
                else
                  let local = take at email; domain = drop (at + 1) email in
                  if length email > MAX_EMAIL_OCTETS \<or> length local > MAX_LOCAL_OCTETS
                    \<or> length domain > MAX_DOMAIN_OCTETS then False
                  else is_valid_local_part D local \<and> is_valid_domain D domain))"

definition require_canonical_email :: "deps \<Rightarrow> string option \<Rightarrow> perr + string" where
  "require_canonical_email D email =
     (case email of
        None \<Rightarrow> Inl (perr_new ''invalid_email'' ''Valid email is required'')
      | Some email \<Rightarrow>
          if email = [] then Inl (perr_new ''invalid_email'' ''Valid email is required'')
          else
            let canonical = normalize_email D (Some email) in
            if email \<noteq> canonical then
              Inl (perr_new ''email_not_canonical'' ''Email must be sent in canonical form'')
            else if \<not> is_valid_email D (Some canonical) then
              Inl (perr_new ''invalid_email'' ''Valid email is required'')
            else Inr canonical)"

definition email_sha256_hex :: "deps \<Rightarrow> string \<Rightarrow> perr + string" where
  "email_sha256_hex D email =
     and_then (require_canonical_email D (Some (normalize_email D (Some email)))) (\<lambda>canonical.
     Inr (hex_encode D (sha256 D (bytes_of canonical))))"

section \<open>UUIDs\<close>

definition sha256_to_uuid_v8 :: "deps \<Rightarrow> bytes \<Rightarrow> string + string" where
  "sha256_to_uuid_v8 D digest =
     (if length digest \<noteq> 32 then Inl ''sha256 must be a 32-byte SHA-256 digest''
      else
        let bs = take 16 (drop 16 digest);
            bs = bs[6 := (bs ! 6 AND 0x0f) OR 0x80];
            bs = bs[8 := (bs ! 8 AND 0x3f) OR 0x80];
            h = hex_encode D bs
        in Inr (take 8 h @ ''-'' @ take 4 (drop 8 h) @ ''-'' @ take 4 (drop 12 h) @ ''-''
             @ take 4 (drop 16 h) @ ''-'' @ take 12 (drop 20 h)))"

definition text_to_uuid_v8 :: "deps \<Rightarrow> string \<Rightarrow> string + string" where
  "text_to_uuid_v8 D value = sha256_to_uuid_v8 D (sha256 D (bytes_of value))"

text \<open>
  \<open>u16::from_str_radix(s, 16)\<close>, which takes a leading \<open>+\<close>, on at most four digits. Slicing
  a text inside a character panics: then the result is \<open>None\<close>.
\<close>

definition radix16_val :: "char \<Rightarrow> nat" where
  "radix16_val c = (if is_digit c then of_char c - 48 else if is_upper c then of_char c - 55
     else of_char c - 87)"

definition u16_from_radix16 :: "string \<Rightarrow> string + u16" where
  "u16_from_radix16 s =
     (let ds = (case s of c # cs \<Rightarrow> if c = CHR ''+'' then cs else s | [] \<Rightarrow> s)
      in if ds = [] \<or> \<not> list_all is_hexdigit ds then Inl ''invalid digit found in string''
         else Inr (word_of_nat (foldl (\<lambda>acc c. 16 * acc + radix16_val c) 0 ds)))"

definition char_boundary :: "string \<Rightarrow> nat \<Rightarrow> bool" where
  "char_boundary s i \<longleftrightarrow> i = length s \<or> i < length s \<and> \<not> cont_byte (byte_at s i)"

definition uuid_last_16_bits :: "string \<Rightarrow> (string + u16) option" where
  "uuid_last_16_bits uuid =
     (let h = filter (\<lambda>c. c \<noteq> CHR ''-'') uuid
      in if length h < 32 then Some (Inl ''uuid too short'')
         else if \<not> char_boundary h 28 \<or> \<not> char_boundary h 32 then None
         else Some (u16_from_radix16 (take 4 (drop 28 h))))"

section \<open>Mailbox OTPs\<close>

definition OTP_LENGTH :: nat where "OTP_LENGTH = 11"

definition OTP_ALPHABET :: string where
  "OTP_ALPHABET = ''0123456789ABCDEFGHIJKLMNOPQRSTUVWXYZabcdefghijklmnopqrstuvwxyz''"

definition otp_normalize :: "string \<Rightarrow> string" where
  "otp_normalize inp =
     (let compact = concat (filter (\<lambda>ch. ch \<noteq> ''-'' \<and> \<not> char_is_whitespace ch) (chars_of inp))
      in if length compact \<noteq> OTP_LENGTH then []
         else if list_ex (\<lambda>ch. \<not> (\<exists>c \<in> set OTP_ALPHABET. ch = [c])) (chars_of compact) then []
         else compact)"

section \<open>The mailbox hash\<close>

lemma is_valid_email_split:
  assumes "is_valid_email D (Some c)"
  obtains local domain where "c = local @ CHR ''@'' # domain" "CHR ''@'' \<notin> set local"
    "CHR ''@'' \<notin> set domain" "local \<noteq> []" "domain \<noteq> []" "length c \<le> 254" "length local \<le> 64"
    "is_valid_local_part D local" "is_valid_domain D domain" "\<not> disallowed_in_address D c"
proof -
  from assms obtain at where find: "find_char (CHR ''@'') c = Some at" "at \<noteq> 0" "at \<noteq> length c - 1"
    "rfind_char (CHR ''@'') c = Some at"
    and len: "length c \<le> 254" "length (take at c) \<le> 64"
    and parts: "is_valid_local_part D (take at c)" "is_valid_domain D (drop (at + 1) c)"
    and clean: "\<not> disallowed_in_address D c"
    by (auto simp: is_valid_email_def Let_def MAX_EMAIL_OCTETS_def MAX_LOCAL_OCTETS_def
        split: if_splits option.splits)
  have at: "at < length c" "c ! at = CHR ''@''" "CHR ''@'' \<notin> set (take at c)"
    "CHR ''@'' \<notin> set (drop (Suc at) c)"
    using find by (simp_all add: find_char_Some_iff rfind_char_Some_iff)
  show ?thesis
  proof (rule that)
    show "c = take at c @ CHR ''@'' # drop (at + 1) c"
      using at(1,2) id_take_nth_drop [OF at(1)] by simp
    show "take at c \<noteq> []" "drop (at + 1) c \<noteq> []" using find at by auto
  qed (use at len parts clean in simp_all)
qed

lemma valid_domain_labels:
  assumes "is_valid_domain D domain"
  shows "2 \<le> length (split_char (CHR ''.'') domain)"
    and "\<forall>l \<in> set (split_char (CHR ''.'') domain). 1 \<le> length l \<and> length l \<le> 63"
  using assms
  by (auto simp: is_valid_domain_def is_valid_label_def list_all_iff MAX_LABEL_OCTETS_def Let_def
      Suc_le_eq)

lemma require_canonical_Inr:
  "require_canonical_email D (Some e) = Inr c \<longleftrightarrow>
     e \<noteq> [] \<and> c = e \<and> normalize_email D (Some e) = e \<and> is_valid_email D (Some e)"
  by (auto simp: require_canonical_email_def Let_def)

lemma email_sha256_hex_value:
  assumes "hex_doc D" and "email_sha256_hex D email = Inr h"
  shows "h = lower_hex (sha256 D (bytes_of (normalize_email D (Some email))))"
  using assms(2)
  by (auto simp: email_sha256_hex_def and_then_Inr_iff require_canonical_Inr hex_docD(1) [OF assms(1)])

lemma email_sha256_hex_hex64:
  assumes "hash_lengths D" and "hex_doc D" and "email_sha256_hex D email = Inr h"
  shows "hex64 h"
  unfolding email_sha256_hex_value [OF assms(2,3)]
  by (rule lower_hex_64) (rule hash_lengthsD(2) [OF assms(1)])

text \<open>
  C36. A mailbox hash is the hash of one canonical address: when \<open>email_sha256_hex\<close> accepts an
  address, the result is the lower-case hexadecimal SHA-256 of the bytes of its normal form;
  the normal form is a fixed point of normalization, has exactly one \<open>@\<close> with a
  local part of 1 to 64 bytes and a domain of at least two labels of 1 to 63 bytes, no white
  space or control character, at most 254 bytes in all; the result is 64 lower-case
  hexadecimal digits and the same for every spelling with that normal form.
\<close>

theorem mailbox_hash_canonical:
  assumes "hash_lengths D" and "hex_doc D" and "email_sha256_hex D email = Inr h"
  shows "h = lower_hex (sha256 D (bytes_of (normalize_email D (Some email))))
    \<and> hex64 h
    \<and> (\<exists>local domain. normalize_email D (Some email) = local @ ''@'' @ domain
        \<and> CHR ''@'' \<notin> set local \<union> set domain \<and> local \<noteq> [] \<and> length local \<le> 64
        \<and> length (local @ ''@'' @ domain) \<le> 254
        \<and> 2 \<le> length (split_char (CHR ''.'') domain)
        \<and> (\<forall>l \<in> set (split_char (CHR ''.'') domain). 1 \<le> length l \<and> length l \<le> 63)
        \<and> \<not> disallowed_in_address D (local @ ''@'' @ domain))
    \<and> normalize_email D (Some (normalize_email D (Some email))) = normalize_email D (Some email)
    \<and> (normalize_email D (Some other) = normalize_email D (Some email)
        \<longrightarrow> email_sha256_hex D other = Inr h)"
proof -
  let ?c = "normalize_email D (Some email)"
  have c: "normalize_email D (Some ?c) = ?c" "is_valid_email D (Some ?c)"
    using assms(3) by (auto simp: email_sha256_hex_def and_then_Inr_iff require_canonical_Inr)
  have "h = lower_hex (sha256 D (bytes_of ?c))" using assms(2,3) by (rule email_sha256_hex_value)
  moreover have "hex64 h" using assms by (rule email_sha256_hex_hex64)
  moreover obtain local domain where parts: "?c = local @ CHR ''@'' # domain"
    "CHR ''@'' \<notin> set local" "CHR ''@'' \<notin> set domain" "local \<noteq> []" "length ?c \<le> 254"
    "length local \<le> 64" "is_valid_domain D domain" "\<not> disallowed_in_address D ?c"
    using c(2) by (rule is_valid_email_split)
  moreover have "email_sha256_hex D other = Inr h" if "normalize_email D (Some other) = ?c" for other
    using assms(3) that by (simp add: email_sha256_hex_def)
  ultimately show ?thesis
    using c(1) valid_domain_labels [OF parts(7)] by (intro conjI exI [of _ local] exI [of _ domain]) auto
qed

definition sample_email :: string where
  "sample_email = ''  al@ex.com ''"

lemma sample_email_canonical:
  "normalize_email sample_deps (Some sample_email) = ''al@ex.com''"
  "normalize_email sample_deps (Some ''al@ex.com'') = ''al@ex.com''"
  "is_valid_email sample_deps (Some ''al@ex.com'')"
proof -
  have chars: "chars_of s = map (\<lambda>c. [c]) s" if "list_all ascii s" for s
    using that by (rule chars_of_ascii_text)
  have t: "trim sample_email = ''al@ex.com''" "trim ''al@ex.com'' = ''al@ex.com''"
    by (simp_all add: trim_def sample_email_def chars ascii_def char_is_whitespace_def)
  show "normalize_email sample_deps (Some sample_email) = ''al@ex.com''"
    "normalize_email sample_deps (Some ''al@ex.com'') = ''al@ex.com''"
    unfolding normalize_email_def by (simp_all add: t) (simp_all add: sample_deps_def fold_utf8_def)
  show "is_valid_email sample_deps (Some ''al@ex.com'')"
    by (simp add: is_valid_email_def disallowed_in_address_def chars ascii_def char_is_whitespace_def
        is_valid_local_part_def is_valid_domain_def is_valid_label_def local_chars_def starts_with_def
        ends_with_def domain_label_chars_def word_char_def digits_only_def has_letter_def
        MAX_EMAIL_OCTETS_def MAX_LOCAL_OCTETS_def MAX_DOMAIN_OCTETS_def MAX_LABEL_OCTETS_def
        sample_deps_def is_lower_def is_upper_def is_digit_def)
qed

theorem mailbox_hash_canonical_witness:
  "\<exists>h. email_sha256_hex sample_deps sample_email = Inr h \<and> hex64 h
     \<and> h = lower_hex (sha256 sample_deps (bytes_of ''al@ex.com''))
     \<and> email_sha256_hex sample_deps ''al@ex.com'' = Inr h"
proof -
  obtain h where h: "email_sha256_hex sample_deps sample_email = Inr h"
    by (simp add: email_sha256_hex_def sample_email_canonical require_canonical_email_def)
  from mailbox_hash_canonical [OF sample_deps_ok(1,2) h, of "''al@ex.com''"] h show ?thesis
    unfolding sample_email_canonical by blast
qed

section \<open>UUIDs from hashes\<close>

text \<open>Masking the low bits of a byte and setting the highest.\<close>

lemma bit_128: "bit (0x80 :: byte) n \<longleftrightarrow> n = 7"
proof -
  have "(0x80 :: byte) = push_bit 7 1" by simp
  then have "bit (0x80 :: byte) n = bit (push_bit 7 1 :: byte) n" by (rule arg_cong)
  then show ?thesis by (simp only: bit_push_bit_iff bit_1_iff) auto
qed

lemma unat_masked:
  fixes b :: byte
  assumes "k \<le> 7"
  shows "unat (take_bit k b OR 0x80) = 128 + unat b mod 2 ^ k"
proof -
  have disj: "take_bit k b AND 0x80 = 0"
  proof (rule bit_word_eqI)
    fix n assume "n < LENGTH(8)"
    then show "bit (take_bit k b AND 0x80) n = bit (0 :: byte) n"
      using assms bit_128 [of n] by (auto simp: bit_and_iff bit_take_bit_iff)
  qed
  have "unat b mod 2 ^ k < 128"
  proof -
    have "(2 :: nat) ^ k \<le> 128" using assms power_increasing [of k 7 "2 :: nat"] by simp
    then show ?thesis by (rule less_le_trans [rotated]) simp
  qed
  moreover have "unat (take_bit k b) = unat b mod 2 ^ k"
    unfolding unsigned_take_bit_eq by (rule take_bit_eq_mod)
  moreover have "unat (t OR 0x80) = (unat t + 128) mod 256" if "t AND 0x80 = 0" for t :: byte
    using that by (simp add: disjunctive_add_eq_or [symmetric] unat_word_ariths(1))
  from this [OF disj] have "unat (take_bit k b OR 0x80) = (unat (take_bit k b) + 128) mod 256" .
  ultimately show ?thesis by simp
qed

lemma version_nibble: "unat (((b :: byte) AND 0x0f) OR 0x80) div 16 = 8"
proof -
  have "b AND 0x0f = take_bit 4 b" by (simp add: take_bit_eq_mask mask_eq_exp_minus_1)
  then show ?thesis using unat_masked [of 4 b] by simp
qed

lemma variant_nibble: "unat (((b :: byte) AND 0x3f) OR 0x80) div 16 \<in> {8, 9, 10, 11}"
proof -
  have "b AND 0x3f = take_bit 6 b" by (simp add: take_bit_eq_mask mask_eq_exp_minus_1)
  moreover have "(128 + unat b mod 64) div 16 = 8 + unat b mod 64 div 16" by simp
  moreover have "unat b mod 64 div 16 < 4" by (simp add: div_less_iff_less_mult)
  ultimately show ?thesis using unat_masked [of 6 b] by auto
qed

text \<open>The layout of a UUID, and reading its digits back.\<close>

definition uuid_layout :: "string \<Rightarrow> string" where
  "uuid_layout h = take 8 h @ ''-'' @ take 4 (drop 8 h) @ ''-'' @ take 4 (drop 12 h) @ ''-''
     @ take 4 (drop 16 h) @ ''-'' @ take 12 (drop 20 h)"

lemma uuid_layout_filter:
  assumes "CHR ''-'' \<notin> set h" "length h = 32"
  shows "filter (\<lambda>c. c \<noteq> CHR ''-'') (uuid_layout h) = h"
proof -
  have part: "filter (\<lambda>c. c \<noteq> CHR ''-'') (take n (drop k h)) = take n (drop k h)" for n k
    using assms(1) by (intro filter_True) (auto dest: in_set_takeD in_set_dropD)
  have "take 12 (drop 20 h) = drop 20 h" using assms(2) by simp
  moreover have chunk: "take 4 (drop k h) @ drop m h = drop k h" if "m = 4 + k" for k m
    unfolding that drop_drop [symmetric] by (rule append_take_drop_id)
  moreover have "take 4 (drop 16 h) @ drop 20 h = drop 16 h" by (rule chunk) simp
  moreover have "take 4 (drop 12 h) @ drop 16 h = drop 12 h" by (rule chunk) simp
  moreover have "take 4 (drop 8 h) @ drop 12 h = drop 8 h" by (rule chunk) simp
  moreover have "take 8 h @ drop 8 h = h" by (rule append_take_drop_id)
  ultimately have "take 8 h @ take 4 (drop 8 h) @ take 4 (drop 12 h) @ take 4 (drop 16 h)
      @ take 12 (drop 20 h) = h"
    by (simp only:)
  moreover have "filter (\<lambda>c. c \<noteq> CHR ''-'') (uuid_layout h)
    = take 8 h @ take 4 (drop 8 h) @ take 4 (drop 12 h) @ take 4 (drop 16 h) @ take 12 (drop 20 h)"
    using part [of 8 0] by (simp only: uuid_layout_def filter_append part filter.simps drop_0) simp
  ultimately show ?thesis by (simp only:)
qed

lemma uuid_layout_nth:
  assumes "length h = 32"
  shows "length (uuid_layout h) = 36" "uuid_layout h ! 14 = h ! 12" "uuid_layout h ! 19 = h ! 16"
    "\<forall>i \<in> {8, 13, 18, 23}. uuid_layout h ! i = CHR ''-''"
  using assms by (simp_all add: uuid_layout_def nth_append)

lemma lower_digit_8_to_b:
  "lower_digit 8 = CHR ''8''" "lower_digit 9 = CHR ''9''" "lower_digit 10 = CHR ''a''"
  "lower_digit 11 = CHR ''b''"
  by (simp_all add: lower_digit_def char_of_def bit_Suc_0_iff)

lemma radix16_lower_digit: "n < 16 \<Longrightarrow> radix16_val (lower_digit n) = n"
  by (auto simp: radix16_val_def lower_digit_def is_digit_def is_upper_def)

lemma lower_hex_nth:
  "i < length bs \<Longrightarrow> lower_hex bs ! (2 * i) = lower_digit (unat (bs ! i) div 16)"
proof (induction bs arbitrary: i)
  case Nil
  then show ?case by simp
next
  case (Cons b bs)
  then show ?case
    by (cases i) (simp_all add: lower_hex_def lower_hex2_def)
qed

lemma drop_lower_hex: "drop (2 * n) (lower_hex bs) = lower_hex (drop n bs)"
proof (induction bs arbitrary: n)
  case Nil
  then show ?case by (simp add: lower_hex_def)
next
  case (Cons b bs)
  then show ?case by (cases n) (simp_all add: lower_hex_def lower_hex2_def)
qed

lemma u16_of_two_bytes:
  "u16_from_radix16 (lower_hex [a, b]) = Inr (word_of_nat (256 * unat a + unat b))"
proof -
  have plus: "lower_digit n \<noteq> CHR ''+''" if "n < 16" for n
    using lower_digit_class [OF that] by (auto simp: is_lower_hexdigit_def is_digit_def)
  have hexd: "is_hexdigit (lower_digit n)" if "n < 16" for n
    using lower_digit_class [OF that] is_lower_hexdigit_classes by blast
  have "16 * (16 * (16 * (unat a div 16) + unat a mod 16) + unat b div 16) + unat b mod 16
      = 256 * unat a + unat b"
    by (simp add: algebra_simps)
  then show ?thesis
    by (simp add: u16_from_radix16_def lower_hex_def lower_hex2_def plus hexd byte_nibbles
        radix16_lower_digit Let_def del: of_nat_add of_nat_mult) (simp only: add.commute)
qed

lemma last_16_of_layout:
  assumes "length bs = 16"
  shows "uuid_last_16_bits (uuid_layout (lower_hex bs))
    = Some (Inr (word_of_nat (256 * unat (bs ! 14) + unat (bs ! 15))))"
proof -
  let ?h = "lower_hex bs"
  have cls: "list_all is_lower_hexdigit ?h" by (rule lower_hex_class)
  then have nodash: "CHR ''-'' \<notin> set ?h"
    by (auto simp: list_all_iff is_lower_hexdigit_def is_digit_def)
  have "\<not> cont_byte (byte_at ?h 28)"
    using cls assms
    by (auto simp: byte_at_def cont_byte_def list_all_length is_lower_hexdigit_def is_digit_def
        dest!: spec [of _ 28])
  moreover have "take 4 (drop 28 ?h) = lower_hex [bs ! 14, bs ! 15]"
  proof -
    have "drop 14 bs = [bs ! 14, bs ! 15]"
      using assms by (simp add: Cons_nth_drop_Suc [symmetric] numeral_eq_Suc)
    then show ?thesis
      using drop_lower_hex [of 14 bs] by (simp add: lower_hex_def lower_hex2_def)
  qed
  ultimately show ?thesis
    using uuid_layout_filter [OF nodash] assms
    by (simp add: uuid_last_16_bits_def char_boundary_def u16_of_two_bytes Let_def)
qed

text \<open>
  A UUID from a hash is a version 8 UUID of the RFC 9562 variant: for every 32-byte digest
  it has 36 characters with dashes at the four positions, the version digit 8 and a variant
  digit from 8 to b, and its last 16 bits are the last two bytes of the digest.
\<close>

theorem uuid_v8_layout:
  assumes "hex_doc D" and "length digest = 32"
  shows "\<exists>u. sha256_to_uuid_v8 D digest = Inr u \<and> length u = 36
    \<and> (\<forall>i \<in> {8, 13, 18, 23}. u ! i = CHR ''-'') \<and> u ! 14 = CHR ''8'' \<and> u ! 19 \<in> set ''89ab''
    \<and> uuid_last_16_bits u = Some (Inr (word_of_nat (256 * unat (digest ! 30) + unat (digest ! 31))))"
proof -
  define bs where "bs = take 16 (drop 16 digest)"
  define cs where "cs = (bs[6 := (bs ! 6 AND 0x0f) OR 0x80])[8 := (bs ! 8 AND 0x3f) OR 0x80]"
  have len: "length bs = 16" "length cs = 16" using assms(2) by (simp_all add: bs_def cs_def)
  have u: "sha256_to_uuid_v8 D digest = Inr (uuid_layout (lower_hex cs))"
    using assms by (simp add: sha256_to_uuid_v8_def hex_docD uuid_layout_def Let_def bs_def cs_def)
  have "cs ! 14 = digest ! 30" "cs ! 15 = digest ! 31"
    using assms(2) by (simp_all add: cs_def bs_def)
  moreover have "uuid_layout (lower_hex cs) ! 14 = lower_hex cs ! 12"
    "uuid_layout (lower_hex cs) ! 19 = lower_hex cs ! 16"
    by (rule uuid_layout_nth, use len in simp)+
  moreover have "lower_hex cs ! 12 = CHR ''8''"
    using lower_hex_nth [of 6 cs] len version_nibble [of "bs ! 6"]
    by (simp add: cs_def lower_digit_8_to_b)
  moreover have "lower_hex cs ! 16 \<in> set ''89ab''"
    using lower_hex_nth [of 8 cs] len variant_nibble [of "bs ! 8"]
    by (simp add: cs_def) (elim disjE; simp add: lower_digit_8_to_b)
  moreover have "length (uuid_layout (lower_hex cs)) = 36"
    "\<forall>i \<in> {8, 13, 18, 23}. uuid_layout (lower_hex cs) ! i = CHR ''-''"
    by (rule uuid_layout_nth, use len in simp)+
  ultimately show ?thesis using last_16_of_layout [OF len(2)] u by simp
qed

theorem uuid_v8_layout_witness:
  "\<exists>u. sha256_to_uuid_v8 sample_deps (replicate 32 0xab) = Inr u \<and> u ! 14 = CHR ''8''
     \<and> uuid_last_16_bits u = Some (Inr 0xabab)"
  using uuid_v8_layout [OF sample_deps_ok(2), of "replicate 32 0xab"] by auto

end
