(* ===== verification/Key_Id.thy ===== *)
theory Key_Id
  imports Identity
begin

text \<open>
  \<open>scomm_key_id.rs\<close> of \<open>crates/discovery\<close>: the key id of published key material, which for
  OpenPGP material is the key id of the packet that is used. Reading past the end of a slice
  with \<open>get\<close> gives \<open>None\<close>, as the code has it.
\<close>

section \<open>Bytes\<close>

fun be_value :: "bytes \<Rightarrow> nat" where
  "be_value [] = 0"
| "be_value (b # bs) = unat b * 256 ^ length bs + be_value bs"

text \<open>\<open>slice.get(i)\<close> and \<open>slice.get(i..j)\<close>.\<close>

definition get_byte :: "bytes \<Rightarrow> nat \<Rightarrow> byte option" where
  "get_byte bs i = (if i < length bs then Some (bs ! i) else None)"

definition get_range :: "bytes \<Rightarrow> nat \<Rightarrow> nat \<Rightarrow> bytes option" where
  "get_range bs i j = (if i \<le> j \<and> j \<le> length bs then Some (take (j - i) (drop i bs)) else None)"

section \<open>Packets\<close>

record packet =
  pkt_tag :: byte
  pkt_body :: bytes

definition new_length :: "bytes \<Rightarrow> nat \<Rightarrow> (nat \<times> nat) option" where
  "new_length data offset =
     Option.bind (get_byte data offset) (\<lambda>fst_byte.
       if unat fst_byte < 192 then Some (unat fst_byte, 1)
       else if unat fst_byte < 224 then
         Option.bind (get_byte data (offset + 1)) (\<lambda>second.
           Some ((unat fst_byte - 192) * 256 + unat second + 192, 2))
       else if unat fst_byte = 255 then
         Option.bind (get_range data (offset + 1) (offset + 5)) (\<lambda>b. Some (be_value b, 5))
       else None)"

definition old_length :: "bytes \<Rightarrow> nat \<Rightarrow> byte \<Rightarrow> (nat \<times> nat) option" where
  "old_length data offset len_type =
     (if len_type = 0 then
        Option.bind (get_byte data (offset + 1)) (\<lambda>b. Some (unat b, 1))
      else if len_type = 1 then
        Option.bind (get_range data (offset + 1) (offset + 3)) (\<lambda>b. Some (be_value b, 2))
      else if len_type = 2 then
        Option.bind (get_range data (offset + 1) (offset + 5)) (\<lambda>b. Some (be_value b, 4))
      else None)"

text \<open>Tag, header length and body length of the packet at an offset of the blob.\<close>

definition packet_header :: "bytes \<Rightarrow> nat \<Rightarrow> (byte \<times> nat \<times> nat) option" where
  "packet_header blob offset =
     (let fst_byte = blob ! offset in
      if fst_byte AND 0x80 = 0 then None
      else if fst_byte AND 0x40 \<noteq> 0 then
        Option.bind (new_length blob (offset + 1)) (\<lambda>(len, size).
          Some (fst_byte AND 0x3f, 1 + size, len))
      else
        Option.bind (old_length blob offset (fst_byte AND 0x03)) (\<lambda>(len, size).
          Some (drop_bit 2 (fst_byte AND 0x3c), 1 + size, len)))"

text \<open>
  The loop from an offset on; an offset grows by the header at least, so it ends. The
  addition is on \<open>usize\<close>, where \<open>checked_add\<close> fails past 64 bits.
\<close>

lemma packet_header_positive: "packet_header blob offset = Some (tag, hdr, len) \<Longrightarrow> 0 < hdr"
  by (auto simp: packet_header_def Let_def bind_eq_Some_conv split: if_splits)

function packets_from :: "bytes \<Rightarrow> nat \<Rightarrow> packet list option" where
  "packets_from blob offset =
     (if \<not> offset < length blob then Some []
      else case packet_header blob offset of
          None \<Rightarrow> None
        | Some (tag, hdr, len) \<Rightarrow>
            (let start = offset + hdr; stop = start + len in
             if stop \<ge> 2 ^ 64 \<or> stop > length blob then None
             else map_option (\<lambda>ps. \<lparr>pkt_tag = tag, pkt_body = take len (drop start blob)\<rparr> # ps)
               (packets_from blob stop)))"
  by pat_completeness auto
termination
  by (relation "measure (\<lambda>(blob, offset). length blob - offset)")
    (auto dest: packet_header_positive simp: Let_def)

declare packets_from.simps [simp del]

definition packets :: "bytes \<Rightarrow> packet list option" where
  "packets blob = packets_from blob 0"

section \<open>Key ids\<close>

definition format_key_id :: "deps \<Rightarrow> bytes \<Rightarrow> string + string" where
  "format_key_id D eight_bytes =
     (if length eight_bytes \<noteq> 8 then Inl ''SComm key-id requires exactly 8 octets''
      else Inr (hex_encode_upper D eight_bytes))"

definition last8 :: "bytes \<Rightarrow> bytes" where
  "last8 bs = drop (length bs - 8) bs"

definition be_bytes :: "nat \<Rightarrow> nat \<Rightarrow> bytes" where
  "be_bytes n x = map (\<lambda>i. word_of_nat (x div 256 ^ i)) (rev [0..<n])"

definition key_id_from_body :: "deps \<Rightarrow> bytes \<Rightarrow> string option" where
  "key_id_from_body D body =
     (case body of
        [] \<Rightarrow> None
      | version # _ \<Rightarrow>
          if version = 4 then
            (if length body > 0xffff then None
             else result_ok (format_key_id D
               (last8 (sha1 D ([0x99] @ be_bytes 2 (length body) @ body)))))
          else if version = 6 then
            result_ok (format_key_id D (last8 (sha256 D ([0x9b] @ be_bytes 4 (length body) @ body))))
          else None)"

definition oid_eq :: "bytes \<Rightarrow> nat \<Rightarrow> bytes \<Rightarrow> bool" where
  "oid_eq body offset oid =
     (case get_byte body offset of
        None \<Rightarrow> False
      | Some len \<Rightarrow> get_range body (offset + 1) (offset + 1 + unat len) = Some oid)"

definition subkey_matches :: "bytes \<Rightarrow> string \<Rightarrow> bool" where
  "subkey_matches body algorithm_name =
     (if get_byte body 0 \<noteq> Some 4 \<and> get_byte body 0 \<noteq> Some 6 then False
      else (case get_byte body 5 of
          None \<Rightarrow> False
        | Some algorithm \<Rightarrow>
            let offset = (if get_byte body 0 = Some 6 then 10 else 6) in
            if algorithm_name = ''openpgp-cv25519'' then
              algorithm = 25 \<or> algorithm = 18
                \<and> (oid_eq body offset [0x2b, 0x06, 0x01, 0x04, 0x01, 0x97, 0x55, 0x01, 0x05, 0x01]
                   \<or> oid_eq body offset [0x2b, 0x65, 0x6e])
            else if algorithm_name = ''openpgp-cv448'' then
              algorithm = 26 \<or> algorithm = 18 \<and> oid_eq body offset [0x2b, 0x65, 0x6f]
            else if algorithm_name = ''openpgp-mlkem768-x25519'' then algorithm = 35
            else False))"

text \<open>The body of the packet whose key id is taken.\<close>

definition chosen_body :: "packet list \<Rightarrow> string option \<Rightarrow> string option \<Rightarrow> bytes" where
  "chosen_body keys purpose algorithm =
     (let encrypt = (purpose = Some ''encryption'' \<or> purpose = Some ''key_agreement'');
          first_body = pkt_body (hd keys)
      in if length keys = 1 then first_body
         else if encrypt then
           (let subs = filter (\<lambda>k. pkt_tag k = 14) keys;
                matched = Option.bind algorithm (\<lambda>alg.
                  map_option pkt_body (find (\<lambda>k. subkey_matches (pkt_body k) alg) subs))
            in unwrap_or first_body
                 (or_else matched (case subs of [] \<Rightarrow> None | k # _ \<Rightarrow> Some (pkt_body k))))
         else unwrap_or first_body (map_option pkt_body (find (\<lambda>k. pkt_tag k = 6) keys)))"

definition openpgp_key_id :: "deps \<Rightarrow> bytes \<Rightarrow> string option \<Rightarrow> string option \<Rightarrow> string option" where
  "openpgp_key_id D blob purpose algorithm =
     Option.bind (packets blob) (\<lambda>ps.
       let keys = filter (\<lambda>p. pkt_tag p = 6 \<or> pkt_tag p = 14) ps
       in if keys = [] then None else key_id_from_body D (chosen_body keys purpose algorithm))"

text \<open>A SHA-256 digest has 32 bytes, so the \<open>expect\<close> does not fail.\<close>

definition derive_for :: "deps \<Rightarrow> bytes \<Rightarrow> string option \<Rightarrow> string option \<Rightarrow> string" where
  "derive_for D public_material purpose algorithm =
     (case openpgp_key_id D public_material purpose algorithm of
        Some i \<Rightarrow> i
      | None \<Rightarrow> hex_encode_upper D (last8 (sha256 D public_material)))"

definition derive :: "deps \<Rightarrow> bytes \<Rightarrow> string" where
  "derive D public_material = derive_for D public_material None None"

definition derive_from_utf8 :: "deps \<Rightarrow> string \<Rightarrow> string" where
  "derive_from_utf8 D text = derive D (bytes_of text)"

definition normalize_key_id :: "deps \<Rightarrow> string option \<Rightarrow> string" where
  "normalize_key_id D raw =
     (case raw of
        None \<Rightarrow> []
      | Some raw \<Rightarrow> filter (\<lambda>c. c \<notin> {CHR '' '', CHR 0x09, CHR '':'', CHR ''-'', CHR ''_''})
          (to_uppercase D (trim raw)))"

definition key_ids_equal :: "deps \<Rightarrow> string option \<Rightarrow> string option \<Rightarrow> bool" where
  "key_ids_equal D a b =
     (let na = normalize_key_id D a; nb = normalize_key_id D b in na \<noteq> [] \<and> nb \<noteq> [] \<and> na = nb)"

definition looks_like_display :: "deps \<Rightarrow> string option \<Rightarrow> bool" where
  "looks_like_display D raw =
     (let s = normalize_key_id D raw in length s = 16 \<and> list_all is_hexdigit s)"

section \<open>Parsing what an OpenPGP writer emits\<close>

text \<open>
  The packet headers of RFC 9580, section 4.2, as a writer chooses them: the OpenPGP format
  with one, two or five octets of length (the last starts with 255), and the legacy format
  with one, two or four, whose tags have four bits. Which packets each of them can carry, and
  the octets of each. Partial body lengths, which the parser refuses, and the indeterminate
  length of the legacy format are not among them.
\<close>

datatype length_format = New_One | New_Two | New_Five | Old_One | Old_Two | Old_Four

fun fits :: "length_format \<Rightarrow> packet \<Rightarrow> bool" where
  "fits New_One p \<longleftrightarrow> unat (pkt_tag p) < 64 \<and> length (pkt_body p) < 192"
| "fits New_Two p \<longleftrightarrow> unat (pkt_tag p) < 64 \<and> 192 \<le> length (pkt_body p) \<and> length (pkt_body p) < 8384"
| "fits New_Five p \<longleftrightarrow> unat (pkt_tag p) < 64 \<and> length (pkt_body p) < 2 ^ 32"
| "fits Old_One p \<longleftrightarrow> unat (pkt_tag p) < 16 \<and> length (pkt_body p) < 2 ^ 8"
| "fits Old_Two p \<longleftrightarrow> unat (pkt_tag p) < 16 \<and> length (pkt_body p) < 2 ^ 16"
| "fits Old_Four p \<longleftrightarrow> unat (pkt_tag p) < 16 \<and> length (pkt_body p) < 2 ^ 32"

fun header_as :: "length_format \<Rightarrow> byte \<Rightarrow> nat \<Rightarrow> bytes" where
  "header_as New_One tag n = [0xc0 OR tag, word_of_nat n]"
| "header_as New_Two tag n =
     [0xc0 OR tag, word_of_nat (192 + (n - 192) div 256), word_of_nat ((n - 192) mod 256)]"
| "header_as New_Five tag n = [0xc0 OR tag, 255] @ be_bytes 4 n"
| "header_as Old_One tag n = (0x80 OR push_bit 2 tag) # be_bytes 1 n"
| "header_as Old_Two tag n = (0x81 OR push_bit 2 tag) # be_bytes 2 n"
| "header_as Old_Four tag n = (0x82 OR push_bit 2 tag) # be_bytes 4 n"

fun emit_as :: "length_format \<times> packet \<Rightarrow> bytes" where
  "emit_as (f, p) = header_as f (pkt_tag p) (length (pkt_body p)) @ pkt_body p"

definition emit_all :: "(length_format \<times> packet) list \<Rightarrow> bytes" where
  "emit_all fps = concat (map emit_as fps)"

definition all_fit :: "(length_format \<times> packet) list \<Rightarrow> bool" where
  "all_fit fps \<longleftrightarrow> list_all (\<lambda>(f, p). fits f p) fps"

lemma unat_byte_of_nat: "n < 256 \<Longrightarrow> unat (word_of_nat n :: byte) = n"
  by (simp add: unat_of_nat)

lemma be_value_append: "be_value (as @ bs) = be_value as * 256 ^ length bs + be_value bs"
  by (induction as) (simp_all add: power_add algebra_simps)

lemma be_bytes_Suc: "be_bytes (Suc n) x = word_of_nat (x div 256 ^ n) # be_bytes n x"
  by (simp add: be_bytes_def)

lemma length_be_bytes [simp]: "length (be_bytes n x) = n"
  by (simp add: be_bytes_def)

lemma be_bytes_1: "be_bytes (Suc 0) x = [word_of_nat x]"
  by (simp add: be_bytes_def)

lemma be_value_be_bytes: "be_value (be_bytes n x) = x mod 256 ^ n"
proof (induction n)
  case 0
  then show ?case by (simp add: be_bytes_def)
next
  case (Suc n)
  have "x mod (256 ^ n * 256) = 256 ^ n * (x div 256 ^ n mod 256) + x mod 256 ^ n"
    by (rule mod_mult2_eq)
  with Suc show ?case by (simp add: be_bytes_Suc unat_of_nat algebra_simps)
qed

lemma tag_bits:
  fixes t :: byte
  assumes "unat t < 64"
  shows "(0xc0 OR t) AND 0x80 \<noteq> 0" "(0xc0 OR t) AND 0x40 \<noteq> 0" "(0xc0 OR t) AND 0x3f = t"
proof -
  have t: "take_bit 6 t = t"
  proof -
    have "unat (take_bit 6 t) = unat t"
      using assms by (simp add: unsigned_take_bit_eq take_bit_nat_eq_self)
    then show ?thesis by (simp only: word_unat_eq_iff)
  qed
  have m: "x AND 0x3f = take_bit 6 x" for x :: byte
    by (simp add: take_bit_eq_mask mask_eq_exp_minus_1)
  have "take_bit 6 (0xc0 OR t) = take_bit 6 0xc0 OR take_bit 6 t" by simp
  then show "(0xc0 OR t) AND 0x3f = t" unfolding m by (simp add: t)
  have "bit ((0xc0 OR t) AND 0x80) 7" "bit ((0xc0 OR t) AND 0x40) 6"
    by (simp_all add: bit_simps)
  then show "(0xc0 OR t) AND 0x80 \<noteq> 0" "(0xc0 OR t) AND 0x40 \<noteq> 0"
    by (metis bit_0_eq bot_apply bot_bool_def)+
qed

lemma unat_length_octet: "k < 64 \<Longrightarrow> unat (192 + word_of_nat k :: byte) = 192 + k"
  by (simp add: unat_word_ariths unat_of_nat)

lemma old_tag_bits:
  fixes t :: byte
  assumes "unat t < 16" and "l \<in> {0, 1, 2}"
  shows "(0x80 + l OR push_bit 2 t) AND 0x80 \<noteq> 0" "(0x80 + l OR push_bit 2 t) AND 0x40 = 0"
    "(0x80 + l OR push_bit 2 t) AND 0x03 = l" "drop_bit 2 ((0x80 + l OR push_bit 2 t) AND 0x3c) = t"
proof -
  have "t \<in> set (map word_of_nat [0..<16])"
    using assms(1) by (auto intro!: image_eqI [of _ _ "unat t"])
  then have "t \<in> {0, 1, 2, 3, 4, 5, 6, 7, 8, 9, 10, 11, 12, 13, 14, 15}" by (simp add: upt_rec)
  with assms(2) show "(0x80 + l OR push_bit 2 t) AND 0x80 \<noteq> 0"
    "(0x80 + l OR push_bit 2 t) AND 0x40 = 0" "(0x80 + l OR push_bit 2 t) AND 0x03 = l"
    "drop_bit 2 ((0x80 + l OR push_bit 2 t) AND 0x3c) = t"
    by auto
qed

lemma new_two_length:
  assumes "192 \<le> n" and "n < 8384"
  shows "new_length (pre @ x # drop 1 (header_as New_Two t n) @ rest) (Suc (length pre)) = Some (n, 2)"
proof -
  define k where "k = (n - 192) div 256"
  have k: "k < 32" "k * 256 + (n - 192) mod 256 + 192 = n" using assms by (simp_all add: k_def)
  then have "unat (192 + word_of_nat k :: byte) = 192 + k" by (intro unat_length_octet) simp
  then show ?thesis
    using assms k
    by (simp add: new_length_def get_byte_def nth_append unat_byte_of_nat flip: k_def)
qed

lemmas header_reads = packet_header_def new_length_def old_length_def get_byte_def get_range_def
  nth_append unat_byte_of_nat be_value_be_bytes be_bytes_1 Let_def

lemma packet_header_emit:
  assumes "fits f p"
  shows "packet_header (pre @ emit_as (f, p) @ rest) (length pre)
    = Some (pkt_tag p, length (header_as f (pkt_tag p) (length (pkt_body p))), length (pkt_body p))"
proof (cases f)
  case New_Two
  then show ?thesis
    using assms tag_bits [of "pkt_tag p"]
      new_two_length [of "length (pkt_body p)" pre "0xc0 OR pkt_tag p" "pkt_tag p" "pkt_body p @ rest"]
    by (simp add: packet_header_def nth_append Let_def)
next
  case Old_One
  then show ?thesis
    using assms old_tag_bits [of "pkt_tag p" 0] by (simp add: header_reads)
next
  case Old_Two
  then show ?thesis
    using assms old_tag_bits [of "pkt_tag p" 1] by (simp add: header_reads)
next
  case Old_Four
  then show ?thesis
    using assms old_tag_bits [of "pkt_tag p" 2] by (simp add: header_reads)
qed (use assms tag_bits [of "pkt_tag p"] in \<open>simp_all add: header_reads\<close>)

lemma header_as_not_empty: "0 < length (header_as f t n)"
  by (cases f) simp_all

lemma packets_from_emit:
  assumes "all_fit fps" and "length (pre @ emit_all fps) < 2 ^ 64"
  shows "packets_from (pre @ emit_all fps) (length pre) = Some (map snd fps)"
  using assms
proof (induction fps arbitrary: pre)
  case Nil
  then show ?case by (simp add: packets_from.simps emit_all_def)
next
  case (Cons fp fps)
  obtain f p where fp: "fp = (f, p)" by fastforce
  let ?hdr = "header_as f (pkt_tag p) (length (pkt_body p))"
  let ?blob = "pre @ emit_as fp @ emit_all fps"
  have blob: "pre @ emit_all (fp # fps) = ?blob" by (simp add: emit_all_def)
  have "packets_from ?blob (length pre + length ?hdr + length (pkt_body p)) = Some (map snd fps)"
    using Cons.IH [of "pre @ emit_as fp"] Cons.prems(1) Cons.prems(2) [unfolded blob]
    by (simp add: fp all_fit_def add.assoc)
  moreover have "packet_header ?blob (length pre) = Some (pkt_tag p, length ?hdr, length (pkt_body p))"
    using Cons.prems(1) packet_header_emit [of f p pre "emit_all fps"] by (simp add: fp all_fit_def)
  moreover have "take (length (pkt_body p)) (drop (length pre + length ?hdr) ?blob) = pkt_body p"
    by (simp add: fp)
  moreover have "length pre < length ?blob" using header_as_not_empty [of f] by (simp add: fp)
  moreover have "length pre + length ?hdr + length (pkt_body p) \<le> length ?blob" by (simp add: fp)
  ultimately show ?case
    using Cons.prems(2) unfolding blob
    by (simp add: packets_from.simps [of _ "length pre"] Let_def fp)
qed

text \<open>
  C39. Packets written with the headers of RFC 9580 are read back, in every length encoding
  that the parser knows, mixed freely: one, two or five octets of length in the OpenPGP
  format with tags below 64, one, two or four octets in the legacy format with tags below 16,
  each with a body of a length that the encoding can state. The parser returns exactly the
  packets that were written, in their order.
\<close>

theorem packets_roundtrip:
  assumes "all_fit fps" and "length (emit_all fps) < 2 ^ 64"
  shows "packets (emit_all fps) = Some (map snd fps)"
  using packets_from_emit [of fps "[]"] assms by (simp add: packets_def)

definition sample_packets :: "(length_format \<times> packet) list" where
  "sample_packets =
    [(Old_Two, \<lparr>pkt_tag = 6, pkt_body = [4, 0, 0, 0, 0, 27]\<rparr>),
     (New_Two, \<lparr>pkt_tag = 13, pkt_body = replicate 200 7\<rparr>),
     (Old_Four, \<lparr>pkt_tag = 2, pkt_body = [1]\<rparr>),
     (New_Five, \<lparr>pkt_tag = 14, pkt_body = [4, 0, 0, 0, 0, 27]\<rparr>),
     (Old_One, \<lparr>pkt_tag = 14, pkt_body = [6, 0, 0, 0, 0, 35]\<rparr>),
     (New_One, \<lparr>pkt_tag = 63, pkt_body = []\<rparr>)]"

lemma sample_packets_ok: "all_fit sample_packets" "length (emit_all sample_packets) < 2 ^ 64"
  by (simp_all add: sample_packets_def all_fit_def emit_all_def)

theorem packets_roundtrip_witness:
  "packets (emit_all sample_packets) = Some (map snd sample_packets)"
  by (rule packets_roundtrip [OF sample_packets_ok])

section \<open>Key ids\<close>

definition is_upper_hexdigit :: "char \<Rightarrow> bool" where
  "is_upper_hexdigit c \<longleftrightarrow> is_digit c \<or> (65::nat) \<le> of_char c \<and> of_char c \<le> (70::nat)"

lemma upper_hex_class: "list_all is_upper_hexdigit (upper_hex bs)"
  using upper_digit_class
  by (induction bs) (auto simp: upper_hex_def upper_hex2_def is_upper_hexdigit_def byte_nibbles)

lemma length_last8: "8 \<le> length bs \<Longrightarrow> length (last8 bs) = 8"
  by (simp add: last8_def)

text \<open>The fingerprint of a version 4 or 6 key packet.\<close>

definition key_fingerprint :: "deps \<Rightarrow> bytes \<Rightarrow> bytes" where
  "key_fingerprint D body =
     (if hd body = 4 then sha1 D (0x99 # be_bytes 2 (length body) @ body)
      else sha256 D (0x9b # be_bytes 4 (length body) @ body))"

definition key_body_ok :: "bytes \<Rightarrow> bool" where
  "key_body_ok body \<longleftrightarrow> body \<noteq> [] \<and> (hd body = 4 \<and> length body \<le> 0xffff \<or> hd body = 6)"

lemma key_id_from_body_ok:
  assumes "hash_lengths D" "hex_doc D" "key_body_ok body"
  shows "key_id_from_body D body = Some (upper_hex (last8 (key_fingerprint D body)))"
  using assms(3) hash_lengthsD [OF assms(1)] hex_docD [OF assms(2)]
  by (cases body)
    (auto simp: key_body_ok_def key_id_from_body_def key_fingerprint_def format_key_id_def length_last8)

lemma key_id_from_body_Some:
  assumes "hash_lengths D" "hex_doc D" "key_id_from_body D body = Some i"
  shows "\<exists>bs. length bs = 8 \<and> i = upper_hex bs"
  using assms(3) hash_lengthsD [OF assms(1)] hex_docD [OF assms(2)]
  by (auto simp: key_id_from_body_def format_key_id_def split: list.splits if_splits)

text \<open>
  Which key serves an algorithm, from the layout of a key packet in RFC 9580 (section 5.5.2:
  version, four octets of time, the algorithm, in version 6 four octets of count, the material):
  a key of the algorithm's own number, or an ECDH key (18) whose material starts with the
  object identifier of the curve.
\<close>

definition native_algorithm :: "string \<Rightarrow> byte option" where
  "native_algorithm =
     [''openpgp-cv25519'' \<mapsto> 25, ''openpgp-cv448'' \<mapsto> 26, ''openpgp-mlkem768-x25519'' \<mapsto> 35]"

definition curve_oids :: "string \<Rightarrow> bytes set" where
  "curve_oids name =
     (if name = ''openpgp-cv25519''
      then {[0x2b, 0x06, 0x01, 0x04, 0x01, 0x97, 0x55, 0x01, 0x05, 0x01], [0x2b, 0x65, 0x6e]}
      else if name = ''openpgp-cv448'' then {[0x2b, 0x65, 0x6f]} else {})"

definition serves :: "string \<Rightarrow> bytes \<Rightarrow> bool" where
  "serves name body \<longleftrightarrow> (\<exists>version time number rest.
     body = version # time @ number # rest \<and> length time = 4 \<and> version \<in> {4, 6}
     \<and> (native_algorithm name = Some number
        \<or> number = 18 \<and> (\<exists>oid \<in> curve_oids name. \<exists>more.
            (if version = 6 then drop 4 rest else rest) = word_of_nat (length oid) # oid @ more)))"

text \<open>
  The key of a certificate that serves a purpose: the primary key, or, to encrypt, the first
  subkey that serves the algorithm; when none does, or no algorithm is asked for, the first
  subkey, whatever it can do, and without subkeys the primary key.
\<close>

definition serving_key :: "packet \<Rightarrow> packet list \<Rightarrow> string option \<Rightarrow> string option \<Rightarrow> packet \<Rightarrow> bool" where
  "serving_key primary subs purpose algorithm k \<longleftrightarrow>
     (if purpose \<in> {Some ''encryption'', Some ''key_agreement''} then
        (\<exists>name before after. algorithm = Some name \<and> subs = before @ k # after
           \<and> serves name (pkt_body k) \<and> (\<forall>x \<in> set before. \<not> serves name (pkt_body x)))
        \<or> (\<forall>x \<in> set subs. \<forall>name. algorithm = Some name \<longrightarrow> \<not> serves name (pkt_body x))
          \<and> k = hd (subs @ [primary])
      else k = primary)"

lemma oid_eq_iff:
  assumes "length oid < 256"
  shows "oid_eq body offset oid \<longleftrightarrow> (\<exists>more. drop offset body = word_of_nat (length oid) # oid @ more)"
proof (cases "offset < length body")
  case True
  then have body: "drop offset body = body ! offset # drop (Suc offset) body"
    by (rule Cons_nth_drop_Suc [symmetric])
  have len: "unat (word_of_nat (length oid) :: byte) = length oid" using assms by (rule unat_byte_of_nat)
  show ?thesis
  proof
    assume "oid_eq body offset oid"
    then have oid: "take (unat (body ! offset)) (drop (Suc offset) body) = oid"
      "unat (body ! offset) = length oid"
      using True by (auto simp: oid_eq_def get_byte_def get_range_def split: if_splits)
    then have "body ! offset = word_of_nat (length oid)" using len by (simp add: word_unat_eq_iff)
    with oid body show "\<exists>more. drop offset body = word_of_nat (length oid) # oid @ more"
      by (metis append_take_drop_id)
  next
    assume "\<exists>more. drop offset body = word_of_nat (length oid) # oid @ more"
    then obtain more where more: "drop offset body = word_of_nat (length oid) # oid @ more" by blast
    then have "drop (Suc offset) body = oid @ more" "body ! offset = word_of_nat (length oid)"
      using body by simp_all
    moreover from this(1) have "length body - Suc offset = length oid + length more"
      by (metis length_append length_drop)
    ultimately show "oid_eq body offset oid"
      using True len by (simp add: oid_eq_def get_byte_def get_range_def)
  qed
qed (simp add: oid_eq_def get_byte_def)

lemma key_packet_parts:
  assumes "5 < length (body :: bytes)"
  obtains v t number rest where "body = v # t @ number # rest" "length t = 4"
proof -
  from assms obtain v more where more: "body = v # more" "4 < length more" by (cases body) auto
  from that [OF _ , of v "take 4 more" "more ! 4" "drop 5 more"] show ?thesis
    using more id_take_nth_drop [OF more(2)] by simp
qed

lemma subkey_matches_iff: "subkey_matches body name \<longleftrightarrow> serves name body"
proof (cases "5 < length body")
  case True
  then obtain v t number rest where body: "body = v # t @ number # rest" and t: "length t = 4"
    by (rule key_packet_parts)
  have drops: "drop 6 body = rest" "drop 10 body = drop 4 rest"
    using t by (simp_all add: body numeral_eq_Suc)
  have octets: "get_byte body 0 = Some v" "get_byte body 5 = Some number"
    using t by (simp_all add: body get_byte_def nth_append)
  have d: "drop (if v = 6 then 10 else 6) body = (if v = 6 then drop 4 rest else rest)"
    using drops by simp
  have parts: "body = v' # t' @ n' # r' \<and> length t' = 4 \<and> R
      \<longleftrightarrow> v' = v \<and> t' = t \<and> n' = number \<and> r' = rest \<and> R" for v' t' n' r' R
    using t by (auto simp: body)
  have "serves name body \<longleftrightarrow> v \<in> {4, 6} \<and> (native_algorithm name = Some number
      \<or> number = 18 \<and> (\<exists>oid \<in> curve_oids name. \<exists>more.
          drop (if v = 6 then 10 else 6) body = word_of_nat (length oid) # oid @ more))"
    unfolding serves_def parts d by simp
  also have "\<dots> \<longleftrightarrow> v \<in> {4, 6} \<and> (native_algorithm name = Some number
      \<or> number = 18 \<and> (\<exists>oid \<in> curve_oids name. oid_eq body (if v = 6 then 10 else 6) oid))"
    by (auto simp: oid_eq_iff curve_oids_def)
  also have "\<dots> \<longleftrightarrow> subkey_matches body name"
    by (auto simp: subkey_matches_def octets native_algorithm_def curve_oids_def Let_def)
  finally show ?thesis by simp
next
  case False
  then show ?thesis
    by (auto simp: subkey_matches_def serves_def get_byte_def)
qed

lemma chosen_body_serves:
  assumes "pkt_tag primary = 6" and "\<forall>k \<in> set subs. pkt_tag k = 14"
    and "serving_key primary subs purpose algorithm k"
  shows "chosen_body (primary # subs) purpose algorithm = pkt_body k"
proof (cases "purpose \<in> {Some ''encryption'', Some ''key_agreement''}")
  case False
  with assms show ?thesis by (simp add: chosen_body_def serving_key_def Let_def)
next
  case True
  have subs: "pkt_tag primary = 6" "filter (\<lambda>k. pkt_tag k = 14) subs = subs"
    using assms(1,2) by (auto simp: filter_id_conv)
  have find_first: "find P (before @ k # after) = Some k" if "P k" "\<forall>x \<in> set before. \<not> P x"
    for P before after and k :: packet
    using that by (induction before) auto
  have find_none: "find P xs = None" if "\<forall>x \<in> set xs. \<not> P x" for P and xs :: "packet list"
    using that by (auto simp: find_None_iff)
  from assms(3) True consider
    (first) name before after where "algorithm = Some name" "subs = before @ k # after"
      "serves name (pkt_body k)" "\<forall>x \<in> set before. \<not> serves name (pkt_body x)"
  | (default) "\<forall>x \<in> set subs. \<forall>name. algorithm = Some name \<longrightarrow> \<not> serves name (pkt_body x)"
      "k = hd (subs @ [primary])"
    unfolding serving_key_def by auto
  then show ?thesis
  proof cases
    case first
    have "find (\<lambda>x. subkey_matches (pkt_body x) name) subs = Some k"
      unfolding first(2) using first(3,4) by (intro find_first) (simp_all add: subkey_matches_iff)
    then have "Option.bind algorithm (\<lambda>name. map_option pkt_body (find (\<lambda>x. subkey_matches (pkt_body x) name) subs))
        = Some (pkt_body k)"
      using first(1) by simp
    moreover have "subs \<noteq> []" using first(2) by simp
    ultimately show ?thesis using True by (auto simp: chosen_body_def Let_def subs)
  next
    case default
    have "Option.bind algorithm (\<lambda>name. map_option pkt_body (find (\<lambda>x. subkey_matches (pkt_body x) name) subs)) = None"
      using default(1) by (cases algorithm) (simp_all add: subkey_matches_iff find_none)
    moreover have "(case subs of [] \<Rightarrow> None | x # _ \<Rightarrow> Some (pkt_body x))
        = (if subs = [] then None else Some (pkt_body k))"
      using default(2) by (cases subs) simp_all
    ultimately show ?thesis
      using True default(2) by (cases "subs = []") (auto simp: chosen_body_def Let_def subs)
  qed
qed

text \<open>Material that is no OpenPGP packet, such as the DER encoding of a certificate.\<close>

lemma not_openpgp:
  assumes "unat b < 128"
  shows "openpgp_key_id D (b # bs) purpose algorithm = None"
proof -
  have "take_bit 7 b = b"
    using assms by (simp add: word_unat_eq_iff unsigned_take_bit_eq take_bit_nat_eq_self)
  then have "\<not> bit b 7" by (metis bit_take_bit_iff less_irrefl)
  then have "b AND 0x80 = 0" using and_exp_eq_0_iff_not_bit [of b 7] by simp
  then show ?thesis
    by (simp add: openpgp_key_id_def packets_def packets_from.simps packet_header_def)
qed

text \<open>
  C40. The key id of published OpenPGP material is the last eight octets of the fingerprint of
  the key that serves the purpose, as sixteen upper-case hexadecimal digits. For one
  certificate, a primary key with any number of subkeys, in any of the packet encodings of
  C39: the primary key for verification; for encryption the first subkey of the algorithm
  asked for, else the first subkey, which need not be one for encryption, else the primary
  key; the key has version 4 or 6. Material whose first octet has the high bit clear is no
  OpenPGP packet, for instance the DER of an S/MIME certificate, and is identified by its SHA-256.
\<close>

theorem openpgp_key_ids:
  assumes docs: "hash_lengths D" "hex_doc D"
    and wire: "all_fit fps" "length (emit_all fps) < 2 ^ 64"
    and keys: "filter (\<lambda>p. pkt_tag p = 6 \<or> pkt_tag p = 14) (map snd fps) = primary # subs"
    and tags: "pkt_tag primary = 6" "\<forall>k \<in> set subs. pkt_tag k = 14"
    and key: "serving_key primary subs purpose algorithm k" "key_body_ok (pkt_body k)"
  shows "derive_for D (emit_all fps) purpose algorithm
      = upper_hex (last8 (key_fingerprint D (pkt_body k)))
    \<and> list_all is_upper_hexdigit (derive_for D (emit_all fps) purpose algorithm)
    \<and> length (derive_for D (emit_all fps) purpose algorithm) = 16
    \<and> (unat b < 128 \<longrightarrow> derive_for D (b # bs) purpose algorithm = upper_hex (last8 (sha256 D (b # bs))))"
proof -
  have parsed: "packets (emit_all fps) = Some (map snd fps)"
    using packets_from_emit [of fps "[]"] wire by (simp add: packets_def)
  have "chosen_body (primary # subs) purpose algorithm = pkt_body k"
    using tags key(1) by (rule chosen_body_serves)
  then have id: "derive_for D (emit_all fps) purpose algorithm
      = upper_hex (last8 (key_fingerprint D (pkt_body k)))"
    using key_id_from_body_ok [OF docs key(2)]
    by (simp add: derive_for_def openpgp_key_id_def parsed keys)
  have "length (key_fingerprint D (pkt_body k)) \<ge> 8"
    using hash_lengthsD [OF docs(1)] by (simp add: key_fingerprint_def)
  moreover have "derive_for D (b # bs) purpose algorithm = upper_hex (last8 (sha256 D (b # bs)))"
    if "unat b < 128"
    by (simp add: derive_for_def not_openpgp [OF that] hex_docD [OF docs(2)])
  ultimately show ?thesis using id upper_hex_class length_last8 by simp
qed

theorem openpgp_key_ids_witness:
  "derive_for sample_deps (emit_all sample_packets) (Some ''encryption'')
      (Some ''openpgp-mlkem768-x25519'')
    = upper_hex (last8 (key_fingerprint sample_deps [6, 0, 0, 0, 0, 35]))"
proof -
  let ?p = "\<lparr>pkt_tag = 6, pkt_body = [4, 0, 0, 0, 0, 27]\<rparr>"
  let ?s = "\<lparr>pkt_tag = 14, pkt_body = [4, 0, 0, 0, 0, 27]\<rparr>"
  let ?k = "\<lparr>pkt_tag = 14, pkt_body = [6, 0, 0, 0, 0, 35]\<rparr>"
  have keys: "filter (\<lambda>p. pkt_tag p = 6 \<or> pkt_tag p = 14) (map snd sample_packets) = ?p # [?s, ?k]"
    by (simp add: sample_packets_def)
  have "serves ''openpgp-mlkem768-x25519'' (pkt_body ?k)" "\<not> serves ''openpgp-mlkem768-x25519'' (pkt_body ?s)"
    by (simp_all add: subkey_matches_def get_byte_def flip: subkey_matches_iff)
  then have "\<exists>before after. [?s, ?k] = before @ ?k # after \<and> serves ''openpgp-mlkem768-x25519'' (pkt_body ?k)
      \<and> (\<forall>x \<in> set before. \<not> serves ''openpgp-mlkem768-x25519'' (pkt_body x))"
    by (intro exI [of _ "[?s]"] exI [of _ "[]"]) auto
  then have "serving_key ?p [?s, ?k] (Some ''encryption'') (Some ''openpgp-mlkem768-x25519'') ?k"
    by (simp add: serving_key_def)
  from openpgp_key_ids [OF sample_deps_ok(1,2) sample_packets_ok keys _ _ this] show ?thesis
    by (simp add: key_body_ok_def)
qed

end
