(* ===== verification/Device.thy ===== *)
theory Device
  imports Identity
begin

text \<open>
  Device authorizations and signers: \<open>device.rs\<close> and \<open>signer.rs\<close>. The trait \<open>MskSigner\<close> is a
  record of its three methods; \<open>ed25519-dalek\<close> is a record of parameters.
\<close>

section \<open>signer.rs\<close>

definition MSK_ALGORITHM :: string where
  "MSK_ALGORITHM = ''ed25519''"

definition MSK_HYBRID :: string where
  "MSK_HYBRID = ''mldsa65-ed25519''"

definition MLDSA65_PUBLIC_KEY_BYTES :: nat where
  "MLDSA65_PUBLIC_KEY_BYTES = 1952"

definition ED25519_PUBLIC_KEY_BYTES :: nat where
  "ED25519_PUBLIC_KEY_BYTES = 32"

definition HYBRID_PUBLIC_KEY_BYTES :: nat where
  "HYBRID_PUBLIC_KEY_BYTES = MLDSA65_PUBLIC_KEY_BYTES + ED25519_PUBLIC_KEY_BYTES"

record dalek =
  dk_public :: "bytes \<Rightarrow> bytes" \<comment> \<open>\<open>SigningKey::from_bytes(seed).verifying_key()\<close>\<close>
  dk_sign :: "bytes \<Rightarrow> bytes \<Rightarrow> bytes" \<comment> \<open>seed and message\<close>

record msk_signing =
  sg_algorithm :: string
  sg_public_key :: bytes
  sg_sign :: "bytes \<Rightarrow> perr + bytes"

definition public_key_b64url :: "deps \<Rightarrow> msk_signing \<Rightarrow> string" where
  "public_key_b64url D s = encode_base64url D (sg_public_key s)"

record ed25519_signer =
  es_seed :: bytes
  es_public :: bytes

definition ed25519_from_seed :: "dalek \<Rightarrow> bytes \<Rightarrow> ed25519_signer" where
  "ed25519_from_seed K seed = \<lparr>es_seed = seed, es_public = dk_public K seed\<rparr>"

definition ed25519_generate :: "dalek \<Rightarrow> 'h net \<Rightarrow> ('h, perr, ed25519_signer) act" where
  "ed25519_generate K N = (\<lambda>h. case nt_random N 32 h of
      (Inl e, h) \<Rightarrow> (Inl (perr_new ''provider_unavailable'' e), h)
    | (Inr seed, h) \<Rightarrow> (Inr (ed25519_from_seed K seed), h))"

text \<open>\<open>impl MskSigner for Ed25519Signer\<close>, with the trait's default algorithm.\<close>

definition ed25519_msk_signing :: "dalek \<Rightarrow> ed25519_signer \<Rightarrow> msk_signing" where
  "ed25519_msk_signing K s =
     \<lparr>sg_algorithm = MSK_ALGORITHM, sg_public_key = es_public s,
      sg_sign = (\<lambda>m. Inr (dk_sign K (es_seed s) m))\<rparr>"

definition require_msk_public_key :: "bytes option \<Rightarrow> perr + bytes" where
  "require_msk_public_key key =
     (case key of
        Some k \<Rightarrow>
          if length k = ED25519_PUBLIC_KEY_BYTES \<or> length k = HYBRID_PUBLIC_KEY_BYTES then Inr k
          else Inl (perr_new ''invalid_request''
            ''MSK public key must be 32 bytes (ed25519) or 1984 bytes (mldsa65-ed25519)'')
      | None \<Rightarrow> Inl (perr_new ''invalid_request''
            ''MSK public key must be 32 bytes (ed25519) or 1984 bytes (mldsa65-ed25519)''))"

section \<open>device.rs\<close>

definition DEVICE_AUTHORIZATION_VERSION :: int where
  "DEVICE_AUTHORIZATION_VERSION = 1"

definition DEVICE_KEY_ALGORITHM :: string where
  "DEVICE_KEY_ALGORITHM = ''ed25519''"

definition device_authorization_payload_versioned ::
  "int \<Rightarrow> string \<Rightarrow> string \<Rightarrow> string \<Rightarrow> string \<Rightarrow> int \<Rightarrow> string \<Rightarrow> string option \<Rightarrow> perr + json"
where
  "device_authorization_payload_versioned version principal_id device_id device_public_key
      algorithm created_at nonce device_name =
     (if version \<noteq> DEVICE_AUTHORIZATION_VERSION
      then Inl (perr_new ''unsupported_structure_version'' ''Unsupported DeviceAuthorization version'')
      else Inr (jobj ([(''version'', JInt version), (''principal_id'', JStr principal_id),
        (''device_id'', JStr device_id), (''device_public_key'', JStr device_public_key),
        (''device_key_algorithm'', JStr algorithm), (''created_at'', JInt created_at),
        (''nonce'', JStr nonce)]
        @ (case device_name of Some n \<Rightarrow> [(''device_name'', JStr n)] | None \<Rightarrow> []))))"

definition device_authorization_payload ::
  "string \<Rightarrow> string \<Rightarrow> string \<Rightarrow> int \<Rightarrow> string \<Rightarrow> string option \<Rightarrow> perr + json"
where
  "device_authorization_payload principal_id device_id device_public_key created_at nonce device_name =
     device_authorization_payload_versioned DEVICE_AUTHORIZATION_VERSION principal_id device_id
       device_public_key DEVICE_KEY_ALGORITHM created_at nonce device_name"

text \<open>The closures \<open>get_str\<close> and \<open>get_i64\<close>: a key in snake case, or else in camel case.\<close>

definition snake_or_camel :: "jmap \<Rightarrow> string \<Rightarrow> string \<Rightarrow> json option" where
  "snake_or_camel obj snake camel = or_else (obj_get obj snake) (obj_get obj camel)"

definition device_get_str :: "jmap \<Rightarrow> string \<Rightarrow> string \<Rightarrow> string + string" where
  "device_get_str obj snake camel =
     ok_or (''missing '' @ snake) (Option.bind (snake_or_camel obj snake camel) as_str)"

definition device_get_i64 :: "jmap \<Rightarrow> string \<Rightarrow> string \<Rightarrow> string + int" where
  "device_get_i64 obj snake camel =
     ok_or (''missing '' @ snake) (Option.bind (snake_or_camel obj snake camel) as_i64)"

definition canonicalize_device_authorization :: "deps \<Rightarrow> json \<Rightarrow> string + string" where
  "canonicalize_device_authorization D authorization =
     and_then (ok_or ''device authorization must be an object'' (as_object authorization)) (\<lambda>obj.
     let version = unwrap_or DEVICE_AUTHORIZATION_VERSION (Option.bind (obj_get obj ''version'') as_i64);
         algorithm = unwrap_or DEVICE_KEY_ALGORITHM
           (Option.bind (snake_or_camel obj ''device_key_algorithm'' ''deviceKeyAlgorithm'') as_str);
         device_name = Option.bind (snake_or_camel obj ''device_name'' ''deviceName'') as_str
     in and_then (device_get_str obj ''principal_id'' ''principalId'') (\<lambda>prin.
        and_then (device_get_str obj ''device_id'' ''deviceId'') (\<lambda>device_id.
        and_then (device_get_str obj ''device_public_key'' ''devicePublicKey'') (\<lambda>public_key.
        and_then (device_get_i64 obj ''created_at'' ''createdAt'') (\<lambda>created_at.
        and_then (device_get_str obj ''nonce'' ''nonce'') (\<lambda>nonce.
        and_then (map_err pe_message (device_authorization_payload_versioned version prin device_id
          public_key algorithm created_at nonce device_name)) (\<lambda>payload.
        jcs D payload)))))))"

definition must_not_generate_msk :: "bool \<Rightarrow> bool \<Rightarrow> bool \<Rightarrow> bool" where
  "must_not_generate_msk principal_exists local_msk explicit_recovery \<longleftrightarrow>
     principal_exists \<and> \<not> local_msk \<and> \<not> explicit_recovery"

definition resolve_identity_ux_state ::
  "bool \<Rightarrow> bool \<Rightarrow> bool option \<Rightarrow> string option \<Rightarrow> string option \<Rightarrow> bool \<Rightarrow> bool option \<Rightarrow> string"
where
  "resolve_identity_ux_state principal_exists local_msk device_authorized enrollment_state
      recovery_state vault_syncing historical_keys_available =
     (if recovery_state \<in> {Some ''OTP_SENT'', Some ''RECOVERY_REQUESTED''} then ''otp_required''
      else if recovery_state \<in> {Some ''OTP_VERIFIED'', Some ''NEW_MSK_SUBMITTED''}
      then ''new_msk_being_created''
      else if recovery_state = Some ''COMPLETE'' then
        (if historical_keys_available = Some False then ''historical_vault_keys_unavailable''
         else ''identity_successfully_recovered'')
      else if enrollment_state = Some ''EXPIRED'' then ''enrollment_expired''
      else if enrollment_state = Some ''REJECTED'' then ''enrollment_rejected''
      else if enrollment_state \<in> {Some ''WAITING_FOR_APPROVAL'', Some ''QR_CREATED''}
      then ''waiting_for_previous_device_approval''
      else if (case enrollment_state of Some s \<Rightarrow> s \<noteq> ''ACTIVE'' | None \<Rightarrow> False)
      then ''enrollment_pending''
      else if \<not> principal_exists then ''no_existing_identity''
      else if \<not> local_msk \<and> device_authorized \<noteq> Some True then ''existing_identity_unauthorized''
      else if device_authorized = Some False then ''existing_identity_unauthorized''
      else if vault_syncing then ''vault_synchronization_in_progress''
      else ''existing_identity_authorized'')"

section \<open>Facts\<close>

lemma require_msk_public_key_Inr:
  "require_msk_public_key key = Inr k \<longleftrightarrow> key = Some k \<and> length k \<in> {32, 1984}"
  by (auto simp: require_msk_public_key_def ED25519_PUBLIC_KEY_BYTES_def HYBRID_PUBLIC_KEY_BYTES_def
      MLDSA65_PUBLIC_KEY_BYTES_def split: option.splits if_splits)

text \<open>
  An identity is authorized only when it exists, an MSK or an authorized device is present,
  no enrollment is under way, and nothing is syncing.
\<close>

lemma authorized_state_iff:
  "resolve_identity_ux_state principal_exists local_msk device_authorized enrollment_state
      recovery_state vault_syncing historical_keys_available = ''existing_identity_authorized''
    \<longleftrightarrow> principal_exists \<and> (local_msk \<or> device_authorized = Some True)
      \<and> device_authorized \<noteq> Some False \<and> \<not> vault_syncing
      \<and> (enrollment_state = None \<or> enrollment_state = Some ''ACTIVE'')
      \<and> recovery_state \<notin> Some ` {''OTP_SENT'', ''RECOVERY_REQUESTED'', ''OTP_VERIFIED'',
          ''NEW_MSK_SUBMITTED'', ''COMPLETE''}"
  by (cases enrollment_state)
    (auto simp: resolve_identity_ux_state_def split: if_splits)

text \<open>
  What the payload builder makes is read back by \<open>canonicalize_device_authorization\<close>: it
  returns the canonical JSON of the payload itself.
\<close>

lemma canonicalize_payload:
  assumes "device_authorization_payload prin device_id key created_at nonce name = Inr payload"
    and "- (2 ^ 63) \<le> created_at" and "created_at < 2 ^ 63"
  shows "canonicalize_device_authorization D payload = jcs D payload"
proof -
  define m where "m = obj_of ([(''version'', JInt 1), (''principal_id'', JStr prin),
        (''device_id'', JStr device_id), (''device_public_key'', JStr key),
        (''device_key_algorithm'', JStr ''ed25519''), (''created_at'', JInt created_at),
        (''nonce'', JStr nonce)] @ (case name of Some n \<Rightarrow> [(''device_name'', JStr n)] | None \<Rightarrow> []))"
  have payload: "payload = JObj m"
    using assms(1)
    by (simp add: device_authorization_payload_def device_authorization_payload_versioned_def jobj_def
        DEVICE_AUTHORIZATION_VERSION_def DEVICE_KEY_ALGORITHM_def m_def)
  have get: "obj_get m ''version'' = Some (JInt 1)" "obj_get m ''principal_id'' = Some (JStr prin)"
    "obj_get m ''device_id'' = Some (JStr device_id)" "obj_get m ''device_public_key'' = Some (JStr key)"
    "obj_get m ''device_key_algorithm'' = Some (JStr ''ed25519'')"
    "obj_get m ''created_at'' = Some (JInt created_at)" "obj_get m ''nonce'' = Some (JStr nonce)"
    "obj_get m ''device_name'' = map_option JStr name" "obj_get m ''deviceName'' = None"
    by (simp_all add: m_def obj_get_obj_of split: option.split)
  have name: "Option.bind (or_else (map_option JStr name) None) as_str = name"
    by (cases name) simp_all
  show ?thesis
    using assms
    by (simp add: payload canonicalize_device_authorization_def snake_or_camel_def device_get_str_def
        device_get_i64_def get name device_authorization_payload_def DEVICE_KEY_ALGORITHM_def
        DEVICE_AUTHORIZATION_VERSION_def)
qed

end
