(* ===== verification/Selection.thy ===== *)
theory Selection
  imports Discovery_Http
begin

text \<open>
  Choosing an encryption key: \<open>select.rs\<close> and \<open>document.rs\<close>. The stable descending sort of the
  candidates is \<open>sort_key\<close> over \<open>rank\<close>, a datatype whose linear order puts the better
  artifact first.
\<close>

section \<open>select.rs\<close>

definition PGP :: string where
  "PGP = ''pgp''"

definition SMIME :: string where
  "SMIME = ''smime''"

definition ENCRYPTION :: string where
  "ENCRYPTION = ''encryption''"

record select_preferences =
  sp_preferred_family :: "string option"
  sp_preferred_algorithm :: "string option"

definition is_pq_algorithm :: "deps \<Rightarrow> string \<Rightarrow> bool" where
  "is_pq_algorithm D algorithm =
     (let n = to_lowercase D algorithm in
      contains_str ''mlkem'' n \<or> contains_str ''mldsa'' n \<or> contains_str ''slhdsa'' n
      \<or> contains_str ''hqc'' n \<or> starts_with ''pqc-'' n)"

definition algorithm_preference_rank :: "deps \<Rightarrow> string \<Rightarrow> int" where
  "algorithm_preference_rank D algorithm = (if is_pq_algorithm D algorithm then 1 else 0)"

definition family_preference_rank :: "string \<Rightarrow> int" where
  "family_preference_rank family = (if family = SMIME then 1 else if family = PGP then 0 else - 1)"

definition as_int :: "json option \<Rightarrow> int" where
  "as_int v = (case v of
      Some (JInt i) \<Rightarrow> unwrap_or 0 (as_i64 (JInt i))
    | Some (JStr s) \<Rightarrow> unwrap_or 0 (parse_i64 s)
    | _ \<Rightarrow> 0)"

definition is_wire_family :: "string \<Rightarrow> bool" where
  "is_wire_family family \<longleftrightarrow> family = PGP \<or> family = SMIME"

text \<open>The pairs \<open>family:algorithm\<close> of the capabilities.\<close>

definition family_pairs :: "string \<times> json \<Rightarrow> string list" where
  "family_pairs = (\<lambda>(family, algos).
     if \<not> is_wire_family family then []
     else (case as_array algos of
         None \<Rightarrow> []
       | Some l \<Rightarrow> map (\<lambda>a. family @ '':'' @ a) (List.map_filter as_str l)))"

definition supported_pairs :: "json option \<Rightarrow> string list" where
  "supported_pairs capabilities =
     (case Option.bind capabilities (\<lambda>c. Option.bind (jget c ''families'') as_object) of
        None \<Rightarrow> []
      | Some families \<Rightarrow> concat (map family_pairs families))"

text \<open>One round of the loop that collects the candidates; \<open>None\<close> is \<open>continue\<close>.\<close>

definition candidate_of :: "string list \<Rightarrow> string option \<Rightarrow> json \<Rightarrow> jmap option" where
  "candidate_of supported purpose raw =
     (case as_object raw of None \<Rightarrow> None | Some obj \<Rightarrow>
      if (case get_str obj ''status'' of Some status \<Rightarrow> status \<noteq> ''active'' | None \<Rightarrow> False) then None
      else if obj_get obj ''public_material'' = Some (JStr []) then None
      else (case get_str obj ''family'' of None \<Rightarrow> None | Some family \<Rightarrow>
        if \<not> is_wire_family family then None
        else if (case (purpose, get_str obj ''purpose'') of
            (Some want, Some have) \<Rightarrow> have \<noteq> want | _ \<Rightarrow> False) then None
        else
          (let algo = unwrap_or [] (get_str obj ''algorithm'')
           in if family @ '':'' @ algo \<in> set supported then Some obj else None)))"

datatype rank = Rank (rk_pq: int) (rk_family: int) (rk_key: int)

text \<open>The comparison of \<open>sort_by\<close>: post-quantum first, then the family, then the newer key.\<close>

instantiation rank :: linorder
begin

definition less_eq_rank :: "rank \<Rightarrow> rank \<Rightarrow> bool" where
  "less_eq_rank r s \<longleftrightarrow> rk_pq s < rk_pq r
     \<or> rk_pq s = rk_pq r \<and> (rk_family s < rk_family r
         \<or> rk_family s = rk_family r \<and> rk_key s \<le> rk_key r)"

definition less_rank :: "rank \<Rightarrow> rank \<Rightarrow> bool" where
  "less_rank r s \<longleftrightarrow> rk_pq s < rk_pq r
     \<or> rk_pq s = rk_pq r \<and> (rk_family s < rk_family r
         \<or> rk_family s = rk_family r \<and> rk_key s < rk_key r)"

instance
  by standard (auto simp: less_eq_rank_def less_rank_def intro: rank.expand)

end

definition artifact_rank :: "deps \<Rightarrow> jmap \<Rightarrow> rank" where
  "artifact_rank D a =
     Rank (algorithm_preference_rank D (unwrap_or [] (get_str a ''algorithm'')))
       (family_preference_rank (unwrap_or [] (get_str a ''family'')))
       (as_int (obj_get a ''key_id''))"

definition matches_preference :: "string \<Rightarrow> string option \<Rightarrow> jmap \<Rightarrow> bool" where
  "matches_preference preferred_family preferred_algorithm a \<longleftrightarrow>
     get_str a ''family'' = Some preferred_family
     \<and> (preferred_algorithm = None \<or> preferred_algorithm = get_str a ''algorithm'')"

definition select_best_artifact ::
  "deps \<Rightarrow> json list \<Rightarrow> json option \<Rightarrow> select_preferences option \<Rightarrow> string option \<Rightarrow> jmap option"
where
  "select_best_artifact D artifacts capabilities preferences purpose =
     (let candidates = List.map_filter (candidate_of (supported_pairs capabilities) purpose) artifacts;
        preferred = Option.bind preferences (\<lambda>prefs.
          Option.bind (sp_preferred_family prefs) (\<lambda>f.
            if is_wire_family f
            then find (matches_preference f (sp_preferred_algorithm prefs)) candidates else None))
      in if candidates = [] then None
         else (case preferred of
             Some a \<Rightarrow> Some a
           | None \<Rightarrow> (case sort_key (artifact_rank D) candidates of a # _ \<Rightarrow> Some a | [] \<Rightarrow> None)))"

section \<open>document.rs\<close>

definition value_to_string :: "deps \<Rightarrow> json \<Rightarrow> string" where
  "value_to_string D v = (case v of
      JStr s \<Rightarrow> s
    | w \<Rightarrow> trim_end_char (CHR 0x22) (dropWhile (\<lambda>c. c = CHR 0x22) (json_print D w)))"

text \<open>\<open>obj.get(k)...\<close> with \<open>unwrap_or_default\<close>.\<close>

definition object_or_empty :: "json option \<Rightarrow> jmap" where
  "object_or_empty v = unwrap_or [] (Option.bind v as_object)"

definition text_or_empty :: "deps \<Rightarrow> json option \<Rightarrow> string" where
  "text_or_empty D v = unwrap_or [] (map_option (value_to_string D) v)"

record discovery_document =
  dd_schema_version :: string
  dd_mailbox_sha256 :: string
  dd_schema :: "string option"
  dd_capabilities :: jmap
  dd_extensions :: jmap
  dd_raw :: jmap

definition document_from_json :: "deps \<Rightarrow> json \<Rightarrow> discovery_document" where
  "document_from_json D v =
     (let obj = object_or_empty (Some v)
      in \<lparr>dd_schema_version = text_or_empty D (obj_get obj ''schemaVersion''),
          dd_mailbox_sha256 = text_or_empty D (obj_get obj ''mailboxSha256''),
          dd_schema = map_option (value_to_string D) (obj_get obj ''$schema''),
          dd_capabilities = object_or_empty (obj_get obj ''capabilities''),
          dd_extensions = object_or_empty (obj_get obj ''extensions''),
          dd_raw = obj\<rparr>)"

definition document_crypto :: "discovery_document \<Rightarrow> jmap option" where
  "document_crypto doc = Option.bind (obj_get (dd_capabilities doc) ''crypto'') as_object"

definition encryption_keys :: "discovery_document \<Rightarrow> jmap list" where
  "encryption_keys doc =
     (case document_crypto doc of None \<Rightarrow> [] | Some crypto \<Rightarrow>
      case Option.bind (obj_get crypto ''encryption'') as_object of None \<Rightarrow> [] | Some part \<Rightarrow>
      case Option.bind (obj_get part ''keys'') as_array of None \<Rightarrow> [] | Some keys \<Rightarrow>
      List.map_filter as_object keys)"

definition verification_keys :: "discovery_document \<Rightarrow> jmap list" where
  "verification_keys doc =
     (case document_crypto doc of None \<Rightarrow> [] | Some crypto \<Rightarrow>
      case Option.bind (obj_get crypto ''verification'') as_object of None \<Rightarrow> [] | Some part \<Rightarrow>
      case Option.bind (obj_get part ''keys'') as_array of None \<Rightarrow> [] | Some keys \<Rightarrow>
      List.map_filter as_object keys)"

definition preferred_languages :: "deps \<Rightarrow> discovery_document \<Rightarrow> string list" where
  "preferred_languages D doc =
     (case Option.bind (obj_get (dd_capabilities doc) ''preferences'') as_object of None \<Rightarrow> []
      | Some prefs \<Rightarrow>
      case Option.bind (obj_get prefs ''languages'') as_array of None \<Rightarrow> [] | Some languages \<Rightarrow>
      map (value_to_string D) languages)"

text \<open>\<open>Option::filter\<close> on a non-empty text, and the first algorithm of a key.\<close>

definition nonempty_text :: "string option \<Rightarrow> string option" where
  "nonempty_text t = (if t = Some [] then None else t)"

definition first_algorithm :: "deps \<Rightarrow> jmap \<Rightarrow> string option" where
  "first_algorithm D key =
     (case Option.bind (obj_get key ''algorithms'') as_array of
        Some (a # _) \<Rightarrow> Some (value_to_string D a) | _ \<Rightarrow> None)"

definition key_family :: "deps \<Rightarrow> jmap \<Rightarrow> string" where
  "key_family D key =
     (let family_raw = text_or_empty D (obj_get key ''family'')
      in if family_raw = ''openpgp'' then PGP else family_raw)"

definition artifact_of_key :: "string \<Rightarrow> string \<Rightarrow> int \<Rightarrow> json option \<Rightarrow> string \<Rightarrow> json" where
  "artifact_of_key family algorithm index kid material =
     jobj ([(''family'', JStr family), (''algorithm'', JStr algorithm),
       (''purpose'', JStr ENCRYPTION), (''status'', JStr ''active''), (''key_id'', JInt index)]
       @ (case kid of Some k \<Rightarrow> [(''published_key_id'', k)] | None \<Rightarrow> [])
       @ [(''public_material'', JStr material)])"

fun artifacts_from :: "deps \<Rightarrow> int \<Rightarrow> jmap list \<Rightarrow> json list" where
  "artifacts_from D index [] = []"
| "artifacts_from D index (key # keys) =
     (let family = key_family D key in
      if family \<noteq> PGP \<and> family \<noteq> SMIME then artifacts_from D index keys
      else (case nonempty_text (first_algorithm D key) of
          None \<Rightarrow> artifacts_from D index keys
        | Some algorithm \<Rightarrow>
          (case nonempty_text (map_option (value_to_string D) (obj_get key ''publicKey'')) of
             None \<Rightarrow> artifacts_from D index keys
           | Some material \<Rightarrow>
               artifact_of_key family algorithm index (obj_get key ''keyId'') material
               # artifacts_from D (index + 1) keys)))"

definition encryption_artifacts_for_selection :: "deps \<Rightarrow> discovery_document \<Rightarrow> json list" where
  "encryption_artifacts_for_selection D doc = artifacts_from D 0 (encryption_keys doc)"

definition select_best_encryption_key ::
  "deps \<Rightarrow> discovery_document \<Rightarrow> json \<Rightarrow> select_preferences option \<Rightarrow> jmap option"
where
  "select_best_encryption_key D doc capabilities preferences =
     select_best_artifact D (encryption_artifacts_for_selection D doc) (Some capabilities)
       preferences (Some ENCRYPTION)"

record discovery_resource =
  dr_id :: string
  dr_type :: string
  dr_schema_version :: string
  dr_value :: jmap
  dr_visibility :: "string option"
  dr_metadata :: jmap
  dr_raw :: jmap

definition resource_from_json :: "deps \<Rightarrow> json \<Rightarrow> discovery_resource" where
  "resource_from_json D v =
     (let obj = object_or_empty (Some v)
      in \<lparr>dr_id = text_or_empty D (obj_get obj ''id''),
          dr_type = text_or_empty D (obj_get obj ''type''),
          dr_schema_version = text_or_empty D (obj_get obj ''schemaVersion''),
          dr_value = object_or_empty (obj_get obj ''value''),
          dr_visibility = map_option (value_to_string D) (obj_get obj ''visibility''),
          dr_metadata = object_or_empty (obj_get obj ''metadata''),
          dr_raw = obj\<rparr>)"

record discovery_challenge =
  dc_id :: string
  dc_type :: string
  dc_status :: string
  dc_purpose :: "string option"
  dc_expires_at :: "string option"
  dc_attempts_remaining :: "int option"
  dc_proof :: "string option"
  dc_raw :: jmap

definition challenge_from_json :: "deps \<Rightarrow> json \<Rightarrow> discovery_challenge" where
  "challenge_from_json D v =
     (let obj = object_or_empty (Some v)
      in \<lparr>dc_id = text_or_empty D (obj_get obj ''id''),
          dc_type = text_or_empty D (obj_get obj ''type''),
          dc_status = text_or_empty D (obj_get obj ''status''),
          dc_purpose = map_option (value_to_string D) (obj_get obj ''purpose''),
          dc_expires_at = map_option (value_to_string D) (obj_get obj ''expiresAt''),
          dc_attempts_remaining = Option.bind (obj_get obj ''attemptsRemaining'')
            (\<lambda>v. or_else (as_i64 v) (Option.bind (as_str v) parse_i64)),
          dc_proof = map_option (value_to_string D) (obj_get obj ''proof''),
          dc_raw = obj\<rparr>)"

section \<open>What the selection promises\<close>

text \<open>The head of a stable sort is the first among the least.\<close>

lemma sort_key_head:
  assumes "sort_key f xs = y # ys"
  shows "\<exists>before after. xs = before @ y # after \<and> (\<forall>b \<in> set before. f y < f b)
    \<and> (\<forall>c \<in> set after. f y \<le> f c)"
proof -
  have "sorted (map f (y # ys))" using sorted_sort_key [of f xs] assms by simp
  moreover have "set (y # ys) = set xs" using assms set_sort [of f xs] by simp
  ultimately have least: "\<forall>x \<in> set xs. f y \<le> f x" by auto
  have "filter (\<lambda>x. f x = f y) xs = y # filter (\<lambda>x. f x = f y) ys"
    using sort_key_stable [of f "f y" xs] assms by simp
  then obtain us vs where xs: "xs = us @ y # vs" and "\<forall>u \<in> set us. f u \<noteq> f y"
    by (auto dest!: filter_eq_ConsD)
  then have "\<forall>b \<in> set us. f y < f b" using least by (auto simp: order.not_eq_order_implies_strict)
  with xs least show ?thesis by (intro exI [of _ us] exI [of _ vs]) auto
qed

text \<open>The contract, in the terms of the discovery protocol.\<close>

definition advertised :: "json option \<Rightarrow> string \<Rightarrow> string \<Rightarrow> bool" where
  "advertised capabilities family algo \<longleftrightarrow>
     (\<exists>c families l. capabilities = Some c \<and> jget c ''families'' = Some (JObj families)
        \<and> (family, JArr l) \<in> set families \<and> JStr algo \<in> set l)"

definition eligible :: "json option \<Rightarrow> string option \<Rightarrow> jmap \<Rightarrow> bool" where
  "eligible capabilities purpose a \<longleftrightarrow>
     (\<forall>s. get_str a ''status'' = Some s \<longrightarrow> s = ''active'')
     \<and> obj_get a ''public_material'' \<noteq> Some (JStr [])
     \<and> (\<forall>want have. purpose = Some want \<longrightarrow> get_str a ''purpose'' = Some have \<longrightarrow> have = want)
     \<and> (\<exists>f \<in> {PGP, SMIME}. get_str a ''family'' = Some f
         \<and> advertised capabilities f (unwrap_or [] (get_str a ''algorithm'')))"

definition preferred :: "select_preferences option \<Rightarrow> jmap \<Rightarrow> bool" where
  "preferred preferences a \<longleftrightarrow>
     (\<exists>p f. preferences = Some p \<and> sp_preferred_family p = Some f \<and> f \<in> {PGP, SMIME}
        \<and> get_str a ''family'' = Some f
        \<and> (\<forall>algo. sp_preferred_algorithm p = Some algo \<longrightarrow> get_str a ''algorithm'' = Some algo))"

definition outranks :: "deps \<Rightarrow> jmap \<Rightarrow> jmap \<Rightarrow> bool" where
  "outranks D a b \<longleftrightarrow>
     (let pq = (\<lambda>x. is_pq_algorithm D (unwrap_or [] (get_str x ''algorithm'')));
          smime = (\<lambda>x. get_str x ''family'' = Some SMIME);
          newer = as_int (obj_get b ''key_id'') < as_int (obj_get a ''key_id'')
      in pq a \<and> \<not> pq b \<or> pq a = pq b \<and> (smime a \<and> \<not> smime b \<or> smime a = smime b \<and> newer))"

lemma wire_family_iff: "is_wire_family f \<longleftrightarrow> f \<in> {PGP, SMIME}"
  by (auto simp: is_wire_family_def)

lemma wire_pair_inject:
  assumes "f \<in> {PGP, SMIME}" and "g \<in> {PGP, SMIME}"
  shows "f @ '':'' @ a = g @ '':'' @ b \<longleftrightarrow> f = g \<and> a = b"
  using assms by (auto simp: PGP_def SMIME_def)

lemma supported_pair_iff:
  assumes "f \<in> {PGP, SMIME}"
  shows "f @ '':'' @ a \<in> set (supported_pairs capabilities) \<longleftrightarrow> advertised capabilities f a"
proof -
  have pair: "f @ '':'' @ a \<in> set (family_pairs (g, algos)) \<longleftrightarrow>
      g = f \<and> (\<exists>l. algos = JArr l \<and> JStr a \<in> set l)" for g algos
  proof (cases "g \<in> {PGP, SMIME}")
    case True
    then show ?thesis
      using wire_pair_inject [OF assms True]
      by (cases algos) (auto simp: family_pairs_def wire_family_iff List.map_filter_def image_iff
          simp del: append.simps append_Cons)
  next
    case False
    with assms show ?thesis by (auto simp: family_pairs_def wire_family_iff)
  qed
  show ?thesis
  proof (cases "Option.bind capabilities (\<lambda>c. Option.bind (jget c ''families'') as_object)")
    case None
    then show ?thesis by (auto simp: supported_pairs_def advertised_def)
  next
    case (Some families)
    then have "f @ '':'' @ a \<in> set (supported_pairs capabilities)
        \<longleftrightarrow> (\<exists>(g, algos) \<in> set families. f @ '':'' @ a \<in> set (family_pairs (g, algos)))"
      by (simp add: supported_pairs_def case_prod_unfold)
    also have "\<dots> \<longleftrightarrow> (\<exists>l. (f, JArr l) \<in> set families \<and> JStr a \<in> set l)"
      unfolding pair by blast
    finally show ?thesis
      using Some by (auto simp: advertised_def bind_eq_Some_conv)
  qed
qed

lemma candidate_iff:
  "candidate_of (supported_pairs capabilities) purpose raw = Some a
    \<longleftrightarrow> raw = JObj a \<and> eligible capabilities purpose a"
proof -
  have pair: "f @ CHR '':'' # algo \<in> set (supported_pairs capabilities)
      \<longleftrightarrow> advertised capabilities f algo" if "f = PGP \<or> f = SMIME" for f algo
    using supported_pair_iff [of f algo capabilities] that by simp
  show ?thesis
    by (cases raw) (auto simp: candidate_of_def eligible_def is_wire_family_def Let_def pair
        simp del: get_str_Some_iff split: option.splits if_splits)
qed

definition eligible_artifacts :: "json option \<Rightarrow> string option \<Rightarrow> json list \<Rightarrow> jmap list" where
  "eligible_artifacts capabilities purpose artifacts =
     filter (eligible capabilities purpose) (List.map_filter as_object artifacts)"

lemma candidates_eligible:
  "List.map_filter (candidate_of (supported_pairs capabilities) purpose) artifacts
     = eligible_artifacts capabilities purpose artifacts"
proof (induction artifacts)
  case Nil
  then show ?case by (simp add: eligible_artifacts_def List.map_filter_simps)
next
  case (Cons raw artifacts)
  have "candidate_of (supported_pairs capabilities) purpose raw =
      (case as_object raw of
         Some a \<Rightarrow> if eligible capabilities purpose a then Some a else None | None \<Rightarrow> None)"
    using candidate_iff [of capabilities purpose raw]
    by (cases "candidate_of (supported_pairs capabilities) purpose raw"; cases raw) auto
  with Cons.IH show ?case
    by (simp add: eligible_artifacts_def List.map_filter_simps split: option.split)
qed

lemma eligible_family_rank:
  assumes "eligible capabilities purpose a"
  shows "family_preference_rank (unwrap_or [] (get_str a ''family''))
    = (if get_str a ''family'' = Some SMIME then 1 else 0)"
proof -
  from assms obtain f where "get_str a ''family'' = Some f" "f \<in> {PGP, SMIME}"
    unfolding eligible_def by blast
  then show ?thesis by (simp add: family_preference_rank_def del: get_str_Some_iff) blast
qed

lemma rank_outranks:
  assumes "eligible capabilities purpose a" and "eligible capabilities purpose b"
  shows "artifact_rank D a < artifact_rank D b \<longleftrightarrow> outranks D a b"
  using eligible_family_rank [OF assms(1)] eligible_family_rank [OF assms(2)]
  by (simp add: artifact_rank_def less_rank_def outranks_def Let_def algorithm_preference_rank_def
      del: get_str_Some_iff)

lemma find_first:
  "find P xs = Some a \<Longrightarrow> \<exists>before after. xs = before @ a # after \<and> P a \<and> (\<forall>b \<in> set before. \<not> P b)"
proof (induction xs)
  case Nil
  then show ?case by simp
next
  case (Cons x xs)
  show ?case
  proof (cases "P x")
    case True
    with Cons.prems show ?thesis by (intro exI [of _ "[]"] exI [of _ xs]) simp
  next
    case False
    with Cons obtain before after where "xs = before @ a # after" "P a" "\<forall>b \<in> set before. \<not> P b"
      by auto
    with False show ?thesis by (intro exI [of _ "x # before"] exI [of _ after]) simp
  qed
qed

lemma find_in_set: "find P xs = Some a \<Longrightarrow> a \<in> set xs"
  by (auto dest: find_first)

lemma selected_eligible:
  assumes "select_best_artifact D artifacts capabilities preferences purpose = Some a"
  shows "a \<in> set (eligible_artifacts capabilities purpose artifacts)"
proof -
  let ?es = "eligible_artifacts capabilities purpose artifacts"
  have "a \<in> set ?es" if "sort_key (artifact_rank D) ?es = a # r" for r
    using that set_sort [of "artifact_rank D" ?es] by auto
  with assms show ?thesis
    by (auto simp: select_best_artifact_def candidates_eligible Let_def bind_eq_Some_conv
        dest!: find_in_set split: option.splits if_splits list.splits)
qed

text \<open>The code's search for a preferred artifact is the search for one that \<open>preferred\<close> holds of.\<close>

lemma preference_finds:
  "Option.bind preferences (\<lambda>prefs. Option.bind (sp_preferred_family prefs)
     (\<lambda>f. if is_wire_family f then find (matches_preference f (sp_preferred_algorithm prefs)) es else None))
   = find (preferred preferences) es" (is "?chosen = _")
proof (cases "\<exists>p f. preferences = Some p \<and> sp_preferred_family p = Some f \<and> f \<in> {PGP, SMIME}")
  case True
  then obtain p f where p: "preferences = Some p" "sp_preferred_family p = Some f" "f \<in> {PGP, SMIME}"
    by blast
  have "matches_preference f (sp_preferred_algorithm p) = preferred preferences"
    using p by (intro ext) (cases "sp_preferred_algorithm p", auto simp: matches_preference_def preferred_def
        simp del: get_str_Some_iff)
  with p show ?thesis by (simp add: wire_family_iff)
next
  case False
  then have "preferred preferences c \<longleftrightarrow> False" for c by (auto simp: preferred_def)
  then have "find (preferred preferences) es = None" by (simp add: find_None_iff)
  moreover have "?chosen = None"
    using False by (auto simp: wire_family_iff split: bind_split)
  ultimately show ?thesis by simp
qed

text \<open>
  C37. Selecting an artifact: nothing is selected exactly when no artifact is eligible (active,
  with material, of a wire family and the wanted purpose, its family and algorithm advertised
  by the client). Otherwise, when an eligible artifact matches the preferences, the first such
  one is taken; and when none does, the one taken outranks every eligible artifact listed
  before it and none listed after it outranks it: post-quantum first, then S/MIME over
  OpenPGP, then the newer key.
\<close>

theorem best_artifact_selected:
  "case select_best_artifact D artifacts capabilities preferences purpose of
     None \<Rightarrow> \<forall>a. JObj a \<in> set artifacts \<longrightarrow> \<not> eligible capabilities purpose a
   | Some a \<Rightarrow> \<exists>before after.
       eligible_artifacts capabilities purpose artifacts = before @ a # after
       \<and> (if \<exists>c \<in> set (before @ a # after). preferred preferences c
          then preferred preferences a \<and> (\<forall>b \<in> set before. \<not> preferred preferences b)
          else (\<forall>b \<in> set before. outranks D a b) \<and> (\<forall>b \<in> set after. \<not> outranks D b a))"
proof -
  let ?es = "eligible_artifacts capabilities purpose artifacts"
  define chosen where "chosen = Option.bind preferences (\<lambda>prefs. Option.bind (sp_preferred_family prefs)
    (\<lambda>f. if is_wire_family f then find (matches_preference f (sp_preferred_algorithm prefs)) ?es else None))"
  have chosen: "chosen = find (preferred preferences) ?es"
    unfolding chosen_def by (rule preference_finds)
  have model: "select_best_artifact D artifacts capabilities preferences purpose =
      (if ?es = [] then None else (case chosen of Some a \<Rightarrow> Some a
       | None \<Rightarrow> (case sort_key (artifact_rank D) ?es of a # _ \<Rightarrow> Some a | [] \<Rightarrow> None)))"
    by (simp add: select_best_artifact_def candidates_eligible chosen_def Let_def)
  have el: "eligible capabilities purpose e" if "e \<in> set ?es" for e
    using that by (simp add: eligible_artifacts_def)
  consider (none) "?es = []" | (match) a where "?es \<noteq> []" "chosen = Some a"
    | (best) a rest where "?es \<noteq> []" "chosen = None" "sort_key (artifact_rank D) ?es = a # rest"
    by (cases "sort_key (artifact_rank D) ?es"; cases chosen) (auto simp flip: sort_key_simps(1) dest: arg_cong [of _ _ length])
  then show ?thesis
  proof cases
    case none
    then show ?thesis
      by (auto simp: model eligible_artifacts_def filter_empty_conv List.map_filter_def image_iff)
  next
    case match
    then obtain before after where "?es = before @ a # after" "preferred preferences a"
      "\<forall>b \<in> set before. \<not> preferred preferences b"
      using find_first [of "preferred preferences" ?es a] chosen by auto
    with match show ?thesis by (auto simp: model)
  next
    case best
    have no: "\<forall>c \<in> set ?es. \<not> preferred preferences c"
      using best(2) chosen by (simp add: find_None_iff)
    from sort_key_head [OF best(3)] obtain before after where split: "?es = before @ a # after"
      and order: "\<forall>b \<in> set before. artifact_rank D a < artifact_rank D b"
        "\<forall>c \<in> set after. artifact_rank D a \<le> artifact_rank D c" by blast
    have mem: "eligible capabilities purpose a" "\<forall>b \<in> set before \<union> set after. eligible capabilities purpose b"
      using el split by auto
    have "\<forall>b \<in> set before. outranks D a b" "\<forall>b \<in> set after. \<not> outranks D b a"
      using order mem rank_outranks [of capabilities purpose] by (auto simp: not_less [symmetric])
    with best split no show ?thesis by (auto simp: model)
  qed
qed

lemma artifacts_from_nth:
  assumes "i < length (artifacts_from D n keys)"
  shows "\<exists>key \<in> set keys. \<exists>algorithm material.
      artifacts_from D n keys ! i
        = artifact_of_key (key_family D key) algorithm (n + int i) (obj_get key ''keyId'') material
      \<and> first_algorithm D key = Some algorithm \<and> algorithm \<noteq> []
      \<and> map_option (value_to_string D) (obj_get key ''publicKey'') = Some material \<and> material \<noteq> []
      \<and> i < length keys"
  using assms
proof (induction keys arbitrary: n i)
  case Nil
  then show ?case by simp
next
  case (Cons key keys)
  show ?case
  proof (cases "artifacts_from D n (key # keys) = artifacts_from D n keys")
    case True
    with Cons.IH [of i n] Cons.prems show ?thesis by fastforce
  next
    case False
    then obtain algorithm material where key: "first_algorithm D key = Some algorithm" "algorithm \<noteq> []"
      "map_option (value_to_string D) (obj_get key ''publicKey'') = Some material" "material \<noteq> []"
      and arts: "artifacts_from D n (key # keys)
        = artifact_of_key (key_family D key) algorithm n (obj_get key ''keyId'') material
        # artifacts_from D (n + 1) keys"
      by (auto simp: Let_def nonempty_text_def split: if_splits option.splits)
    show ?thesis
    proof (cases i)
      case 0
      with key arts show ?thesis by auto
    next
      case (Suc j)
      with arts Cons.prems have "j < length (artifacts_from D (n + 1) keys)" by simp
      from Cons.IH [OF this] show ?thesis by (simp add: Suc arts add.assoc del: artifacts_from.simps)
    qed
  qed
qed

text \<open>
  C38. The encryption key selected from a discovery document is a published one: the selected
  artifact is the one built from one of the document's encryption keys, with that key's family
  (\<open>openpgp\<close> read as \<open>pgp\<close>), its first algorithm, its non-empty public key and its key id, and
  the client advertises that family and algorithm; its \<open>key_id\<close> is its position.
\<close>

theorem selected_key_published:
  assumes "select_best_encryption_key D doc capabilities preferences = Some a"
  shows "\<exists>key \<in> set (encryption_keys doc). \<exists>algorithm material i.
      a = obj_of ([(''family'', JStr (key_family D key)), (''algorithm'', JStr algorithm),
            (''purpose'', JStr ''encryption''), (''status'', JStr ''active''), (''key_id'', JInt (int i))]
          @ (case obj_get key ''keyId'' of Some k \<Rightarrow> [(''published_key_id'', k)] | None \<Rightarrow> [])
          @ [(''public_material'', JStr material)])
      \<and> first_algorithm D key = Some algorithm \<and> algorithm \<noteq> []
      \<and> map_option (value_to_string D) (obj_get key ''publicKey'') = Some material \<and> material \<noteq> []
      \<and> advertised (Some capabilities) (key_family D key) algorithm
      \<and> i < length (encryption_keys doc) \<and> encryption_artifacts_for_selection D doc ! i = JObj a"
proof -
  let ?arts = "encryption_artifacts_for_selection D doc"
  have "select_best_artifact D ?arts (Some capabilities) preferences (Some ENCRYPTION) = Some a"
    using assms by (simp add: select_best_encryption_key_def)
  then have "a \<in> set (eligible_artifacts (Some capabilities) (Some ENCRYPTION) ?arts)"
    by (rule selected_eligible)
  then have el: "eligible (Some capabilities) (Some ENCRYPTION) a" and mem: "JObj a \<in> set ?arts"
    by (auto simp: eligible_artifacts_def List.map_filter_def)
  then obtain i where i: "i < length ?arts" "?arts ! i = JObj a"
    by (auto simp: in_set_conv_nth)
  from artifacts_from_nth [OF i(1) [unfolded encryption_artifacts_for_selection_def]]
  obtain key algorithm material
    where key: "key \<in> set (encryption_keys doc)" "i < length (encryption_keys doc)"
      "JObj a = artifact_of_key (key_family D key) algorithm (int i) (obj_get key ''keyId'') material"
      "first_algorithm D key = Some algorithm" "algorithm \<noteq> []"
      "map_option (value_to_string D) (obj_get key ''publicKey'') = Some material" "material \<noteq> []"
    unfolding encryption_artifacts_for_selection_def [symmetric] i(2) add_0 by blast
  have a: "a = obj_of ([(''family'', JStr (key_family D key)), (''algorithm'', JStr algorithm),
            (''purpose'', JStr ''encryption''), (''status'', JStr ''active''), (''key_id'', JInt (int i))]
          @ (case obj_get key ''keyId'' of Some k \<Rightarrow> [(''published_key_id'', k)] | None \<Rightarrow> [])
          @ [(''public_material'', JStr material)])"
    using key(3) by (simp add: artifact_of_key_def jobj_def ENCRYPTION_def)
  have "get_str a ''family'' = Some (key_family D key)" "get_str a ''algorithm'' = Some algorithm"
    unfolding a by (simp_all add: obj_get_obj_of split: option.split)
  with el have "advertised (Some capabilities) (key_family D key) algorithm"
    unfolding eligible_def by auto
  with a key i(2) show ?thesis by blast
qed

section \<open>Concrete selections\<close>

definition sample_capabilities :: json where
  "sample_capabilities =
     JObj [(''families'', JObj [(''pgp'', JArr [JStr ''rsa'', JStr ''mlkem''])])]"

definition sample_artifact :: "string \<Rightarrow> int \<Rightarrow> jmap" where
  "sample_artifact algorithm index =
     [(''algorithm'', JStr algorithm), (''family'', JStr ''pgp''), (''key_id'', JInt index)]"

lemma sample_artifact_get:
  "obj_get (sample_artifact algorithm index) ''algorithm'' = Some (JStr algorithm)"
  "obj_get (sample_artifact algorithm index) ''family'' = Some (JStr PGP)"
  "obj_get (sample_artifact algorithm index) ''key_id'' = Some (JInt index)"
  "obj_get (sample_artifact algorithm index) ''status'' = None"
  "obj_get (sample_artifact algorithm index) ''purpose'' = None"
  "obj_get (sample_artifact algorithm index) ''public_material'' = None"
  by (simp_all add: sample_artifact_def obj_get_def PGP_def)

lemma sample_advertised:
  "advertised (Some sample_capabilities) PGP algorithm \<longleftrightarrow> algorithm \<in> {''rsa'', ''mlkem''}"
  by (auto simp: advertised_def sample_capabilities_def obj_get_def PGP_def)

theorem best_artifact_selected_witness:
  "select_best_artifact sample_deps
       [JObj (sample_artifact ''rsa'' 0), JObj (sample_artifact ''mlkem'' 1)]
       (Some sample_capabilities) None (Some ''encryption'') = Some (sample_artifact ''mlkem'' 1)"
proof -
  let ?arts = "[JObj (sample_artifact ''rsa'' 0), JObj (sample_artifact ''mlkem'' 1)]"
  have el: "eligible (Some sample_capabilities) (Some ''encryption'') (sample_artifact algorithm i)"
    if "algorithm \<in> {''rsa'', ''mlkem''}" for algorithm i
    using that by (auto simp: eligible_def get_str_def sample_artifact_get sample_advertised)
  have "\<not> preferred None c" for c by (simp add: preferred_def)
  moreover have "eligible_artifacts (Some sample_capabilities) (Some ''encryption'') ?arts
      = [sample_artifact ''rsa'' 0, sample_artifact ''mlkem'' 1]"
    by (simp add: eligible_artifacts_def List.map_filter_simps el)
  moreover have "sample_artifact ''rsa'' 0 \<noteq> sample_artifact ''mlkem'' 1"
    by (simp add: sample_artifact_def)
  moreover have "outranks sample_deps (sample_artifact ''mlkem'' 1) (sample_artifact ''rsa'' 0)"
    by (simp add: outranks_def get_str_def sample_artifact_get is_pq_algorithm_def sample_deps_def
        starts_with_def)
  ultimately show ?thesis
    using best_artifact_selected [where D = sample_deps and artifacts = ?arts and preferences = None
        and capabilities = "Some sample_capabilities" and purpose = "Some ''encryption''"]
      el [of "''rsa''" 0]
    by (auto split: option.splits simp: Cons_eq_append_conv)
qed

definition sample_document :: discovery_document where
  "sample_document = \<lparr>dd_schema_version = ''1.0'', dd_mailbox_sha256 = ''h'', dd_schema = None,
     dd_capabilities = [(''crypto'', JObj [(''encryption'', JObj [(''keys'', JArr [JObj
       [(''algorithms'', JArr [JStr ''rsa'']), (''family'', JStr ''openpgp''),
        (''publicKey'', JStr ''PK'')]])])])],
     dd_extensions = [], dd_raw = []\<rparr>"

lemma sample_selects:
  "\<exists>a. select_best_encryption_key sample_deps sample_document sample_capabilities None = Some a"
proof -
  have "\<exists>a. encryption_artifacts_for_selection sample_deps sample_document = [JObj a]
      \<and> eligible (Some sample_capabilities) (Some ENCRYPTION) a"
    by (auto simp: encryption_artifacts_for_selection_def encryption_keys_def document_crypto_def
        sample_document_def obj_get_def List.map_filter_simps key_family_def text_or_empty_def
        value_to_string_def first_algorithm_def nonempty_text_def artifact_of_key_def jobj_def
        Let_def eligible_def get_str_def sample_advertised ENCRYPTION_def
        obj_get_obj_of [unfolded obj_get_def])
  then show ?thesis
    by (auto simp: select_best_encryption_key_def select_best_artifact_def candidates_eligible
        eligible_artifacts_def List.map_filter_simps)
qed

theorem selected_key_published_witness:
  "\<exists>a. select_best_encryption_key sample_deps sample_document sample_capabilities None = Some a
     \<and> (\<exists>key \<in> set (encryption_keys sample_document). \<exists>m.
          map_option (value_to_string sample_deps) (obj_get key ''publicKey'') = Some m \<and> m \<noteq> [])"
proof -
  obtain a where "select_best_encryption_key sample_deps sample_document sample_capabilities None = Some a"
    using sample_selects by blast
  with selected_key_published [OF this] show ?thesis by blast
qed

end
