(* ===== verification/Pubkey_Client.thy ===== *)
theory Pubkey_Client
  imports Device Selection
begin

text \<open>
  The directory clients of \<open>pubkey_client.rs\<close>. An operation is an \<open>act\<close> over the environment of
  \<open>net\<close>: every clock read, random draw and HTTP request of the code is one step of it, in the
  order of the code. The HTTP client of the structs is the \<open>net\<close> argument; \<open>http_new\<close> is the
  outcome of building one with \<open>reqwest\<close>.
\<close>

section \<open>Clients and their construction\<close>

record discovery_client =
  dcl_read_base_url :: string

record pubkey_client =
  pc_read_base_url :: string
  pc_write_base_url :: string
  pc_sdk_name :: string
  pc_sdk_version :: string
  pc_default_capabilities :: json

text \<open>\<open>pb_http\<close> tells whether an HTTP client was given; the clients here share the one of the environment.\<close>

record pubkey_client_builder =
  pb_read_base_url :: "string option"
  pb_write_base_url :: "string option"
  pb_http :: "unit option"
  pb_sdk_name :: string
  pb_sdk_version :: string
  pb_default_capabilities :: json

definition http_client_new :: "string + unit \<Rightarrow> perr + unit" where
  "http_client_new http_new = map_err (perr_new ''provider_unavailable'') http_new"

definition discovery_client_new :: "string + unit \<Rightarrow> string \<Rightarrow> perr + discovery_client" where
  "discovery_client_new http_new read_base_url =
     and_then (map_err (perr_new ''invalid_request'')
       (require_url ''PUBKEY_READ_BASE_URL'' (Some read_base_url))) (\<lambda>base.
     and_then (http_client_new http_new) (\<lambda>_.
     Inr \<lparr>dcl_read_base_url = trim_end_char (CHR ''/'') base\<rparr>))"

definition discovery_client_with_http :: "string \<Rightarrow> perr + discovery_client" where
  "discovery_client_with_http read_base_url =
     and_then (map_err (perr_new ''invalid_request'')
       (require_url ''PUBKEY_READ_BASE_URL'' (Some read_base_url))) (\<lambda>base.
     Inr \<lparr>dcl_read_base_url = trim_end_char (CHR ''/'') base\<rparr>)"

definition builder_new :: pubkey_client_builder where
  "builder_new = \<lparr>pb_read_base_url = None, pb_write_base_url = None, pb_http = None,
     pb_sdk_name = ''scomm-pubkey-rust'', pb_sdk_version = ''0.1.0'',
     pb_default_capabilities = jobj [(''families'', JObj [])]\<rparr>"

definition builder_read_base_url :: "string \<Rightarrow> pubkey_client_builder \<Rightarrow> pubkey_client_builder" where
  "builder_read_base_url url b = b\<lparr>pb_read_base_url := Some url\<rparr>"

definition builder_write_base_url :: "string \<Rightarrow> pubkey_client_builder \<Rightarrow> pubkey_client_builder" where
  "builder_write_base_url url b = b\<lparr>pb_write_base_url := Some url\<rparr>"

definition builder_http :: "pubkey_client_builder \<Rightarrow> pubkey_client_builder" where
  "builder_http b = b\<lparr>pb_http := Some ()\<rparr>"

definition builder_default_capabilities :: "json \<Rightarrow> pubkey_client_builder \<Rightarrow> pubkey_client_builder" where
  "builder_default_capabilities caps b = b\<lparr>pb_default_capabilities := caps\<rparr>"

text \<open>\<open>HttpClient::new()?\<close> is evaluated even when a client was given.\<close>

definition builder_build :: "string + unit \<Rightarrow> pubkey_client_builder \<Rightarrow> perr + pubkey_client" where
  "builder_build http_new b =
     and_then (map_err (perr_new ''invalid_request'')
       (require_url ''PUBKEY_READ_BASE_URL'' (pb_read_base_url b))) (\<lambda>rd.
     and_then (map_err (perr_new ''invalid_request'')
       (require_url ''PUBKEY_WRITE_BASE_URL'' (pb_write_base_url b))) (\<lambda>wr.
     and_then (http_client_new http_new) (\<lambda>_.
     Inr \<lparr>pc_read_base_url = rd, pc_write_base_url = wr, pc_sdk_name = pb_sdk_name b,
         pc_sdk_version = pb_sdk_version b,
         pc_default_capabilities = pb_default_capabilities b\<rparr>)))"

section \<open>Helpers\<close>

definition unix_ms_now :: "'h net \<Rightarrow> ('h, perr, int) act" where
  "unix_ms_now N = (\<lambda>h. case nt_now_ms N h of (t, h) \<Rightarrow> (Inr t, h))"

definition random_nonce :: "deps \<Rightarrow> 'h net \<Rightarrow> ('h, perr, string) act" where
  "random_nonce D N = (\<lambda>h. case nt_random N 16 h of
      (Inl e, h) \<Rightarrow> (Inl (perr_new ''provider_unavailable'' e), h)
    | (Inr bs, h) \<Rightarrow> (Inr (encode_base64url D bs), h))"

definition arm_proof_payload :: "deps \<Rightarrow> string \<Rightarrow> bytes \<Rightarrow> json" where
  "arm_proof_payload D algorithm public_key =
     (if algorithm = MSK_HYBRID
      then jobj [(''algorithm'', JStr algorithm), (''public_key'', JStr (encode_base64url D public_key))]
      else JObj [])"

definition discovery_locator :: "deps \<Rightarrow> string \<Rightarrow> perr + string" where
  "discovery_locator D mailbox_or_sha256 =
     (if hex64 mailbox_or_sha256 then Inr mailbox_or_sha256 else email_sha256_hex D mailbox_or_sha256)"

definition encode_mailbox_sha256_path :: "deps \<Rightarrow> string \<Rightarrow> perr + string" where
  "encode_mailbox_sha256_path D mailbox_or_sha256 =
     and_then (discovery_locator D mailbox_or_sha256) (\<lambda>sha.
     and_then (require_mailbox_sha256 sha) (\<lambda>_. Inr sha))"

definition encode_identity_path :: "deps \<Rightarrow> string \<Rightarrow> perr + string" where
  "encode_identity_path D identity_id = encode_mailbox_sha256_path D identity_id"

definition require_object :: "string \<Rightarrow> json \<Rightarrow> perr + unit" where
  "require_object message data =
     (if is_object data then Inr () else Inl (perr_new ''provider_unavailable'' message))"

section \<open>Reading the directory\<close>

definition fetch_document :: "deps \<Rightarrow> 'h net \<Rightarrow> string \<Rightarrow> string \<Rightarrow> ('h, perr, discovery_document) act" where
  "fetch_document D N base sha =
     abind (pubkey_request D N (join_url base (''/v1/mailboxes/'' @ sha)) ''GET'' None False) (\<lambda>data.
     abind (alift (require_object ''Discovery document response was not a JSON object'' data)) (\<lambda>_.
     aret (document_from_json D data)))"

definition discovery_client_discover_mailbox ::
  "deps \<Rightarrow> 'h net \<Rightarrow> discovery_client \<Rightarrow> string \<Rightarrow> ('h, perr, discovery_document) act"
where
  "discovery_client_discover_mailbox D N C mailbox =
     abind (alift (discovery_locator D mailbox)) (\<lambda>sha.
     abind (alift (require_mailbox_sha256 sha)) (\<lambda>_.
     fetch_document D N (dcl_read_base_url C) sha))"

definition discover_mailbox ::
  "deps \<Rightarrow> 'h net \<Rightarrow> pubkey_client \<Rightarrow> string \<Rightarrow> ('h, perr, discovery_document) act"
where
  "discover_mailbox D N C mailbox =
     abind (alift (encode_mailbox_sha256_path D mailbox)) (\<lambda>sha.
     fetch_document D N (pc_read_base_url C) sha)"

definition mailbox_url :: "string \<Rightarrow> string \<Rightarrow> string \<Rightarrow> string" where
  "mailbox_url base sha rest = join_url base (''/v1/mailboxes/'' @ sha @ rest)"

definition list_resources ::
  "deps \<Rightarrow> 'h net \<Rightarrow> pubkey_client \<Rightarrow> string \<Rightarrow> ('h, perr, discovery_resource list) act"
where
  "list_resources D N C identity_id =
     abind (alift (encode_mailbox_sha256_path D identity_id)) (\<lambda>sha.
     abind (pubkey_request D N (mailbox_url (pc_read_base_url C) sha ''/resources'') ''GET'' None False)
       (\<lambda>data.
     aret (case Option.bind (jget data ''resources'') as_array of
         None \<Rightarrow> []
       | Some items \<Rightarrow> map (resource_from_json D) (filter is_object items))))"

definition create_resource ::
  "deps \<Rightarrow> 'h net \<Rightarrow> pubkey_client \<Rightarrow> string \<Rightarrow> json \<Rightarrow> ('h, perr, json) act"
where
  "create_resource D N C mailbox env =
     abind (alift (encode_mailbox_sha256_path D mailbox)) (\<lambda>sha.
     pubkey_request D N (mailbox_url (pc_write_base_url C) sha ''/resources'') ''POST'' (Some env) True)"

definition execute_operation ::
  "deps \<Rightarrow> 'h net \<Rightarrow> pubkey_client \<Rightarrow> string \<Rightarrow> json \<Rightarrow> ('h, perr, json) act"
where
  "execute_operation D N C mailbox env =
     abind (alift (encode_mailbox_sha256_path D mailbox)) (\<lambda>sha.
     pubkey_request D N (mailbox_url (pc_write_base_url C) sha ''/operations'') ''POST'' (Some env) True)"

section \<open>Challenges\<close>

definition DISCOVERY_SCHEMA_VERSION :: string where
  "DISCOVERY_SCHEMA_VERSION = ''1.0''"

definition create_challenge ::
  "deps \<Rightarrow> 'h net \<Rightarrow> pubkey_client \<Rightarrow> string \<Rightarrow> string \<Rightarrow> string \<Rightarrow> json option
     \<Rightarrow> ('h, perr, discovery_challenge) act"
where
  "create_challenge D N C mailbox kind purpose input =
     abind (alift (encode_mailbox_sha256_path D mailbox)) (\<lambda>sha.
     let body = jobj ([(''type'', JStr kind), (''purpose'', JStr purpose),
           (''schemaVersion'', JStr DISCOVERY_SCHEMA_VERSION)]
           @ (case input of Some i \<Rightarrow> [(''input'', i)] | None \<Rightarrow> []))
     in abind (pubkey_request D N (mailbox_url (pc_write_base_url C) sha ''/challenges'') ''POST''
            (Some body) False) (\<lambda>data.
        abind (alift (require_object ''Challenge create response was not a JSON object'' data)) (\<lambda>_.
        aret (challenge_from_json D data))))"

definition respond_to_challenge ::
  "deps \<Rightarrow> 'h net \<Rightarrow> pubkey_client \<Rightarrow> string \<Rightarrow> string \<Rightarrow> json \<Rightarrow> ('h, perr, discovery_challenge) act"
where
  "respond_to_challenge D N C mailbox challenge_id response =
     abind (alift (encode_mailbox_sha256_path D mailbox)) (\<lambda>sha.
     abind (pubkey_request D N (mailbox_url (pc_write_base_url C) sha
         (''/challenges/'' @ url_encode D challenge_id @ ''/responses'')) ''POST''
         (Some (jobj [(''response'', response)])) False) (\<lambda>data.
     abind (alift (require_object ''Challenge response was not a JSON object'' data)) (\<lambda>_.
     aret (challenge_from_json D data))))"

definition get_challenge ::
  "deps \<Rightarrow> 'h net \<Rightarrow> pubkey_client \<Rightarrow> string \<Rightarrow> string \<Rightarrow> ('h, perr, discovery_challenge) act"
where
  "get_challenge D N C mailbox challenge_id =
     abind (alift (encode_mailbox_sha256_path D mailbox)) (\<lambda>sha.
     abind (pubkey_request D N (mailbox_url (pc_write_base_url C) sha
         (''/challenges/'' @ url_encode D challenge_id)) ''GET'' None False) (\<lambda>data.
     abind (alift (require_object ''Challenge status response was not a JSON object'' data)) (\<lambda>_.
     aret (challenge_from_json D data))))"

definition client_verify_otp ::
  "deps \<Rightarrow> 'h net \<Rightarrow> pubkey_client \<Rightarrow> string \<Rightarrow> string \<Rightarrow> string \<Rightarrow> ('h, perr, discovery_challenge) act"
where
  "client_verify_otp D N C email challenge_id otp =
     respond_to_challenge D N C email challenge_id (jobj [(''code'', JStr otp)])"

definition client_send_otp :: "string \<Rightarrow> bytes \<Rightarrow> ('h, perr, json) act" where
  "client_send_otp email msk_public_key =
     afail (perr_new ''invalid_request'' ''Mailbox OTP is requested from the mailer, not the pubkey host'')"

definition request_vault_recover :: "string \<Rightarrow> ('h, perr, json) act" where
  "request_vault_recover email =
     afail (perr_new ''otp_not_device_enrollment'' ''OTP cannot recover a vault or enroll a device'')"

definition assert_no_silent_msk :: "bool \<Rightarrow> bool \<Rightarrow> bool \<Rightarrow> perr + unit" where
  "assert_no_silent_msk principal_exists local_msk explicit_recovery =
     (if must_not_generate_msk principal_exists local_msk explicit_recovery
      then Inl (perr_new ''master_key_replacement_requires_otp''
        ''Existing identity requires device transfer or explicit recovery'')
      else Inr ())"

definition identity_state ::
  "bool \<Rightarrow> bool \<Rightarrow> bool option \<Rightarrow> string option \<Rightarrow> string option \<Rightarrow> bool \<Rightarrow> bool option \<Rightarrow> string"
where
  "identity_state principal_exists local_msk device_authorized enrollment_state recovery_state
      vault_syncing historical_keys_available =
     resolve_identity_ux_state principal_exists local_msk device_authorized enrollment_state
       recovery_state vault_syncing historical_keys_available"

definition get_signing_key :: "('h, perr, json) act" where
  "get_signing_key = afail (perr_new ''invalid_request'' ''Signing keys are not served by Discovery'')"

section \<open>Key lookup\<close>

definition VERIFY :: string where
  "VERIFY = ''verify''"

text \<open>\<open>key_id.map(str::trim).filter(|k| !k.is_empty())\<close>.\<close>

definition trimmed_key_id :: "string option \<Rightarrow> string option" where
  "trimmed_key_id key_id = nonempty_text (map_option trim key_id)"

definition key_params ::
  "deps \<Rightarrow> pubkey_client \<Rightarrow> string \<Rightarrow> string option \<Rightarrow> string option \<Rightarrow> json option \<Rightarrow> (string \<times> string) list"
where
  "key_params D C identity_id purpose key_id capabilities =
     (let exact = (trimmed_key_id key_id \<noteq> None \<and> purpose = Some VERIFY);
          resolved = unwrap_or (if exact then jobj [(''families'', JObj [])]
            else pc_default_capabilities C) capabilities;
          empty_caps = (case as_object resolved of Some m \<Rightarrow> m = [] | None \<Rightarrow> True)
      in [(''sha256'', identity_id)]
         @ (if \<not> exact \<or> \<not> empty_caps then [(''capabilities'', json_print D resolved)] else [])
         @ (case nonempty_text purpose of Some p \<Rightarrow> [(''purpose'', p)] | None \<Rightarrow> [])
         @ (case trimmed_key_id key_id of Some k \<Rightarrow> [(''key_id'', k)] | None \<Rightarrow> []))"

definition key_query :: "deps \<Rightarrow> (string \<times> string) list \<Rightarrow> string" where
  "key_query D params = join_with ''&'' (map (\<lambda>(k, v). url_encode D k @ ''='' @ url_encode D v) params)"

definition get_best_key_for_identity ::
  "deps \<Rightarrow> 'h net \<Rightarrow> pubkey_client \<Rightarrow> string \<Rightarrow> string option \<Rightarrow> string option \<Rightarrow> json option
     \<Rightarrow> ('h, perr, json) act"
where
  "get_best_key_for_identity D N C identity_id purpose key_id capabilities =
     abind (alift (require_mailbox_sha256 identity_id)) (\<lambda>_.
     if purpose = Some ''signing'' \<or> purpose = Some ''verification''
     then afail (perr_new ''invalid_request'' ''purpose must be verify'')
     else if purpose = Some VERIFY \<and> trimmed_key_id key_id = None
     then afail (perr_new ''invalid_request'' ''key_id is required to fetch a verify key'')
     else
       (let url = join_url (pc_read_base_url C)
            (''/v1/keys?'' @ key_query D (key_params D C identity_id purpose key_id capabilities))
        in abind (alift (assert_pubkey_wire_has_no_mailbox url None)) (\<lambda>_.
           pubkey_request D N url ''GET'' None False)))"

definition get_verification_key ::
  "deps \<Rightarrow> 'h net \<Rightarrow> pubkey_client \<Rightarrow> string option \<Rightarrow> string option \<Rightarrow> string \<Rightarrow> ('h, perr, json) act"
where
  "get_verification_key D N C email identity_id key_id =
     abind (alift (case email of
         Some e \<Rightarrow> if trim e \<noteq> [] then email_sha256_hex D e else Inr (unwrap_or [] identity_id)
       | None \<Rightarrow> Inr (unwrap_or [] identity_id))) (\<lambda>unsalted.
     get_best_key_for_identity D N C unsalted (Some VERIFY) (Some key_id)
       (Some (jobj [(''families'', JObj [])])))"

definition select_directory_key ::
  "deps \<Rightarrow> 'h net \<Rightarrow> pubkey_client \<Rightarrow> string \<Rightarrow> string option \<Rightarrow> string option \<Rightarrow> json option
     \<Rightarrow> ('h, perr, json) act"
where
  "select_directory_key D N C email purpose key_id capabilities =
     abind (alift (email_sha256_hex D email)) (\<lambda>sha.
     get_best_key_for_identity D N C sha purpose key_id capabilities)"

definition get_best_key ::
  "deps \<Rightarrow> 'h net \<Rightarrow> pubkey_client \<Rightarrow> string option \<Rightarrow> string option \<Rightarrow> string option \<Rightarrow> string option
     \<Rightarrow> json option \<Rightarrow> ('h, perr, json) act"
where
  "get_best_key D N C email identity_id purpose key_id capabilities =
     abind (alift (case nonempty_text identity_id of
         Some i \<Rightarrow> Inr i
       | None \<Rightarrow> email_sha256_hex D (unwrap_or [] email))) (\<lambda>sha.
     get_best_key_for_identity D N C sha purpose key_id capabilities)"

section \<open>Signed operations\<close>

definition PROTOCOL_VERSION_I :: int where
  "PROTOCOL_VERSION_I = 1"

definition sign_operation_with ::
  "deps \<Rightarrow> pubkey_client \<Rightarrow> string \<Rightarrow> string \<Rightarrow> json \<Rightarrow> msk_signing \<Rightarrow> int \<Rightarrow> string \<Rightarrow> int \<Rightarrow> perr + json"
where
  "sign_operation_with D C operation prin payload msk timestamp nonce version =
     and_then (map_err (perr_new ''invalid_request'')
       (canonical_signed_bytes D version operation prin timestamp nonce payload)) (\<lambda>bs.
     and_then (sg_sign msk bs) (\<lambda>signature.
     Inr (jobj [(''protocol_version'', JInt version),
       (''sdk'', jobj [(''name'', JStr (pc_sdk_name C)), (''version'', JStr (pc_sdk_version C))]),
       (''principal'', JStr prin), (''operation'', JStr operation), (''timestamp'', JInt timestamp),
       (''nonce'', JStr nonce), (''payload'', payload),
       (''signature'', jobj [(''algorithm'', JStr (sg_algorithm msk)),
          (''value'', JStr (encode_base64url D signature))])])))"

definition sign_operation ::
  "deps \<Rightarrow> 'h net \<Rightarrow> pubkey_client \<Rightarrow> string \<Rightarrow> string \<Rightarrow> json \<Rightarrow> msk_signing \<Rightarrow> int option \<Rightarrow> int option
     \<Rightarrow> ('h, perr, json) act"
where
  "sign_operation D N C operation prin payload msk timestamp version =
     abind (case timestamp of Some t \<Rightarrow> aret t | None \<Rightarrow> unix_ms_now N) (\<lambda>t.
     abind (random_nonce D N) (\<lambda>nonce.
     alift (sign_operation_with D C operation prin payload msk t nonce
       (unwrap_or PROTOCOL_VERSION_I version))))"

definition mutate ::
  "deps \<Rightarrow> 'h net \<Rightarrow> pubkey_client \<Rightarrow> string \<Rightarrow> string \<Rightarrow> json \<Rightarrow> msk_signing \<Rightarrow> ('h, perr, json) act"
where
  "mutate D N C email operation payload msk =
     (if trim email = []
      then afail (perr_new ''invalid_email'' ''A local mailbox label is required'')
      else abind (alift (email_sha256_hex D email)) (\<lambda>prin.
        abind (sign_operation D N C operation prin payload msk None None) (\<lambda>env.
        pubkey_request D N (join_url (pc_write_base_url C) ''/v1/mutate'') ''POST'' (Some env) True)))"

definition set_keys ::
  "deps \<Rightarrow> 'h net \<Rightarrow> pubkey_client \<Rightarrow> string \<Rightarrow> json list \<Rightarrow> msk_signing \<Rightarrow> ('h, perr, json) act"
where
  "set_keys D N C email artifacts msk =
     mutate D N C email ''set_keys'' (jobj [(''artifacts'', JArr artifacts)]) msk"

definition revoke_key ::
  "deps \<Rightarrow> 'h net \<Rightarrow> pubkey_client \<Rightarrow> string \<Rightarrow> int \<Rightarrow> msk_signing \<Rightarrow> string \<Rightarrow> ('h, perr, json) act"
where
  "revoke_key D N C email key_id msk reason =
     mutate D N C email ''revoke_key'' (jobj [(''key_id'', JInt key_id),
       (''revocation_reason'', JStr (if reason = [] then ''UNSPECIFIED'' else reason))]) msk"

definition withdraw_key ::
  "deps \<Rightarrow> 'h net \<Rightarrow> pubkey_client \<Rightarrow> string \<Rightarrow> int \<Rightarrow> msk_signing \<Rightarrow> ('h, perr, json) act"
where
  "withdraw_key D N C email key_id msk =
     mutate D N C email ''withdraw_key'' (jobj [(''key_id'', JInt key_id)]) msk"

definition retire_key ::
  "deps \<Rightarrow> 'h net \<Rightarrow> pubkey_client \<Rightarrow> string \<Rightarrow> int \<Rightarrow> msk_signing \<Rightarrow> ('h, perr, json) act"
where
  "retire_key D N C email key_id msk =
     mutate D N C email ''retire_key'' (jobj [(''key_id'', JInt key_id)]) msk"

definition update_preferences ::
  "deps \<Rightarrow> 'h net \<Rightarrow> pubkey_client \<Rightarrow> string \<Rightarrow> json \<Rightarrow> msk_signing \<Rightarrow> ('h, perr, json) act"
where
  "update_preferences D N C email preferences msk =
     mutate D N C email ''update_preferences'' preferences msk"

section \<open>Arming a master signing key\<close>

definition nonblank :: "string option \<Rightarrow> string option" where
  "nonblank v = (case v of Some e \<Rightarrow> if trim e \<noteq> [] then Some e else None | None \<Rightarrow> None)"

definition enroll_msk_for_identity ::
  "string option \<Rightarrow> string option \<Rightarrow> string option \<Rightarrow> bytes \<Rightarrow> perr + json"
where
  "enroll_msk_for_identity email identity_id vault_id msk_public_key =
     and_then (if nonblank email = None
       then and_then (require_identity_id (unwrap_or [] identity_id)) (\<lambda>_.
         require_identity_id (unwrap_or [] vault_id))
       else Inr ()) (\<lambda>_.
     and_then (require_msk_public_key (Some msk_public_key)) (\<lambda>_.
     Inr (jobj [(''status'', JStr ''deferred'')])))"

definition replace_msk_for_identity :: "string \<Rightarrow> bytes \<Rightarrow> perr + json" where
  "replace_msk_for_identity identity_id msk_public_key =
     and_then (require_identity_id identity_id) (\<lambda>_.
     and_then (require_msk_public_key (Some msk_public_key)) (\<lambda>_.
     Inr (jobj [(''status'', JStr ''deferred'')])))"

text \<open>
  The device key of an authorization: base64url text, or an array of numbers each cut to a
  byte (\<open>n as u8\<close>), or no bytes.
\<close>

definition device_key_of :: "deps \<Rightarrow> json \<Rightarrow> perr + bytes" where
  "device_key_of D device =
     (case jget_str device ''devicePublicKey'' of
        Some s \<Rightarrow> map_err (perr_new ''invalid_request'') (decode_base64url D s)
      | None \<Rightarrow> (case Option.bind (jget device ''publicKey'') as_array of
          Some arr \<Rightarrow> Inr (List.map_filter (\<lambda>v. map_option ucast (as_u64 v)) arr)
        | None \<Rightarrow> Inr []))"

definition sign_device_authorization ::
  "deps \<Rightarrow> 'h net \<Rightarrow> pubkey_client \<Rightarrow> string \<Rightarrow> msk_signing \<Rightarrow> json \<Rightarrow> string option \<Rightarrow> int option
     \<Rightarrow> ('h, perr, json) act"
where
  "sign_device_authorization D N C email_or_principal msk device principal_override version =
     abind (alift (case principal_override of
         Some p \<Rightarrow> Inr p | None \<Rightarrow> email_sha256_hex D email_or_principal)) (\<lambda>prin.
     abind (alift (device_key_of D device)) (\<lambda>device_public_key.
     abind (alift (map_err (perr_new ''invalid_request'')
       (sha256_to_uuid_v8 D (sha256 D device_public_key)))) (\<lambda>device_id.
     abind (unix_ms_now N) (\<lambda>t.
     abind (random_nonce D N) (\<lambda>nonce.
     abind (alift (device_authorization_payload prin device_id (encode_base64url D device_public_key)
       t nonce (jget_str device ''name''))) (\<lambda>payload.
     abind (sign_operation D N C ''authorize_device'' prin payload msk None version) (\<lambda>env.
     aret (case env of JObj m \<Rightarrow> JObj (obj_insert ''payload'' payload m) | v \<Rightarrow> v))))))))"

definition post_arm :: "deps \<Rightarrow> 'h net \<Rightarrow> string \<Rightarrow> json \<Rightarrow> ('h, perr, json) act" where
  "post_arm D N url body =
     abind (alift (assert_pubkey_wire_has_no_mailbox url (Some body))) (\<lambda>_ h.
     case pubkey_request D N url ''POST'' (Some body) True h of
       (Inr v, h) \<Rightarrow> (Inr v, h)
     | (Inl e, h) \<Rightarrow>
         if pe_status e = Some 404 \<and> pe_code e \<noteq> ''unknown_principal''
         then (Inl (perr_with_status ''directory_upgrade_required''
           ''The directory host does not support single-call MSK arming'' 404), h)
         else (Inl e, h))"

definition msk_member :: "deps \<Rightarrow> msk_signing \<Rightarrow> bytes \<Rightarrow> json" where
  "msk_member D msk public_key =
     jobj [(''algorithm'', JStr (sg_algorithm msk)), (''public_key'', JStr (encode_base64url D public_key))]"

definition sign_optional_device ::
  "deps \<Rightarrow> 'h net \<Rightarrow> pubkey_client \<Rightarrow> string \<Rightarrow> msk_signing \<Rightarrow> json option \<Rightarrow> ('h, perr, json option) act"
where
  "sign_optional_device D N C identity_id msk device =
     (case device of
        Some d \<Rightarrow> abind (sign_device_authorization D N C identity_id msk d (Some identity_id)
            (Some PROTOCOL_VERSION_I)) (\<lambda>a. aret (Some a))
      | None \<Rightarrow> aret None)"

text \<open>
  \<open>identity_id.unwrap()\<close> and \<open>vault_id.unwrap()\<close> are \<open>unwrap_or []\<close>: they come after
  \<open>require_identity_id\<close> has refused a missing one (\<open>require_identity_id_Some\<close>).
\<close>

definition verify_enroll_for_identity ::
  "deps \<Rightarrow> 'h net \<Rightarrow> pubkey_client \<Rightarrow> string option \<Rightarrow> string option \<Rightarrow> string option \<Rightarrow> string
     \<Rightarrow> msk_signing \<Rightarrow> json option \<Rightarrow> ('h, perr, json) act"
where
  "verify_enroll_for_identity D N C email identity_id vault_id otp_grant msk device =
     abind (alift (require_msk_public_key (Some (sg_public_key msk)))) (\<lambda>public_key.
     abind (alift (case nonblank email of
         Some e \<Rightarrow> and_then (email_sha256_hex D e) (\<lambda>s. Inr (Some s)) | None \<Rightarrow> Inr None)) (\<lambda>directory_sha.
     abind (alift (if directory_sha = None
       then and_then (require_identity_id (unwrap_or [] identity_id)) (\<lambda>_.
         require_identity_id (unwrap_or [] vault_id))
       else Inr ())) (\<lambda>_.
     if trim otp_grant = [] then afail (perr_new ''otp_grant_invalid'' ''otp_grant is required'')
     else
       (let prin = unwrap_or (unwrap_or [] identity_id) directory_sha
        in abind (sign_operation D N C ''arm_msk'' prin
             (arm_proof_payload D (sg_algorithm msk) public_key) msk None (Some PROTOCOL_VERSION_I)) (\<lambda>pf.
           abind (sign_optional_device D N C (unwrap_or [] identity_id) msk
             (if directory_sha = None then device else None)) (\<lambda>first_device.
           post_arm D N (join_url (pc_write_base_url C) ''/v1/msk/arm'')
             (jobj ([(''identity_id'', JStr prin), (''otp_grant'', JStr otp_grant),
                (''msk'', msk_member D msk public_key), (''msk_proof'', pf)]
              @ (if directory_sha = None then [(''vault_id'', JStr (unwrap_or [] vault_id))] else [])
              @ (case first_device of Some fd \<Rightarrow> [(''first_device'', fd)] | None \<Rightarrow> []))))))))) "

definition verify_replace_for_identity ::
  "deps \<Rightarrow> 'h net \<Rightarrow> pubkey_client \<Rightarrow> string \<Rightarrow> string \<Rightarrow> msk_signing \<Rightarrow> json option \<Rightarrow> ('h, perr, json) act"
where
  "verify_replace_for_identity D N C identity_id otp_grant msk device =
     abind (alift (require_identity_id identity_id)) (\<lambda>_.
     abind (alift (require_msk_public_key (Some (sg_public_key msk)))) (\<lambda>public_key.
     abind (sign_operation D N C ''arm_replacement_msk'' identity_id
       (arm_proof_payload D (sg_algorithm msk) public_key) msk None (Some PROTOCOL_VERSION_I)) (\<lambda>pf.
     abind (sign_optional_device D N C identity_id msk device) (\<lambda>recovery_device.
     post_arm D N (join_url (pc_write_base_url C) ''/v1/msk/replace/arm'')
       (jobj ([(''identity_id'', JStr identity_id), (''otp_grant'', JStr otp_grant),
          (''msk'', msk_member D msk public_key), (''msk_proof'', pf)]
        @ (case recovery_device of Some rd \<Rightarrow> [(''recovery_device'', rd)] | None \<Rightarrow> [])))))))"

section \<open>Uploading keys with a proof\<close>

text \<open>\<open>json!\<close> of an optional member is \<open>null\<close> when it is missing.\<close>

definition json_of_option :: "json option \<Rightarrow> json" where
  "json_of_option v = unwrap_or JNull v"

definition wire_purpose :: "jmap \<Rightarrow> jmap" where
  "wire_purpose artifact =
     (if get_str artifact ''purpose'' \<in> {Some ''signing'', Some ''verification''}
      then obj_insert ''purpose'' (JStr VERIFY) artifact else artifact)"

definition pop_payload :: "deps \<Rightarrow> jmap \<Rightarrow> bytes \<Rightarrow> json" where
  "pop_payload D artifact material =
     jobj [(''algorithm'', json_of_option (obj_get artifact ''algorithm'')),
       (''family'', json_of_option (obj_get artifact ''family'')),
       (''purpose'', json_of_option (obj_get artifact ''purpose'')),
       (''public_material_sha256'', JStr (hex_encode D (sha256 D material)))]"

definition self_signed ::
  "deps \<Rightarrow> jmap \<Rightarrow> string \<Rightarrow> int \<Rightarrow> string \<Rightarrow> msk_signing \<Rightarrow> perr + jmap"
where
  "self_signed D artifact prin timestamp nonce content_signer =
     and_then (map_err (perr_new ''invalid_request'')
       (decode_base64url D (unwrap_or [] (get_str artifact ''public_material'')))) (\<lambda>material.
     and_then (map_err (perr_new ''invalid_request'')
       (canonical_signed_bytes D PROTOCOL_VERSION_I ''artifact_pop'' prin timestamp nonce
         (pop_payload D artifact material))) (\<lambda>pop_bytes.
     and_then (sg_sign content_signer pop_bytes) (\<lambda>sig.
     Inr (obj_insert ''self_signature''
       (jobj [(''algorithm'', json_of_option (obj_get artifact ''algorithm'')),
          (''value'', JStr (encode_base64url D sig))]) artifact))))"

definition set_signing_key_with_proof ::
  "deps \<Rightarrow> 'h net \<Rightarrow> pubkey_client \<Rightarrow> string \<Rightarrow> jmap \<Rightarrow> msk_signing \<Rightarrow> msk_signing option
     \<Rightarrow> ('h, perr, json) act"
where
  "set_signing_key_with_proof D N C email artifact msk content_signer =
     (case content_signer of
        None \<Rightarrow> afail (perr_new ''invalid_request'' ''contentSigningKey or compositePopSigner is required'')
      | Some cs \<Rightarrow>
        abind (alift (email_sha256_hex D email)) (\<lambda>prin.
        abind (unix_ms_now N) (\<lambda>timestamp.
        abind (random_nonce D N) (\<lambda>nonce.
        abind (alift (self_signed D (wire_purpose artifact) prin timestamp nonce cs)) (\<lambda>art.
        abind (alift (sign_operation_with D C ''set_signing_key'' prin
          (jobj [(''artifacts'', JArr [JObj art])]) msk timestamp nonce PROTOCOL_VERSION_I)) (\<lambda>env.
        pubkey_request D N (join_url (pc_write_base_url C) ''/v1/keys/signing'') ''POST''
          (Some env) True))))))"

definition request_encryption_key_challenge ::
  "deps \<Rightarrow> 'h net \<Rightarrow> pubkey_client \<Rightarrow> string \<Rightarrow> string \<Rightarrow> string \<Rightarrow> string \<Rightarrow> msk_signing
     \<Rightarrow> ('h, perr, json) act"
where
  "request_encryption_key_challenge D N C email family algorithm public_material msk =
     abind (alift (email_sha256_hex D email)) (\<lambda>prin.
     abind (sign_operation D N C ''request_key_challenge'' prin
       (jobj [(''family'', JStr family), (''algorithm'', JStr algorithm),
          (''public_material'', JStr public_material)]) msk None None) (\<lambda>env.
     abind (pubkey_request D N (join_url (pc_write_base_url C) ''/v1/keys/encryption/challenge'')
       ''POST'' (Some env) False) (\<lambda>result.
     abind (alift (require_object ''Challenge response was not a JSON object'' result)) (\<lambda>_.
     aret result))))"

definition set_encryption_key_with_proof ::
  "deps \<Rightarrow> 'h net \<Rightarrow> pubkey_client \<Rightarrow> string \<Rightarrow> json \<Rightarrow> json \<Rightarrow> msk_signing \<Rightarrow> ('h, perr, json) act"
where
  "set_encryption_key_with_proof D N C email artifact decrypt_proof msk =
     abind (alift (email_sha256_hex D email)) (\<lambda>prin.
     abind (sign_operation D N C ''set_encryption_key'' prin
       (jobj [(''artifacts'', JArr [JObj (obj_insert ''decrypt_proof'' decrypt_proof
          (object_or_empty (Some artifact)))])]) msk None None) (\<lambda>env.
     pubkey_request D N (join_url (pc_write_base_url C) ''/v1/keys/encryption'') ''POST'' (Some env) True))"

section \<open>What goes over the wire\<close>

text \<open>A network that also records the requests it is given.\<close>

definition with_log :: "('h \<Rightarrow> 'a \<times> 'h) \<Rightarrow> 'h \<times> 'l \<Rightarrow> 'a \<times> 'h \<times> 'l" where
  "with_log f = (\<lambda>(h, l). case f h of (a, h) \<Rightarrow> (a, h, l))"

definition logged :: "'h net \<Rightarrow> ('h \<times> wire_request list) net" where
  "logged N = \<lparr>
     nt_send = (\<lambda>rq (h, log). case nt_send N rq h of (r, h) \<Rightarrow> (r, h, log @ [rq])),
     nt_get_config = (\<lambda>url. with_log (nt_get_config N url)),
     nt_sleep = (\<lambda>(h, log). (nt_sleep N h, log)),
     nt_now_ms = with_log (nt_now_ms N), nt_instant = with_log (nt_instant N),
     nt_random = (\<lambda>n. with_log (nt_random N n)),
     nt_expires_in = (\<lambda>t. with_log (nt_expires_in N t))\<rparr>"

lemma request_attempts_log:
  "request_attempts D (logged N) rq reconcile had prev n (h, log) = (r, h', log') \<Longrightarrow>
     \<exists>k \<le> n. log' = log @ replicate k rq"
proof (induction n arbitrary: had prev h log)
  case 0
  then show ?case by simp
next
  case (Suc n)
  obtain x g where send: "nt_send N rq h = (x, g)" by fastforce
  then have logged_send: "nt_send (logged N) rq (h, log) = (x, g, log @ [rq])"
    by (simp add: logged_def)
  show ?case
  proof (cases "\<exists>e. x = Inl e \<and> connection_lost D e \<and> 0 < n")
    case True
    then obtain e where e: "x = Inl e" "connection_lost D e" "0 < n" by blast
    then have "request_attempts D (logged N) rq reconcile True (Some (connection_error (classify_transport D e)))
        n (nt_sleep N g, log @ [rq]) = (r, h', log')"
      using Suc.prems logged_send by (auto simp: connection_lost_def logged_def)
    from Suc.IH [OF this] obtain k where "k \<le> n" "log' = (log @ [rq]) @ replicate k rq" by blast
    then show ?thesis by (intro exI [of _ "Suc k"]) (simp add: replicate_append_same)
  next
    case False
    then have "log' = log @ [rq]"
      using Suc.prems logged_send
      by (auto simp: connection_lost_def split: sum.splits transport_class.splits if_splits)
    then show ?thesis by (intro exI [of _ "Suc 0"]) simp
  qed
qed

lemma pubkey_request_log:
  assumes "pubkey_request D (logged N) url m body reconcile (h, log) = (r, h', log')"
  shows "\<exists>k \<le> 4. log' = log @ replicate k (build_request D url m body)"
  using request_attempts_log [OF assms [unfolded pubkey_request_def CONNECTION_ATTEMPTS_def]] .

definition log_ok :: "(wire_request \<Rightarrow> bool) \<Rightarrow> 'h \<times> wire_request list \<Rightarrow> bool" where
  "log_ok P w \<longleftrightarrow> list_all P (snd w)"

lemma keeps_request:
  fixes N :: "'h net"
  assumes "P (build_request D url m body)"
  shows "keeps (log_ok P) (pubkey_request D (logged N) url m body reconcile)"
proof (rule keepsI)
  fix w :: "'h \<times> wire_request list"
  assume w: "log_ok P w"
  obtain h log r h' log' where eq: "w = (h, log)"
    "pubkey_request D (logged N) url m body reconcile (h, log) = (r, h', log')"
    by (metis prod.collapse)
  from pubkey_request_log [OF eq(2)] obtain k where "log' = log @ replicate k (build_request D url m body)"
    by blast
  with w assms eq show "log_ok P (snd (pubkey_request D (logged N) url m body reconcile w))"
    by (simp add: log_ok_def list_all_replicate_iff)
qed

lemma keeps_quiet:
  "keeps (log_ok P) (unix_ms_now (logged N))" "keeps (log_ok P) (random_nonce D (logged N))"
  by (auto simp: keeps_def unix_ms_now_def random_nonce_def logged_def with_log_def log_ok_def
      split: prod.splits sum.splits)

lemma keeps_alift_bind: "(\<And>a. r = Inr a \<Longrightarrow> keeps I (k a)) \<Longrightarrow> keeps I (abind (alift r) k)"
  by (cases r) (auto simp: keeps_def abind_apply)

lemma keeps_aret [simp]: "keeps I (aret a)" "keeps I (afail e)"
  by (simp_all add: keeps_def)

text \<open>The contract of \<open>identity_wire.rs\<close> on one request.\<close>

definition wire_ok :: "wire_request \<Rightarrow> bool" where
  "wire_ok rq \<longleftrightarrow> assert_pubkey_wire_has_no_mailbox (wq_url rq) (wq_json rq) = Inr ()"

definition body_ok :: "json option \<Rightarrow> bool" where
  "body_ok body \<longleftrightarrow> (\<forall>m. body = Some (JObj m) \<longrightarrow>
     (\<forall>k \<in> {''email'', ''address'', ''mailbox'', ''rfc5322''}. obj_get m k = None))"

lemma refuse_keys_Inr: "refuse_keys msg m ks = Inr () \<longleftrightarrow> (\<forall>k \<in> set ks. obj_get m k = None)"
  by (induction ks) (auto simp: obj_has_def)

lemma assert_wire_iff:
  "assert_pubkey_wire_has_no_mailbox url body = Inr () \<longleftrightarrow> CHR ''@'' \<notin> set url \<and> body_ok body"
proof (cases "\<exists>m. body = Some (JObj m)")
  case True
  then obtain m where "body = Some (JObj m)" by blast
  then show ?thesis
    by (simp add: assert_pubkey_wire_has_no_mailbox_def assert_no_mailbox_address_def body_ok_def
        refuse_keys_Inr del: refuse_keys.simps)
next
  case False
  then have "as_object a = None" if "body = Some a" for a using that by (cases a) auto
  then have "Option.bind body as_object = None" by (cases body) auto
  with False show ?thesis
    by (simp add: assert_pubkey_wire_has_no_mailbox_def assert_no_mailbox_address_def body_ok_def)
qed

lemma wire_ok_build: "wire_ok (build_request D url m body) \<longleftrightarrow> CHR ''@'' \<notin> set url \<and> body_ok body"
  by (simp add: wire_ok_def assert_wire_iff build_request_def)

lemma body_ok_jobj:
  "body_ok (Some (jobj kvs)) \<longleftrightarrow> {''email'', ''address'', ''mailbox'', ''rfc5322''} \<inter> fst ` set kvs = {}"
proof -
  let ?K = "{''email'', ''address'', ''mailbox'', ''rfc5322''}"
  have "body_ok (Some (jobj kvs)) \<longleftrightarrow> (\<forall>k \<in> ?K. obj_get (obj_of kvs) k = None)"
    by (simp add: body_ok_def jobj_def)
  also have "\<dots> \<longleftrightarrow> (\<forall>k \<in> ?K. k \<notin> fst ` set kvs)"
    by (simp only: obj_get_obj_of map_of_eq_None_iff set_rev)
  finally show ?thesis by (simp only: disjoint_iff Ball_def)
qed

lemma body_ok_None [simp]: "body_ok None"
  by (simp add: body_ok_def)

lemma no_at_join_url:
  assumes "CHR ''@'' \<notin> set base" and "CHR ''@'' \<notin> set path"
  shows "CHR ''@'' \<notin> set (join_url base path)"
proof -
  have "set (trim_end_char c s) \<subseteq> set s" for c s
    by (auto simp: trim_end_char_def dest: set_dropWhileD)
  then show ?thesis using assms by (auto simp: join_url_def)
qed

lemma no_at_hex64: "hex64 s \<Longrightarrow> CHR ''@'' \<notin> set s"
  by (erule hex64_no_char) (simp add: is_lower_hexdigit_def is_digit_def)

text \<open>\<open>urlencoding::encode\<close> leaves the unreserved characters and writes \<open>%\<close> escapes.\<close>

definition url_doc :: "deps \<Rightarrow> bool" where
  "url_doc D \<longleftrightarrow> (\<forall>s. list_all (\<lambda>c. is_alnum c \<or> c \<in> set ''-_.~%'') (url_encode D s))"

lemma no_at_url_encode: "url_doc D \<Longrightarrow> CHR ''@'' \<notin> set (url_encode D s)"
proof
  assume "url_doc D" and "CHR ''@'' \<in> set (url_encode D s)"
  then have "is_alnum (CHR ''@'') \<or> CHR ''@'' \<in> set ''-_.~%''"
    unfolding url_doc_def list_all_iff by blast
  then show False by (simp add: is_alnum_def is_digit_def is_upper_def is_lower_def)
qed

lemma set_join_with: "set (join_with s xs) \<subseteq> set s \<union> \<Union> (set ` set xs)"
  by (induction s xs rule: join_with.induct) auto

lemma no_at_key_query: "url_doc D \<Longrightarrow> CHR ''@'' \<notin> set (key_query D params)"
  using set_join_with [of "''&''" "map (\<lambda>(k, v). url_encode D k @ ''='' @ url_encode D v) params"]
    no_at_url_encode [of D]
  by (auto simp: key_query_def)

text \<open>What the privacy of the wire rests on: documented encodings, base URLs without \<open>@\<close>.\<close>

definition private_setup :: "deps \<Rightarrow> pubkey_client \<Rightarrow> bool" where
  "private_setup D C \<longleftrightarrow> hash_lengths D \<and> hex_doc D \<and> url_doc D
     \<and> CHR ''@'' \<notin> set (pc_read_base_url C) \<and> CHR ''@'' \<notin> set (pc_write_base_url C)"

lemma private_setupD:
  assumes "private_setup D C"
  shows "CHR ''@'' \<notin> set (pc_read_base_url C)" "CHR ''@'' \<notin> set (pc_write_base_url C)"
    "CHR ''@'' \<notin> set (url_encode D s)" "CHR ''@'' \<notin> set (key_query D params)"
  using assms by (auto simp: private_setup_def no_at_url_encode no_at_key_query)

lemma path_hex64: "encode_mailbox_sha256_path D mailbox = Inr sha \<Longrightarrow> hex64 sha"
  by (auto simp: encode_mailbox_sha256_path_def and_then_Inr_iff require_mailbox_sha256_def
      split: if_splits)

text \<open>
  The contract of the HTTP layer towards the clients: a request whose URL and body are
  acceptable keeps the invariant of the transport, whatever its method and retries.
\<close>

locale wire_transport =
  fixes request :: "string \<Rightarrow> string \<Rightarrow> json option \<Rightarrow> bool \<Rightarrow> ('w, perr, json) act"
    and inv :: "'w \<Rightarrow> bool"
    and ok :: "string \<Rightarrow> json option \<Rightarrow> bool"
  assumes request_keeps: "ok url body \<Longrightarrow> keeps inv (request url m body reconcile)"
    and ok_iff: "ok url body \<longleftrightarrow> CHR ''@'' \<notin> set url \<and> body_ok body"
begin

lemma ok_request:
  assumes "CHR ''@'' \<notin> set base" and "CHR ''@'' \<notin> set path" and "body_ok body"
  shows "keeps inv (request (join_url base path) m body reconcile)"
  by (rule request_keeps) (use assms no_at_join_url in \<open>simp add: ok_iff\<close>)

lemma mailbox_request:
  assumes "hex64 sha" and "CHR ''@'' \<notin> set base" and "CHR ''@'' \<notin> set rest" and "body_ok body"
  shows "keeps inv (request (mailbox_url base sha rest) m body reconcile)"
  unfolding mailbox_url_def by (rule ok_request) (use assms no_at_hex64 in auto)

lemma checked_request:
  assumes "assert_pubkey_wire_has_no_mailbox url body = Inr ()"
  shows "keeps inv (request url m body reconcile)"
  by (rule request_keeps) (use assms in \<open>simp add: ok_iff assert_wire_iff\<close>)

lemma mailbox_object:
  assumes "hex64 sha" and "CHR ''@'' \<notin> set base" and "CHR ''@'' \<notin> set rest" and "body_ok body"
  shows "keeps inv (abind (request (mailbox_url base sha rest) m body reconcile) (\<lambda>data.
    abind (alift (require_object message data)) (\<lambda>_. aret (read data))))"
  by (intro keeps_abind mailbox_request assms keeps_basic)

end

interpretation wire: wire_transport "pubkey_request D (logged N)" "log_ok wire_ok"
    "\<lambda>url body. CHR ''@'' \<notin> set url \<and> body_ok body"
  for D N
  by unfold_locales (auto intro: keeps_request simp: wire_ok_build)

lemma signed_body_ok:
  "sign_operation_with D C operation prin payload msk t nonce version = Inr env \<Longrightarrow> body_ok (Some env)"
  by (auto simp: sign_operation_with_def and_then_Inr_iff body_ok_jobj)

lemma sign_operation_keeps:
  "keeps (log_ok wire_ok) (sign_operation D (logged N) C operation prin payload msk timestamp version)"
  unfolding sign_operation_def
  by (intro keeps_abind keeps_quiet) (auto intro: keeps_quiet split: option.split)

lemma sign_operation_body:
  "sign_operation D (logged N) C operation prin payload msk timestamp version w = (Inr env, w')
     \<Longrightarrow> body_ok (Some env)"
  unfolding sign_operation_def by (auto simp: abind_Inr_iff intro: signed_body_ok)

text \<open>The steps that the operations share, in a form that \<open>keeps_abind\<close> can use.\<close>

lemma keeps_bind_when:
  assumes "keeps I m" and "\<And>w a w'. m w = (Inr a, w') \<Longrightarrow> keeps I (k a)"
  shows "keeps I (abind m k)"
proof (rule keepsI)
  fix w
  assume w: "I w"
  obtain r w' where m: "m w = (r, w')" by fastforce
  then have "I w'" using assms(1) w by (auto simp: keeps_def dest: spec [of _ w])
  then show "I (snd (abind m k w))"
    using m assms(2) by (cases r) (auto simp: abind_apply keeps_def)
qed

lemma get_best_keeps:
  assumes "private_setup D C"
  shows "keeps (log_ok wire_ok) (get_best_key_for_identity D (logged N) C i purpose key_id capabilities)"
proof -
  have "CHR ''@'' \<notin> set (''/v1/keys?'' @ key_query D ps)" for ps
    using private_setupD(4) [OF assms, of ps] by simp
  then show ?thesis
    unfolding get_best_key_for_identity_def Let_def
    by (auto intro!: keeps_alift_bind wire.ok_request simp: private_setupD [OF assms] simp del: append.simps)
qed

lemma reads_keep:
  assumes "private_setup D C"
  shows "keeps (log_ok wire_ok) (discover_mailbox D (logged N) C mailbox)"
  "keeps (log_ok wire_ok) (list_resources D (logged N) C mailbox)"
  "keeps (log_ok wire_ok) (get_challenge D (logged N) C mailbox challenge_id)"
  "keeps (log_ok wire_ok) (get_verification_key D (logged N) C email identity_id kid)"
  "keeps (log_ok wire_ok) (select_directory_key D (logged N) C mailbox purpose key_id capabilities)"
  "keeps (log_ok wire_ok) (get_best_key D (logged N) C email identity_id purpose key_id capabilities)"
proof -
  have doc: "keeps (log_ok wire_ok) (fetch_document D (logged N) (pc_read_base_url C) sha)"
    if "hex64 sha" for sha
    using wire.mailbox_object [OF that, of "pc_read_base_url C" "[]" None]
      private_setupD(1) [OF assms]
    by (simp add: fetch_document_def mailbox_url_def)
  show "keeps (log_ok wire_ok) (discover_mailbox D (logged N) C mailbox)"
    unfolding discover_mailbox_def by (intro keeps_alift_bind doc) (rule path_hex64)
  show "keeps (log_ok wire_ok) (list_resources D (logged N) C mailbox)"
    unfolding list_resources_def
    by (auto intro!: keeps_alift_bind keeps_abind wire.mailbox_request dest!: path_hex64 simp: private_setupD [OF assms])
  show "keeps (log_ok wire_ok) (get_challenge D (logged N) C mailbox challenge_id)"
    unfolding get_challenge_def
    by (auto intro!: keeps_alift_bind wire.mailbox_object dest!: path_hex64
        simp: private_setupD [OF assms])
qed (auto intro!: keeps_alift_bind get_best_keeps [OF assms]
    simp: get_verification_key_def select_directory_key_def get_best_key_def)

lemma challenges_keep:
  assumes "private_setup D C"
  shows "keeps (log_ok wire_ok) (create_challenge D (logged N) C mailbox kind purpose input)"
  "keeps (log_ok wire_ok) (respond_to_challenge D (logged N) C mailbox challenge_id response)"
proof -
  show "keeps (log_ok wire_ok) (create_challenge D (logged N) C mailbox kind purpose input)"
    unfolding create_challenge_def Let_def
    by (auto intro!: keeps_alift_bind wire.mailbox_object dest!: path_hex64
        simp: private_setupD [OF assms] body_ok_jobj split: option.split)
  show "keeps (log_ok wire_ok) (respond_to_challenge D (logged N) C mailbox challenge_id response)"
    unfolding respond_to_challenge_def
    by (auto intro!: keeps_alift_bind wire.mailbox_object dest!: path_hex64
        simp: private_setupD [OF assms] body_ok_jobj)
qed

text \<open>
  \<open>create_resource\<close> and \<open>execute_operation\<close> send the envelope that the caller made, as it is: the
  contract holds of their requests just when it holds of that envelope.
\<close>

definition sends_env :: "json \<Rightarrow> wire_request \<Rightarrow> bool" where
  "sends_env env rq \<longleftrightarrow> CHR ''@'' \<notin> set (wq_url rq) \<and> wq_json rq = Some env
     \<and> (wire_ok rq \<longleftrightarrow> body_ok (Some env))"

lemma sends_env_build:
  "CHR ''@'' \<notin> set url \<Longrightarrow> sends_env env (build_request D url m (Some env))"
  by (simp add: sends_env_def wire_ok_build) (simp add: build_request_def)

lemma posts_keep:
  assumes "private_setup D C"
  shows "keeps (log_ok (sends_env env)) (create_resource D (logged N) C mailbox env)"
    and "keeps (log_ok (sends_env env)) (execute_operation D (logged N) C mailbox env)"
proof -
  have "CHR ''@'' \<notin> set (mailbox_url (pc_write_base_url C) sha rest)"
    if "hex64 sha" "CHR ''@'' \<notin> set rest" for sha rest
    unfolding mailbox_url_def
    using that no_at_hex64 private_setupD(2) [OF assms] by (intro no_at_join_url) auto
  then show "keeps (log_ok (sends_env env)) (create_resource D (logged N) C mailbox env)"
    "keeps (log_ok (sends_env env)) (execute_operation D (logged N) C mailbox env)"
    unfolding create_resource_def execute_operation_def
    by (auto intro!: keeps_alift_bind keeps_request sends_env_build dest!: path_hex64)
qed

lemma mutate_keeps:
  assumes "private_setup D C"
  shows "keeps (log_ok wire_ok) (mutate D (logged N) C email operation payload msk)"
  unfolding mutate_def
  by (auto intro!: keeps_alift_bind keeps_bind_when [OF sign_operation_keeps] wire.ok_request
      dest: sign_operation_body simp: private_setupD [OF assms])

lemma post_arm_keeps: "keeps (log_ok wire_ok) (post_arm D (logged N) url body)"
proof -
  have "keeps (log_ok wire_ok) (pubkey_request D (logged N) url ''POST'' (Some body) True)"
    if "assert_pubkey_wire_has_no_mailbox url (Some body) = Inr ()"
    using that by (rule wire.checked_request)
  then show ?thesis
    unfolding post_arm_def
    by (intro keeps_alift_bind) (auto intro!: keepsI dest: keepsD split: prod.splits sum.splits)
qed

lemma device_keeps:
  "keeps (log_ok wire_ok) (sign_optional_device D (logged N) C i msk device)"
  unfolding sign_optional_device_def sign_device_authorization_def
  by (auto intro!: keeps_abind keeps_quiet sign_operation_keeps split: option.split)

lemma arms_keep:
  "keeps (log_ok wire_ok) (verify_enroll_for_identity D (logged N) C email identity_id vault_id grant msk device)"
  "keeps (log_ok wire_ok) (verify_replace_for_identity D (logged N) C i grant msk device)"
  unfolding verify_enroll_for_identity_def verify_replace_for_identity_def Let_def
  by (auto intro!: keeps_abind post_arm_keeps sign_operation_keeps device_keeps)

lemma uploads_keep:
  assumes "private_setup D C"
  shows "keeps (log_ok wire_ok) (set_signing_key_with_proof D (logged N) C email artifact msk content_signer)"
  "keeps (log_ok wire_ok) (request_encryption_key_challenge D (logged N) C email family algorithm material msk)"
  "keeps (log_ok wire_ok) (set_encryption_key_with_proof D (logged N) C email art decrypt_proof msk)"
proof -
  show "keeps (log_ok wire_ok) (set_signing_key_with_proof D (logged N) C email artifact msk content_signer)"
    unfolding set_signing_key_with_proof_def
    by (cases content_signer)
      (auto intro!: keeps_alift_bind keeps_abind keeps_quiet wire.ok_request dest: signed_body_ok simp: private_setupD [OF assms])
qed (auto intro!: keeps_alift_bind keeps_bind_when [OF sign_operation_keeps] wire.ok_request keeps_abind
      dest: sign_operation_body simp: private_setupD [OF assms] request_encryption_key_challenge_def set_encryption_key_with_proof_def)

text \<open>
  C32. No mailbox on the wire of the directory client, with base URLs that have no \<open>@\<close> in them:
  whatever the caller passes and the network answers, on every path including retries and
  errors, the requests of the operations that build their own body have a URL without \<open>@\<close> and
  a body without a top-level \<open>email\<close>, \<open>address\<close>, \<open>mailbox\<close> or \<open>rfc5322\<close> member, although the
  code asserts this contract only for key lookups and arming. Members below the top level are
  not looked at, by the contract or here. \<open>create_resource\<close> and \<open>execute_operation\<close> are
  different: their URL has no \<open>@\<close>, but their body is the envelope of the caller, which the code
  does not check; it keeps the contract just when that envelope does.
\<close>

theorem client_wire_private:
  assumes "private_setup D C"
  shows "keeps (log_ok wire_ok) (discover_mailbox D (logged N) C mailbox)
    \<and> keeps (log_ok wire_ok) (list_resources D (logged N) C mailbox)
    \<and> keeps (log_ok wire_ok) (create_challenge D (logged N) C mailbox kind purpose input)
    \<and> keeps (log_ok wire_ok) (respond_to_challenge D (logged N) C mailbox challenge_id response)
    \<and> keeps (log_ok wire_ok) (get_challenge D (logged N) C mailbox challenge_id)
    \<and> keeps (log_ok wire_ok) (get_verification_key D (logged N) C email identity_id challenge_id)
    \<and> keeps (log_ok wire_ok) (select_directory_key D (logged N) C mailbox email identity_id input)
    \<and> keeps (log_ok wire_ok) (get_best_key D (logged N) C email identity_id vault_id key_id input)
    \<and> keeps (log_ok wire_ok) (mutate D (logged N) C mailbox operation response msk)
    \<and> keeps (log_ok wire_ok) (verify_enroll_for_identity D (logged N) C email identity_id vault_id grant msk input)
    \<and> keeps (log_ok wire_ok) (verify_replace_for_identity D (logged N) C mailbox grant msk input)
    \<and> keeps (log_ok wire_ok) (set_signing_key_with_proof D (logged N) C mailbox artifact msk content_signer)
    \<and> keeps (log_ok wire_ok) (request_encryption_key_challenge D (logged N) C mailbox kind purpose operation msk)
    \<and> keeps (log_ok wire_ok) (set_encryption_key_with_proof D (logged N) C mailbox response proof_of_key msk)
    \<and> keeps (log_ok (sends_env env)) (create_resource D (logged N) C mailbox env)
    \<and> keeps (log_ok (sends_env env)) (execute_operation D (logged N) C mailbox env)"
  by (intro conjI reads_keep challenges_keep posts_keep mutate_keeps arms_keep uploads_keep assms)

definition wire_deps :: deps where
  "wire_deps = sample_deps\<lparr>url_encode := (\<lambda>s. lower_hex (bytes_of s))\<rparr>"

lemma wire_deps_doc: "hash_lengths wire_deps" "hex_doc wire_deps" "b64url_doc wire_deps" "url_doc wire_deps"
proof -
  show "hash_lengths wire_deps" "hex_doc wire_deps" "b64url_doc wire_deps"
    using sample_deps_ok by (simp_all add: wire_deps_def hash_lengths_def hex_doc_def b64url_doc_def)
  have "is_alnum c" if "is_lower_hexdigit c" for c
    using that by (auto simp: is_lower_hexdigit_def is_alnum_def is_lower_def is_digit_def)
  then show "url_doc wire_deps"
    using lower_hex_class by (auto simp: url_doc_def wire_deps_def list_all_iff)
qed

definition sample_client :: pubkey_client where
  "sample_client = \<lparr>pc_read_base_url = ''https://r'', pc_write_base_url = ''https://w'',
     pc_sdk_name = ''s'', pc_sdk_version = ''1'', pc_default_capabilities = JObj []\<rparr>"

definition sample_msk :: msk_signing where
  "sample_msk = \<lparr>sg_algorithm = MSK_ALGORITHM, sg_public_key = replicate 32 5, sg_sign = (\<lambda>m. Inr (fix_len 64 m))\<rparr>"

theorem client_wire_private_witness:
  "keeps (log_ok wire_ok) (mutate wire_deps (logged sample_net) sample_client sample_email ''set_keys'' JNull sample_msk)
     \<and> keeps (log_ok wire_ok) (get_challenge wire_deps (logged sample_net) sample_client sample_email ''a@b'')"
proof -
  have "private_setup wire_deps sample_client"
    by (simp add: private_setup_def wire_deps_doc sample_client_def)
  from client_wire_private [OF this, of sample_net sample_email "''k''" "''p''" None "''a@b''" JNull None
      None None None "''set_keys''" sample_msk "''g''" "[]" None JNull]
  show ?thesis by blast
qed

section \<open>What the signatures cover\<close>

text \<open>
  The check of a server that knows the public key: it rebuilds the canonical text from the
  members of the envelope and verifies the decoded signature value over it.
\<close>

definition envelope_accepted ::
  "deps \<Rightarrow> (bytes \<Rightarrow> bytes \<Rightarrow> bool) \<Rightarrow> json \<Rightarrow> string \<Rightarrow> string \<Rightarrow> int \<Rightarrow> string \<Rightarrow> json \<Rightarrow> bool"
where
  "envelope_accepted D verifies env operation prin t nonce payload \<longleftrightarrow>
     jget env ''protocol_version'' = Some (JInt 1) \<and> jget env ''operation'' = Some (JStr operation)
     \<and> jget env ''principal'' = Some (JStr prin) \<and> jget env ''timestamp'' = Some (JInt t)
     \<and> jget env ''nonce'' = Some (JStr nonce) \<and> jget env ''payload'' = Some payload
     \<and> (\<exists>m sg value sig. canonical_signed_bytes D 1 operation prin t nonce payload = Inr m
         \<and> jget env ''signature'' = Some sg \<and> jget sg ''value'' = Some (JStr value)
         \<and> b64url_decode D value = Inr sig \<and> verifies m sig)"

definition pop_accepted ::
  "deps \<Rightarrow> (bytes \<Rightarrow> bytes \<Rightarrow> bool) \<Rightarrow> jmap \<Rightarrow> string \<Rightarrow> int \<Rightarrow> string \<Rightarrow> bool"
where
  "pop_accepted D verifies art prin t nonce \<longleftrightarrow>
     (\<exists>material m sg value sig.
         decode_base64url D (unwrap_or [] (get_str art ''public_material'')) = Inr material
         \<and> canonical_signed_bytes D 1 ''artifact_pop'' prin t nonce (pop_payload D art material) = Inr m
         \<and> obj_get art ''self_signature'' = Some sg \<and> jget sg ''value'' = Some (JStr value)
         \<and> b64url_decode D value = Inr sig \<and> verifies m sig)"

definition signs_for :: "msk_signing \<Rightarrow> (bytes \<Rightarrow> bytes \<Rightarrow> bool) \<Rightarrow> bool" where
  "signs_for s verifies \<longleftrightarrow> (\<forall>m sig. sg_sign s m = Inr sig \<longrightarrow> verifies m sig)"

lemma signed_envelope_accepted:
  assumes "sign_operation_with D C operation prin payload msk t nonce 1 = Inr env"
    and "b64url_doc D" and "signs_for msk verifies"
  shows "envelope_accepted D verifies env operation prin t nonce payload"
  using assms
  by (auto simp: sign_operation_with_def and_then_Inr_iff envelope_accepted_def signs_for_def
      encode_base64url_def b64url_docD)

lemma self_signed_accepted:
  assumes "self_signed D artifact prin t nonce cs = Inr art"
    and "b64url_doc D" and "signs_for cs verifies"
  shows "pop_accepted D verifies art prin t nonce"
    and "k \<noteq> ''self_signature'' \<Longrightarrow> obj_get art k = obj_get artifact k"
proof -
  from assms(1) obtain material m sig where
    "decode_base64url D (unwrap_or [] (get_str artifact ''public_material'')) = Inr material"
    "canonical_signed_bytes D 1 ''artifact_pop'' prin t nonce (pop_payload D artifact material) = Inr m"
    "sg_sign cs m = Inr sig"
    and art: "art = obj_insert ''self_signature''
       (jobj [(''algorithm'', json_of_option (obj_get artifact ''algorithm'')),
          (''value'', JStr (encode_base64url D sig))]) artifact"
    by (auto simp: self_signed_def and_then_Inr_iff PROTOCOL_VERSION_I_def)
  moreover have "pop_payload D art material = pop_payload D artifact material"
    "get_str art ''public_material'' = get_str artifact ''public_material''"
    by (simp_all add: art pop_payload_def get_str_def)
  ultimately show "pop_accepted D verifies art prin t nonce"
    using assms(2,3)
    by (auto simp: pop_accepted_def signs_for_def encode_base64url_def b64url_docD)
  show "obj_get art k = obj_get artifact k" if "k \<noteq> ''self_signature''"
    using that by (simp add: art)
qed

lemma quiet_now: "unix_ms_now (logged N) (h, log) = (r, w) \<Longrightarrow> \<exists>t g. r = Inr t \<and> w = (g, log)"
  by (auto simp: unix_ms_now_def logged_def with_log_def split: prod.splits)

lemma quiet_nonce: "random_nonce D (logged N) (h, log) = (r, w) \<Longrightarrow> \<exists>g. w = (g, log)"
  by (auto simp: random_nonce_def logged_def with_log_def split: prod.splits sum.splits)

lemma replicate_log: "log = replicate k x \<Longrightarrow> rq \<in> set log \<Longrightarrow> rq = x \<and> log = replicate k rq"
  by auto

text \<open>
  C33. A signing key is uploaded with a bound proof of possession: whenever the upload sends a
  request, its body is an envelope that verifies under the MSK for the hash of the given
  mailbox, and the one artifact inside carries a self signature of the content key over the
  same mailbox hash, time and nonce, the hash of its own public material and the purpose it is
  published under, which is never \<open>signing\<close> or \<open>verification\<close>. Everything sent is one request,
  repeated at most four times.
\<close>

theorem signing_upload_bound:
  assumes "set_signing_key_with_proof D (logged N) C email artifact msk (Some cs) (h, []) = (r, h', log)"
    and "rq \<in> set log" and "b64url_doc D" and "signs_for msk msk_verifies" and "signs_for cs cs_verifies"
  shows "\<exists>prin t nonce art env.
      email_sha256_hex D email = Inr prin \<and> wq_json rq = Some env
      \<and> wq_url rq = join_url (pc_write_base_url C) ''/v1/keys/signing''
      \<and> envelope_accepted D msk_verifies env ''set_signing_key'' prin t nonce
          (jobj [(''artifacts'', JArr [JObj art])])
      \<and> pop_accepted D cs_verifies art prin t nonce
      \<and> get_str art ''purpose'' \<notin> {Some ''signing'', Some ''verification''}
      \<and> obj_get art ''public_material'' = obj_get artifact ''public_material''
      \<and> (\<exists>k \<le> 4. log = replicate k rq)"
proof -
  define run where "run prin t nonce w =
    abind (alift (self_signed D (wire_purpose artifact) prin t nonce cs)) (\<lambda>art.
    abind (alift (sign_operation_with D C ''set_signing_key'' prin
      (jobj [(''artifacts'', JArr [JObj art])]) msk t nonce PROTOCOL_VERSION_I)) (\<lambda>env.
    pubkey_request D (logged N) (join_url (pc_write_base_url C) ''/v1/keys/signing'') ''POST''
      (Some env) True)) w" for prin t nonce w
  have "abind (alift (email_sha256_hex D email)) (\<lambda>prin. abind (unix_ms_now (logged N)) (\<lambda>t.
      abind (random_nonce D (logged N)) (\<lambda>nonce. run prin t nonce))) (h, []) = (r, h', log)"
    using assms(1) by (simp add: set_signing_key_with_proof_def run_def [abs_def])
  then obtain prin t nonce g where prin: "email_sha256_hex D email = Inr prin"
    and run: "run prin t nonce (g, []) = (r, h', log)"
    using assms(2)
    by (cases "email_sha256_hex D email"; cases "unix_ms_now (logged N) (h, [])")
      (auto simp: abind_apply split: prod.splits sum.splits dest!: quiet_now quiet_nonce)
  then obtain art env where art: "self_signed D (wire_purpose artifact) prin t nonce cs = Inr art"
    and env: "sign_operation_with D C ''set_signing_key'' prin
      (jobj [(''artifacts'', JArr [JObj art])]) msk t nonce 1 = Inr env"
    and send: "pubkey_request D (logged N) (join_url (pc_write_base_url C) ''/v1/keys/signing'') ''POST''
      (Some env) True (g, []) = (r, h', log)"
    using assms(2)
    by (auto simp: run_def abind_apply PROTOCOL_VERSION_I_def split: sum.splits)
  from pubkey_request_log [OF send] obtain k where k: "k \<le> 4"
    "log = replicate k (build_request D (join_url (pc_write_base_url C) ''/v1/keys/signing'') ''POST'' (Some env))"
    by auto
  have rq: "wq_url rq = join_url (pc_write_base_url C) ''/v1/keys/signing''" "wq_json rq = Some env"
    and same: "\<exists>k \<le> 4. log = replicate k rq"
    using replicate_log [OF k(2) assms(2)] k(1) by (auto simp: build_request_def)
  have "get_str art ''purpose'' \<notin> {Some ''signing'', Some ''verification''}"
    using self_signed_accepted(2) [OF art assms(3,5), of "''purpose''"]
    by (auto simp: wire_purpose_def VERIFY_def get_str_def split: if_splits)
  moreover have "obj_get art ''public_material'' = obj_get artifact ''public_material''"
    using self_signed_accepted(2) [OF art assms(3,5), of "''public_material''"]
    by (auto simp: wire_purpose_def split: if_splits)
  ultimately show ?thesis
    using prin rq same signed_envelope_accepted [OF env assms(3,4)]
      self_signed_accepted(1) [OF art assms(3,5)] by blast
qed

definition sample_artifact_map :: jmap where
  "sample_artifact_map = [(''algorithm'', JStr ''rsa''), (''public_material'', JStr []),
     (''purpose'', JStr ''signing'')]"

theorem signing_upload_bound_witness:
  "\<exists>r h' log rq. set_signing_key_with_proof sample_deps (logged sample_net) sample_client sample_email
       sample_artifact_map sample_msk (Some sample_msk) ([], []) = (r, h', log) \<and> rq \<in> set log
     \<and> (\<exists>art prin t nonce env. wq_json rq = Some env
          \<and> pop_accepted sample_deps (\<lambda>m sig. sig = fix_len 64 m) art prin t nonce)"
proof -
  let ?run = "set_signing_key_with_proof sample_deps (logged sample_net) sample_client sample_email
       sample_artifact_map sample_msk (Some sample_msk) ([], [])"
  have "\<exists>rq. rq \<in> set (snd (snd ?run))"
  proof -
    obtain prin where prin: "email_sha256_hex sample_deps sample_email = Inr prin"
      by (simp add: email_sha256_hex_def sample_email_canonical require_canonical_email_def)
    have "unhex [] = Inr []" by simp
    then have material: "decode_base64url sample_deps [] = Inr []"
      by (simp add: decode_base64url_def sample_deps_def)
    have canon: "\<exists>m. canonical_signed_bytes sample_deps v oper prin t nonce payload = Inr m" for v oper t nonce payload
      by (simp add: canonical_signed_bytes_def canonical_signed_utf8_def payload_sha256_hex_def sample_deps_def)
    have art: "\<exists>art. self_signed sample_deps (wire_purpose sample_artifact_map) prin t nonce sample_msk = Inr art" for t nonce
    proof -
      have pm: "get_str (wire_purpose sample_artifact_map) ''public_material'' = Some []"
        by (simp add: wire_purpose_def sample_artifact_map_def obj_get_def get_str_def)
      obtain m where "canonical_signed_bytes sample_deps PROTOCOL_VERSION_I ''artifact_pop'' prin t nonce
          (pop_payload sample_deps (wire_purpose sample_artifact_map) []) = Inr m"
        using canon by blast
      then show ?thesis
        by (simp add: self_signed_def pm material sample_msk_def del: get_str_Some_iff)
    qed
    have env: "\<exists>env. sign_operation_with sample_deps sample_client oper prin payload sample_msk t nonce v = Inr env"
      for oper payload t nonce v
      using canon [of v oper t nonce payload] by (auto simp: sign_operation_with_def sample_msk_def)
    have now: "unix_ms_now (logged sample_net) ([], []) = (Inr 0, [], [])"
      by (simp add: unix_ms_now_def logged_def with_log_def sample_net_def)
    obtain nonce where nonce: "random_nonce sample_deps (logged sample_net) ([], []) = (Inr nonce, [], [])"
      by (simp add: random_nonce_def logged_def with_log_def sample_net_def)
    obtain art' env' where "self_signed sample_deps (wire_purpose sample_artifact_map) prin 0 nonce sample_msk = Inr art'"
      "sign_operation_with sample_deps sample_client ''set_signing_key'' prin
        (jobj [(''artifacts'', JArr [JObj art'])]) sample_msk 0 nonce PROTOCOL_VERSION_I = Inr env'"
      using art env by blast
    moreover have "pubkey_request sample_deps (logged sample_net) url m b rec ([], [])
        = (request_answer sample_deps rec False 200 (Some []), [], [build_request sample_deps url m b])"
      for url m b rec
      by (simp add: pubkey_request_def CONNECTION_ATTEMPTS_def numeral_eq_Suc logged_def sample_net_def)
    ultimately show ?thesis
      by (simp add: set_signing_key_with_proof_def abind_apply prin now nonce)
  qed
  then obtain r h' log rq where run: "?run = (r, h', log)" and rq: "rq \<in> set log"
    by (metis prod.collapse)
  have honest: "signs_for sample_msk (\<lambda>m sig. sig = fix_len 64 m)"
    by (simp add: signs_for_def sample_msk_def)
  from signing_upload_bound [OF run rq sample_deps_ok(3) honest honest] run rq show ?thesis
    by (intro exI [of _ r] exI [of _ h'] exI [of _ log] exI [of _ rq]) auto
qed

end
