(* ===== verification/Arming.thy ===== *)
theory Arming
  imports Pubkey_Client
begin

text \<open>
  The arming of a master signing key, end to end: what \<open>verify_enroll_for_identity\<close> and
  \<open>verify_replace_for_identity\<close> of \<open>pubkey_client.rs\<close> put into their one request.
\<close>

section \<open>Steps that send nothing\<close>

definition silent :: "('h \<times> wire_request list, perr, 'a) act \<Rightarrow> bool" where
  "silent m \<longleftrightarrow> (\<forall>l. keeps (\<lambda>w. snd w = l) m)"

lemma silent_basic [intro]:
  "silent (unix_ms_now (logged N))" "silent (random_nonce D (logged N))" "silent (alift r)" "silent (aret a)"
  by (auto simp: silent_def keeps_def unix_ms_now_def random_nonce_def logged_def with_log_def
      split: prod.splits sum.splits)

lemma silent_abind [intro]: "silent m \<Longrightarrow> (\<And>a. silent (k a)) \<Longrightarrow> silent (abind m k)"
  by (simp add: silent_def keeps_abind)

lemma silent_sign_operation [intro]:
  "silent (sign_operation D (logged N) C operation prin payload msk timestamp version)"
  by (cases timestamp) (auto simp: sign_operation_def)

lemma silent_device [intro]: "silent (sign_optional_device D (logged N) C i msk device)"
proof (cases device)
  case None
  then show ?thesis by (simp add: sign_optional_device_def silent_basic)
next
  case (Some d)
  then show ?thesis
    unfolding sign_optional_device_def sign_device_authorization_def
    by (simp, intro silent_abind silent_basic silent_sign_operation)
qed

text \<open>When something was sent, the silent steps before it have succeeded.\<close>

lemma reached:
  assumes "abind m k (h, []) = (r, h', log)" and "log \<noteq> []" and "silent m"
  obtains a g where "m (h, []) = (Inr a, g, [])" "k a (g, []) = (r, h', log)"
proof -
  obtain x g l where m: "m (h, []) = (x, g, l)" by (metis prod.collapse)
  moreover have "l = []"
    using assms(3) m unfolding silent_def keeps_def by (metis snd_conv)
  ultimately show thesis
    using assms(1,2) that by (cases x) (auto simp: abind_apply)
qed

section \<open>The signed parts\<close>

lemma sign_operation_accepted:
  assumes "sign_operation D N C operation prin payload msk None (Some 1) w = (Inr env, w')"
    and "b64url_doc D" and "signs_for msk verifies"
  shows "\<exists>t nonce. envelope_accepted D verifies env operation prin t nonce payload"
  using assms by (auto simp: sign_operation_def abind_Inr_iff dest: signed_envelope_accepted)

lemma envelope_accepted_cong:
  "(\<And>k. jget env' k = jget env k)
     \<Longrightarrow> envelope_accepted D verifies env' operation prin t nonce payload
       = envelope_accepted D verifies env operation prin t nonce payload"
  by (simp add: envelope_accepted_def)

text \<open>
  A device authorization that a server accepts: the signed payload names the principal, the
  device key and the UUID that the hash of the key gives.
\<close>

definition device_accepted ::
  "deps \<Rightarrow> (bytes \<Rightarrow> bytes \<Rightarrow> bool) \<Rightarrow> json \<Rightarrow> string \<Rightarrow> bytes \<Rightarrow> bool"
where
  "device_accepted D verifies env prin key \<longleftrightarrow>
     (\<exists>t nonce device_id created device_nonce name payload.
        sha256_to_uuid_v8 D (sha256 D key) = Inr device_id
        \<and> device_authorization_payload prin device_id (b64url_encode D key) created device_nonce name
            = Inr payload
        \<and> envelope_accepted D verifies env ''authorize_device'' prin t nonce payload)"

lemma device_authorization_accepted:
  assumes "sign_device_authorization D N C i msk device (Some prin) (Some 1) w = (Inr a, w')"
    and "b64url_doc D" and "signs_for msk verifies"
  shows "\<exists>key. device_key_of D device = Inr key \<and> device_accepted D verifies a prin key"
proof -
  from assms(1) obtain key device_id created device_nonce payload env v v' where
    key: "device_key_of D device = Inr key" "sha256_to_uuid_v8 D (sha256 D key) = Inr device_id"
      "device_authorization_payload prin device_id (b64url_encode D key) created device_nonce
         (jget_str device ''name'') = Inr payload"
    and env: "sign_operation D N C ''authorize_device'' prin payload msk None (Some 1) v = (Inr env, v')"
    and a: "a = (case env of JObj m \<Rightarrow> JObj (obj_insert ''payload'' payload m) | v \<Rightarrow> v)"
    by (auto simp: sign_device_authorization_def abind_Inr_iff encode_base64url_def)
  obtain t nonce where acc: "envelope_accepted D verifies env ''authorize_device'' prin t nonce payload"
    using sign_operation_accepted [OF env assms(2,3)] by blast
  then have "jget a k = jget env k" for k
    by (cases env) (auto simp: a envelope_accepted_def jget_def)
  with acc have "envelope_accepted D verifies a ''authorize_device'' prin t nonce payload"
    using envelope_accepted_cong by blast
  with key show ?thesis unfolding device_accepted_def by blast
qed

lemma optional_device_accepted:
  assumes "sign_optional_device D N C prin msk device w = (Inr signed_device, w')"
    and "b64url_doc D" and "signs_for msk verifies"
  shows "(device = None \<longleftrightarrow> signed_device = None)
    \<and> (\<forall>d. device = Some d \<longrightarrow> (\<exists>a key. signed_device = Some a
        \<and> device_key_of D d = Inr key \<and> device_accepted D verifies a prin key))"
  using assms
  by (auto simp: sign_optional_device_def PROTOCOL_VERSION_I_def abind_Inr_iff split: option.splits
      dest!: device_authorization_accepted)

lemma post_arm_log:
  assumes "post_arm D (logged N) url body (h, []) = (r, h', log)" and "rq \<in> set log"
  shows "wq_url rq = url \<and> wq_json rq = Some body \<and> (\<exists>k \<le> 4. log = replicate k rq)"
proof -
  have "\<exists>x. pubkey_request D (logged N) url ''POST'' (Some body) True (h, []) = (x, h', log)"
    using assms
    by (auto simp: post_arm_def abind_apply split: sum.splits prod.splits if_splits)
  then obtain k where k: "k \<le> 4" "log = replicate k (build_request D url ''POST'' (Some body))"
    using pubkey_request_log by fastforce
  show ?thesis using replicate_log [OF k(2) assms(2)] k(1) by (auto simp: build_request_def)
qed

lemma wire_refusal:
  assumes "assert_pubkey_wire_has_no_mailbox url body = Inl e"
  shows "pe_status e = None"
proof -
  have "pe_status e = None" if "refuse_keys f m ks = Inl e" for f m ks
    using that by (induction ks) (auto simp: perr_new_def split: if_splits)
  with assms show ?thesis
    by (auto simp: assert_pubkey_wire_has_no_mailbox_def assert_no_mailbox_address_def perr_new_def
        simp del: refuse_keys.simps split: if_splits option.splits)
qed

lemma post_arm_404:
  assumes "post_arm D N url body w = (Inl e, w')" and "pe_status e = Some 404"
  shows "pe_code e \<in> {''unknown_principal'', ''directory_upgrade_required''}"
  using assms
  by (auto simp: post_arm_def abind_apply perr_with_status_def dest: wire_refusal
      split: sum.splits prod.splits if_splits)

lemma alift_bind: "abind (alift r) k w = (case r of Inl e \<Rightarrow> (Inl e, w) | Inr a \<Rightarrow> k a w)"
  by (cases r) (simp_all add: abind_apply)

section \<open>The enrolment request\<close>


lemma hex64_Nil [simp]: "\<not> hex64 []"
  by (simp add: hex64_def)


text \<open>The body of an arming request: the members every one has, then those of the case.\<close>

definition arm_body :: "deps \<Rightarrow> msk_signing \<Rightarrow> string \<Rightarrow> string \<Rightarrow> json \<Rightarrow> (string \<times> json) list \<Rightarrow> json" where
  "arm_body D msk prin otp_grant pf extra =
     jobj ([(''identity_id'', JStr prin), (''otp_grant'', JStr otp_grant),
        (''msk'', msk_member D msk (sg_public_key msk)), (''msk_proof'', pf)] @ extra)"

definition member :: "string \<Rightarrow> json option \<Rightarrow> (string \<times> json) list" where
  "member k v = (case v of Some x \<Rightarrow> [(k, x)] | None \<Rightarrow> [])"

text \<open>The common tail of both arming operations: proof, device, one request.\<close>

lemma arm_tail:
  assumes run: "abind (sign_operation D (logged N) C operation prin payload msk None (Some 1)) (\<lambda>pf.
      abind (sign_optional_device D (logged N) C i msk device) (\<lambda>fd.
      post_arm D (logged N) url (arm_body D msk prin otp_grant pf (extra fd)))) (h, []) = (r, h', log)"
    and rq: "rq \<in> set log" and doc: "b64url_doc D" and honest: "signs_for msk verifies"
  obtains pf t nonce fd where
    "envelope_accepted D verifies pf operation prin t nonce payload"
    "fd = None \<longleftrightarrow> device = None"
    "\<And>a d. fd = Some a \<Longrightarrow> device = Some d
      \<Longrightarrow> \<exists>key. device_key_of D d = Inr key \<and> device_accepted D verifies a i key"
    "wq_url rq = url" "wq_json rq = Some (arm_body D msk prin otp_grant pf (extra fd))"
    "\<exists>k \<le> 4. log = replicate k rq"
proof -
  have sent: "log \<noteq> []" using rq by auto
  from reached [OF run sent silent_sign_operation] obtain pf g where
    pf: "sign_operation D (logged N) C operation prin payload msk None (Some 1) (h, []) = (Inr pf, g, [])"
    and run': "abind (sign_optional_device D (logged N) C i msk device) (\<lambda>fd.
      post_arm D (logged N) url (arm_body D msk prin otp_grant pf (extra fd))) (g, []) = (r, h', log)" .
  from reached [OF run' sent silent_device] obtain fd g' where
    fd: "sign_optional_device D (logged N) C i msk device (g, []) = (Inr fd, g', [])"
    and post: "post_arm D (logged N) url (arm_body D msk prin otp_grant pf (extra fd)) (g', []) = (r, h', log)" .
  obtain t nonce where env: "envelope_accepted D verifies pf operation prin t nonce payload"
    using sign_operation_accepted [OF pf doc honest] by blast
  show thesis
    using optional_device_accepted [OF fd doc honest] post_arm_log [OF post rq]
    by (intro that [OF env]) auto
qed








text \<open>The replacement of a key: the same tail, for an identity id and with no look at the grant.\<close>

lemma replacement_request_bound:
  assumes "verify_replace_for_identity D (logged N) C identity_id otp_grant msk device (h, []) = (r, h', log)"
    and "rq \<in> set log" and "b64url_doc D" and "signs_for msk verifies"
  shows "\<exists>pf t nonce recovery_device.
      hex64 identity_id \<and> length (sg_public_key msk) \<in> {32, 1984}
      \<and> envelope_accepted D verifies pf ''arm_replacement_msk'' identity_id t nonce
          (arm_proof_payload D (sg_algorithm msk) (sg_public_key msk))
      \<and> (recovery_device = None \<longleftrightarrow> device = None)
      \<and> wq_url rq = join_url (pc_write_base_url C) ''/v1/msk/replace/arm''
      \<and> wq_json rq = Some (arm_body D msk identity_id otp_grant pf
          (member ''recovery_device'' recovery_device))
      \<and> (\<exists>k \<le> 4. log = replicate k rq)"
proof -
  have sent: "log \<noteq> []" using assms(2) by auto
  have ok: "hex64 identity_id" "length (sg_public_key msk) \<in> {32, 1984}"
    and run: "abind (sign_operation D (logged N) C ''arm_replacement_msk'' identity_id
        (arm_proof_payload D (sg_algorithm msk) (sg_public_key msk)) msk None (Some 1)) (\<lambda>pf.
      abind (sign_optional_device D (logged N) C identity_id msk device) (\<lambda>fd.
      post_arm D (logged N) (join_url (pc_write_base_url C) ''/v1/msk/replace/arm'')
        (arm_body D msk identity_id otp_grant pf (member ''recovery_device'' fd)))) (h, []) = (r, h', log)"
    using assms(1) sent
    by (auto simp: verify_replace_for_identity_def alift_bind PROTOCOL_VERSION_I_def require_identity_id_def
        arm_body_def member_def require_msk_public_key_Inr split: if_splits sum.splits)
  show ?thesis
    by (rule arm_tail [OF run assms(2-4)]) (use ok in blast)
qed

end
