(* ===== verification/Mailer.thy ===== *)
theory Mailer
  imports Pubkey_Client
begin

text \<open>
  The OTP and ID-token mailer client of \<open>mailer.rs\<close>. Its \<open>&mut self\<close> methods are steps over
  the pair of the client's state and the environment. A panic is the result \<open>None\<close>.
\<close>

section \<open>Data\<close>

record id_token_challenge =
  ic_challenge_id :: string
  ic_nonce :: string
  ic_expires_in :: int

record id_token_config =
  tc_enabled :: bool
  tc_providers :: "string \<rightharpoonup> string list"
  tc_challenge_ttl_seconds :: int

definition config_supports :: "id_token_config \<Rightarrow> string \<Rightarrow> string \<Rightarrow> bool" where
  "config_supports c provider purpose =
     (if \<not> tc_enabled c then False
      else (case tc_providers c provider of Some ps \<Rightarrow> purpose \<in> set ps | None \<Rightarrow> False))"

definition mailer_msk_jkt :: "deps \<Rightarrow> bytes \<Rightarrow> string" where
  "mailer_msk_jkt D msk_public_key = encode_base64url D (sha256 D msk_public_key)"

record mailer_grant =
  mg_identity_id :: "string option"
  mg_otp_grant :: string
  mg_vault_grant :: "string option"

definition grant_require_identity_id :: "mailer_grant \<Rightarrow> perr + string" where
  "grant_require_identity_id g =
     (case mg_identity_id g of
        Some i \<Rightarrow> if hex64 i then Inr i
          else Inl (perr_new ''otp_grant_invalid'' ''Mailer verify did not return identity_id'')
      | None \<Rightarrow> Inl (perr_new ''otp_grant_invalid'' ''Mailer verify did not return identity_id''))"

definition EMAIL_OTP_TYPE :: string where
  "EMAIL_OTP_TYPE = ''https://discovery.scomm.ai/challenges/email-otp/v1''"

definition OIDC_TYPE :: string where
  "OIDC_TYPE = ''https://discovery.scomm.ai/challenges/oidc-id-token/v1''"

definition purpose_uri :: "string \<Rightarrow> perr + string" where
  "purpose_uri purpose =
     (if purpose = ''enroll'' then Inr ''https://discovery.scomm.ai/operations/msk/enroll/v1''
      else if purpose = ''replace_msk'' then Inr ''https://discovery.scomm.ai/operations/msk/replace/v1''
      else if purpose = ''vault_open'' then Inr ''https://discovery.scomm.ai/operations/vault/open/v1''
      else if purpose = ''vault_backup''
      then Inr ''https://discovery.scomm.ai/operations/vault/backup-fetch/v1''
      else if purpose = ''recovery_envelope''
      then Inr ''https://discovery.scomm.ai/operations/recovery/envelope-fetch/v1''
      else if purpose = ''recovery_generation''
      then Inr ''https://discovery.scomm.ai/operations/recovery/generation/v1''
      else Inl (perr_new ''invalid_request'' (''Unknown mailer purpose '' @ purpose)))"

definition is_vault_purpose :: "string \<Rightarrow> bool" where
  "is_vault_purpose purpose \<longleftrightarrow>
     purpose \<in> {''vault_open'', ''recovery_envelope'', ''recovery_generation'', ''vault_backup''}"

text \<open>The client; an \<open>Instant\<close> is a number of seconds.\<close>

record mailer =
  ml_base_url :: string
  ml_config :: "id_token_config option"
  ml_config_until :: "nat option"
  ml_otp_challenge_ids :: "string \<rightharpoonup> string"
  ml_challenge_mailboxes :: "string \<rightharpoonup> string"

definition mailer_with_http :: "string \<Rightarrow> mailer" where
  "mailer_with_http base_url = \<lparr>ml_base_url = trim base_url, ml_config = None,
     ml_config_until = None, ml_otp_challenge_ids = Map.empty, ml_challenge_mailboxes = Map.empty\<rparr>"

definition mailer_new :: "string + unit \<Rightarrow> string \<Rightarrow> perr + mailer" where
  "mailer_new http_new base_url =
     and_then (http_client_new http_new) (\<lambda>_. Inr (mailer_with_http base_url))"

definition require_base_url :: "mailer \<Rightarrow> perr + unit" where
  "require_base_url s =
     (if ml_base_url s = []
      then Inl (perr_new ''invalid_request'' ''PUBKEY_MAILER_BASE_URL is required and must not be empty'')
      else Inr ())"

definition require_arming_key :: "string \<Rightarrow> bytes option \<Rightarrow> perr + unit" where
  "require_arming_key purpose msk_public_key =
     (if (purpose = ''enroll'' \<or> purpose = ''replace_msk'')
         \<and> map_option length msk_public_key \<noteq> Some 32
      then Inl (perr_new ''invalid_request'' (''mskPublicKey is required for '' @ purpose))
      else Inr ())"

section \<open>Grants\<close>

definition parse_mailer_grant :: "json \<Rightarrow> bool \<Rightarrow> perr + mailer_grant" where
  "parse_mailer_grant result vault_purpose =
     (case as_object result of
        None \<Rightarrow> Inl (perr_new ''otp_invalid'' ''Mailer verify response was not a JSON object'')
      | Some obj \<Rightarrow>
        and_then (ok_or (perr_new ''otp_grant_invalid'' ''Mailer verify did not return otp_grant'')
          (nonempty_text (get_str obj ''otp_grant''))) (\<lambda>otp_grant.
        let identity_id = get_str obj ''identity_id'' in
        if (case identity_id of Some i \<Rightarrow> \<not> hex64 i | None \<Rightarrow> False)
        then Inl (perr_new ''otp_grant_invalid'' ''Mailer verify identity_id is not 64 hex characters'')
        else if vault_purpose \<and> identity_id = None
        then Inl (perr_new ''otp_grant_invalid'' ''Mailer verify did not return identity_id and otp_grant'')
        else if obj_has obj ''email'' \<or> obj_has obj ''mailbox''
        then Inl (perr_new ''invalid_request'' ''Mailer verify must not return a mailbox address'')
        else Inr \<lparr>mg_identity_id = identity_id, mg_otp_grant = otp_grant,
               mg_vault_grant = nonempty_text (get_str obj ''vault_grant'')\<rparr>))"

section \<open>One-time passwords\<close>

definition on_net :: "('h, 'e, 'a) act \<Rightarrow> (mailer \<times> 'h, 'e, 'a) act" where
  "on_net m = (\<lambda>(s, h). case m h of (r, h) \<Rightarrow> (r, s, h))"

definition get_state :: "(mailer \<times> 'h, perr, mailer) act" where
  "get_state = agets fst"

definition put_state :: "(mailer \<Rightarrow> mailer) \<Rightarrow> (mailer \<times> 'h, perr, unit) act" where
  "put_state f = aupd (apfst f)"

definition challenge_key :: "string \<Rightarrow> string \<Rightarrow> string" where
  "challenge_key sha purpose = sha @ '':'' @ purpose"

definition challenges_url :: "mailer \<Rightarrow> string \<Rightarrow> string" where
  "challenges_url s sha = join_url (ml_base_url s) (''/v1/mailboxes/'' @ sha @ ''/challenges'')"

definition responses_url :: "mailer \<Rightarrow> string \<Rightarrow> string \<Rightarrow> string" where
  "responses_url s sha challenge_id = join_url (ml_base_url s)
     (''/v1/mailboxes/'' @ sha @ ''/challenges/'' @ challenge_id @ ''/responses'')"

definition jkt_member :: "deps \<Rightarrow> bytes option \<Rightarrow> (string \<times> json) list" where
  "jkt_member D msk_public_key =
     (case msk_public_key of Some k \<Rightarrow> [(''msk_jkt'', JStr (mailer_msk_jkt D k))] | None \<Rightarrow> [])"

definition otp_request_body :: "deps \<Rightarrow> string \<Rightarrow> string \<Rightarrow> bytes option \<Rightarrow> json" where
  "otp_request_body D canonical uri msk_public_key =
     jobj ([(''type'', JStr EMAIL_OTP_TYPE), (''email'', JStr canonical), (''purpose'', JStr uri)]
       @ jkt_member D msk_public_key)"

definition request_otp ::
  "deps \<Rightarrow> 'h net \<Rightarrow> string \<Rightarrow> string \<Rightarrow> bytes option \<Rightarrow> (mailer \<times> 'h, perr, unit) act"
where
  "request_otp D N email purpose msk_public_key =
     abind get_state (\<lambda>s.
     abind (alift (require_base_url s)) (\<lambda>_.
     abind (alift (require_canonical_email D (Some (normalize_email D (Some email))))) (\<lambda>canonical.
     abind (alift (require_arming_key purpose msk_public_key)) (\<lambda>_.
     abind (alift (email_sha256_hex D canonical)) (\<lambda>sha.
     abind (alift (purpose_uri purpose)) (\<lambda>uri.
     abind (on_net (pubkey_request D N (challenges_url s sha) ''POST''
       (Some (otp_request_body D canonical uri msk_public_key)) False)) (\<lambda>result.
     abind (alift (ok_or (perr_new ''otp_invalid'' ''Mailer challenge response did not return an id'')
       (jget_str result ''id''))) (\<lambda>i.
     put_state (\<lambda>s. s\<lparr>ml_otp_challenge_ids := (ml_otp_challenge_ids s)(challenge_key sha purpose \<mapsto> i)\<rparr>)))))))))"

definition mailer_verify_otp ::
  "deps \<Rightarrow> 'h net \<Rightarrow> string \<Rightarrow> string \<Rightarrow> string \<Rightarrow> (mailer \<times> 'h, perr, mailer_grant) act"
where
  "mailer_verify_otp D N email otp purpose =
     abind get_state (\<lambda>s.
     abind (alift (require_base_url s)) (\<lambda>_.
     abind (alift (email_sha256_hex D email)) (\<lambda>sha.
     abind (alift (ok_or (perr_new ''otp_invalid'' ''Call requestOtp before verifyOtp'')
       (ml_otp_challenge_ids s (challenge_key sha purpose)))) (\<lambda>challenge_id.
     abind (on_net (pubkey_request D N (responses_url s sha challenge_id) ''POST''
       (Some (jobj [(''response'', jobj [(''code'', JStr (trim otp))])])) False)) (\<lambda>result.
     alift (parse_mailer_grant result (is_vault_purpose purpose)))))))"

section \<open>ID tokens\<close>

definition create_id_token_challenge ::
  "deps \<Rightarrow> 'h net \<Rightarrow> string \<Rightarrow> string \<Rightarrow> string \<Rightarrow> bytes option \<Rightarrow> (mailer \<times> 'h, perr, id_token_challenge) act"
where
  "create_id_token_challenge D N email provider purpose msk_public_key =
     abind get_state (\<lambda>s.
     abind (alift (require_base_url s)) (\<lambda>_.
     abind (alift (require_canonical_email D (Some (normalize_email D (Some email))))) (\<lambda>canonical.
     abind (alift (require_arming_key purpose msk_public_key)) (\<lambda>_.
     abind (alift (email_sha256_hex D canonical)) (\<lambda>sha.
     abind (alift (purpose_uri purpose)) (\<lambda>uri.
     abind (on_net (pubkey_request D N (challenges_url s sha) ''POST''
       (Some (jobj ([(''type'', JStr OIDC_TYPE), (''email'', JStr canonical),
          (''provider'', JStr provider), (''purpose'', JStr uri)] @ jkt_member D msk_public_key)))
       False)) (\<lambda>result.
     abind (alift (ok_or (perr_new ''idtoken_challenge_invalid''
       ''Mailer challenge response was not a JSON object'') (as_object result))) (\<lambda>obj.
     let challenge_id = unwrap_or [] (get_str obj ''id'');
         nonce = unwrap_or [] (get_str obj ''nonce'')
     in abind (on_net (case get_str obj ''expiresAt'' of
            None \<Rightarrow> aret None
          | Some t \<Rightarrow> (\<lambda>h. case nt_expires_in N t h of (e, h) \<Rightarrow> (Inr e, h)))) (\<lambda>expires_in.
        if challenge_id = [] \<or> nonce = [] \<or> expires_in = None
        then afail (perr_new ''idtoken_challenge_invalid''
          ''Mailer challenge response is missing id, nonce, or expiresAt'')
        else if obj_has obj ''email'' \<or> obj_has obj ''mailbox''
        then afail (perr_new ''invalid_request'' ''Mailer challenge must not return a mailbox address'')
        else
          abind (put_state (\<lambda>s. s\<lparr>ml_challenge_mailboxes :=
            (ml_challenge_mailboxes s)(challenge_id \<mapsto> sha)\<rparr>)) (\<lambda>_.
          aret \<lparr>ic_challenge_id = challenge_id, ic_nonce = nonce,
            ic_expires_in = unwrap_or 0 expires_in\<rparr>))))))))))"

definition verify_id_token ::
  "deps \<Rightarrow> 'h net \<Rightarrow> string \<Rightarrow> string \<Rightarrow> string \<Rightarrow> string \<Rightarrow> string option \<Rightarrow> (mailer \<times> 'h, perr, mailer_grant) act"
where
  "verify_id_token D N challenge_id provider purpose id_token graph_access_token =
     abind get_state (\<lambda>s.
     abind (alift (require_base_url s)) (\<lambda>_.
     if provider = [] \<or> purpose = []
     then afail (perr_new ''invalid_request'' ''provider and purpose are required'')
     else
       abind (alift (ok_or (perr_new ''idtoken_invalid'' ''Call createIdTokenChallenge before verifyIdToken'')
         (ml_challenge_mailboxes s challenge_id))) (\<lambda>sha.
       abind (on_net (pubkey_request D N (responses_url s sha challenge_id) ''POST''
         (Some (jobj [(''response'', jobj ([(''id_token'', JStr id_token)]
            @ (case nonempty_text graph_access_token of
                 Some t \<Rightarrow> [(''graph_access_token'', JStr t)] | None \<Rightarrow> [])))])) False)) (\<lambda>result.
       alift (parse_mailer_grant result (is_vault_purpose purpose))))))"

section \<open>The cached configuration\<close>

fun first_max_age :: "string list \<Rightarrow> int option" where
  "first_max_age [] = None"
| "first_max_age (part # parts) =
     (case Option.bind (strip_prefix ''max-age='' (trim part)) parse_i64 of
        Some n \<Rightarrow> Some n | None \<Rightarrow> first_max_age parts)"

definition max_age_seconds :: "string option \<Rightarrow> int" where
  "max_age_seconds cache_control =
     (case cache_control of
        None \<Rightarrow> 300
      | Some cc \<Rightarrow> unwrap_or 300 (first_max_age (split_char (CHR '','') cc)))"

text \<open>
  \<open>Instant + Duration::from_secs(max_age as u64)\<close>: the cast wraps, and the addition panics
  when the seconds do not fit the \<open>i64\<close> of the native clocks.
\<close>

definition instant_plus :: "nat \<Rightarrow> u64 \<Rightarrow> nat option" where
  "instant_plus now seconds = (if now + unat seconds < 2 ^ 63 then Some (now + unat seconds) else None)"

definition config_providers :: "jmap \<Rightarrow> string \<rightharpoonup> string list" where
  "config_providers obj =
     (case Option.bind (obj_get obj ''providers'') as_object of
        None \<Rightarrow> Map.empty
      | Some raw \<Rightarrow> fold (\<lambda>(key, v) m.
          case as_object v of
            None \<Rightarrow> m
          | Some o1 \<Rightarrow> m(key \<mapsto> (case Option.bind (obj_get o1 ''purposes'') as_array of
              Some arr \<Rightarrow> List.map_filter as_str arr | None \<Rightarrow> []))) raw Map.empty)"

definition config_from_json :: "jmap \<Rightarrow> id_token_config" where
  "config_from_json obj = \<lparr>tc_enabled = (obj_get obj ''enabled'' = Some (JBool True)),
     tc_providers = config_providers obj,
     tc_challenge_ttl_seconds = unwrap_or 300 (Option.bind (obj_get obj ''challenge_ttl_seconds'') as_i64)\<rparr>"

text \<open>The part of \<open>fetch_id_token_config\<close> that asks the server.\<close>

definition refresh_config ::
  "'h net \<Rightarrow> mailer \<times> 'h \<Rightarrow> (perr + id_token_config) option \<times> mailer \<times> 'h"
where
  "refresh_config N = (\<lambda>(s, h).
     case nt_get_config N (join_url (ml_base_url s) ''/v1/challenges/config'') h of
       (Inl e, h) \<Rightarrow> (Some (Inl (perr_from_response 0 (jobj [(''message'', JStr e)]))), s, h)
     | (Inr (cache_control, status, received), h) \<Rightarrow>
         (case received of
            Inl e \<Rightarrow> (Some (Inl (perr_new ''invalid_request'' e)), s, h)
          | Inr data \<Rightarrow>
              if \<not> (200 \<le> unat status \<and> unat status < 300)
              then (Some (Inl (perr_from_response status data)), s, h)
              else (case as_object data of
                  None \<Rightarrow> (Some (Inl (perr_new ''invalid_request''
                    ''Mailer ID token config was not a JSON object'')), s, h)
                | Some obj \<Rightarrow>
                    (let config = config_from_json obj;
                         s = s\<lparr>ml_config := Some config\<rparr>
                     in case nt_instant N h of (now, h) \<Rightarrow>
                        (case instant_plus now (word_of_int (max_age_seconds cache_control)) of
                           None \<Rightarrow> (None, s, h)
                         | Some t \<Rightarrow> (Some (Inr config), s\<lparr>ml_config_until := Some t\<rparr>, h))))))"

definition fetch_id_token_config ::
  "'h net \<Rightarrow> mailer \<times> 'h \<Rightarrow> (perr + id_token_config) option \<times> mailer \<times> 'h"
where
  "fetch_id_token_config N = (\<lambda>(s, h).
     case require_base_url s of
       Inl e \<Rightarrow> (Some (Inl e), s, h)
     | Inr _ \<Rightarrow>
         (case (ml_config s, ml_config_until s) of
            (Some cfg, Some until) \<Rightarrow>
              (case nt_instant N h of (now, h) \<Rightarrow>
                 if now < until then (Some (Inr cfg), s, h) else refresh_config N (s, h))
          | _ \<Rightarrow> refresh_config N (s, h)))"

section \<open>The life of a one-time password\<close>

lemma on_net_run [simp]: "on_net m (s, h) = (r, s', h') \<longleftrightarrow> s' = s \<and> m h = (r, h')"
  by (auto simp: on_net_def split: prod.splits)

lemma keeps_on_net: "keeps (\<lambda>w. P (fst w)) (on_net m)"
  by (auto simp: keeps_def on_net_def split: prod.splits)

lemma keeps_put_state: "(\<And>s. P s \<Longrightarrow> P (f s)) \<Longrightarrow> keeps (\<lambda>w. P (fst w)) (put_state f)"
  by (auto simp: keeps_def put_state_def)

lemma keeps_get_state: "keeps I get_state"
  by (simp add: get_state_def)

lemmas keeps_mailer = keeps_abind keeps_on_net keeps_get_state keeps_basic keeps_aret

text \<open>What the other operations leave alone: the base URL and the entry of one key.\<close>

definition holds_id :: "string \<Rightarrow> string \<Rightarrow> string option \<Rightarrow> mailer \<Rightarrow> bool" where
  "holds_id b key v s \<longleftrightarrow> ml_base_url s = b \<and> ml_otp_challenge_ids s key = v"

lemma verify_keeps_id: "keeps (\<lambda>w. holds_id b key v (fst w)) (mailer_verify_otp D N email otp purpose)"
  unfolding mailer_verify_otp_def by (intro keeps_mailer)

lemma id_token_keeps_id:
  "keeps (\<lambda>w. holds_id b key v (fst w)) (create_id_token_challenge D N email provider purpose k)"
  "keeps (\<lambda>w. holds_id b key v (fst w)) (verify_id_token D N challenge_id provider purpose tok gt)"
  unfolding create_id_token_challenge_def verify_id_token_def Let_def
  by (auto intro!: keeps_mailer keeps_put_state simp: holds_id_def)

lemma canonical_hash:
  "require_canonical_email D (Some (normalize_email D (Some email))) = Inr c
     \<Longrightarrow> email_sha256_hex D c = email_sha256_hex D email"
  by (auto simp: email_sha256_hex_def require_canonical_Inr)

text \<open>The keys of the challenges tell mailbox hashes and purposes apart, both.\<close>

lemma challenge_key_eq:
  assumes "hex64 sha" and "hex64 sha0"
  shows "challenge_key sha purpose = challenge_key sha0 purpose0 \<longleftrightarrow> sha = sha0 \<and> purpose = purpose0"
  using assms by (auto simp: challenge_key_def hex64_def)

lemma request_keeps_id:
  assumes "\<And>sha. email_sha256_hex D email = Inr sha \<Longrightarrow> challenge_key sha purpose \<noteq> key"
  shows "keeps (\<lambda>w. holds_id b key v (fst w)) (request_otp D N email purpose k)"
  unfolding request_otp_def
  by (intro keeps_alift_bind keeps_mailer keeps_put_state)
    (use assms in \<open>auto simp: holds_id_def dest: canonical_hash\<close>)

lemma fetch_keeps_id:
  assumes "fetch_id_token_config N (s, h) = (r, s', h')" and "holds_id b key v s"
  shows "holds_id b key v s'"
  using assms
  by (auto simp: fetch_id_token_config_def refresh_config_def holds_id_def Let_def
      split: prod.splits sum.splits option.splits if_splits)

text \<open>
  Anything the client does short of asking again for one mailbox, given by its hash, and
  purpose: asking for another mailbox, or for another purpose of the same one, included.
\<close>

inductive mailer_step ::
  "deps \<Rightarrow> 'h net \<Rightarrow> string \<Rightarrow> string \<Rightarrow> mailer \<times> 'h \<Rightarrow> mailer \<times> 'h \<Rightarrow> bool"
  for D :: deps and N :: "'h net" and sha0 :: string and purpose0 :: string where
  other_mailbox: "request_otp D N email purpose k w = (r, w') \<Longrightarrow>
     email_sha256_hex D email \<noteq> Inr sha0 \<Longrightarrow> mailer_step D N sha0 purpose0 w w'"
| other_purpose: "request_otp D N email purpose k w = (r, w') \<Longrightarrow>
     purpose \<noteq> purpose0 \<Longrightarrow> mailer_step D N sha0 purpose0 w w'"
| otp_verified: "mailer_verify_otp D N email otp purpose w = (g, w') \<Longrightarrow>
     mailer_step D N sha0 purpose0 w w'"
| id_challenge: "create_id_token_challenge D N email provider purpose k w = (c, w') \<Longrightarrow>
     mailer_step D N sha0 purpose0 w w'"
| id_verified: "verify_id_token D N challenge_id provider purpose tok gt w = (g, w') \<Longrightarrow>
     mailer_step D N sha0 purpose0 w w'"
| config_fetched: "fetch_id_token_config N w = (Some c, w') \<Longrightarrow> mailer_step D N sha0 purpose0 w w'"

lemma request_keeps_other:
  assumes "hash_lengths D" and "hex_doc D" and "hex64 sha0"
    and "email_sha256_hex D email \<noteq> Inr sha0 \<or> purpose \<noteq> purpose0"
    and "request_otp D N email purpose k w = (r, w')"
    and "holds_id b (challenge_key sha0 purpose0) v (fst w)"
  shows "holds_id b (challenge_key sha0 purpose0) v (fst w')"
proof (rule keepsD [OF request_keeps_id assms(6,5)])
  fix sha assume sha: "email_sha256_hex D email = Inr sha"
  have "hex64 sha" using assms(1,2) sha by (rule email_sha256_hex_hex64)
  with assms(3,4) sha show "challenge_key sha purpose \<noteq> challenge_key sha0 purpose0"
    by (auto simp: challenge_key_eq)
qed

lemma mailer_step_keeps_id:
  assumes "hash_lengths D" and "hex_doc D" and "hex64 sha0"
    and "mailer_step D N sha0 purpose0 w w'" and "holds_id b (challenge_key sha0 purpose0) v (fst w)"
  shows "holds_id b (challenge_key sha0 purpose0) v (fst w')"
  using assms(4)
proof (cases rule: mailer_step.cases)
  case (other_mailbox email purpose k r)
  then show ?thesis using request_keeps_other [OF assms(1-3) _ _ assms(5)] by blast
next
  case (other_purpose email purpose k r)
  then show ?thesis using request_keeps_other [OF assms(1-3) _ _ assms(5)] by blast
next
  case (otp_verified email otp purpose g)
  then show ?thesis using assms(5) keepsD [OF verify_keeps_id] by blast
next
  case (id_challenge email provider purpose k c)
  then show ?thesis using assms(5) keepsD [OF id_token_keeps_id(1)] by blast
next
  case (id_verified challenge_id provider purpose tok gt g)
  then show ?thesis using assms(5) keepsD [OF id_token_keeps_id(2)] by blast
next
  case (config_fetched c)
  then show ?thesis using assms(5) fetch_keeps_id by (metis prod.collapse)
qed

lemma mailer_steps_keep_id:
  assumes "hash_lengths D" and "hex_doc D" and "hex64 sha0"
  shows "(mailer_step D N sha0 purpose0)\<^sup>*\<^sup>* w w' \<Longrightarrow>
    holds_id b (challenge_key sha0 purpose0) v (fst w) \<Longrightarrow>
    holds_id b (challenge_key sha0 purpose0) v (fst w')"
  by (induction rule: rtranclp_induct) (auto intro: mailer_step_keeps_id [OF assms])

lemma request_otp_runs:
  assumes "request_otp D N email purpose key (s, h) = (Inr (), s', h')"
  obtains sha uri resp i where "email_sha256_hex D email = Inr sha" "purpose_uri purpose = Inr uri"
    "pubkey_request D N (challenges_url s sha) ''POST''
       (Some (otp_request_body D (normalize_email D (Some email)) uri key)) False h = (Inr resp, h')"
    "jget_str resp ''id'' = Some i" "require_arming_key purpose key = Inr ()" "ml_base_url s \<noteq> []"
    "s' = s\<lparr>ml_otp_challenge_ids := (ml_otp_challenge_ids s)(challenge_key sha purpose \<mapsto> i)\<rparr>"
proof -
  from assms obtain c sha uri resp i where run: "require_base_url s = Inr ()"
    "require_canonical_email D (Some (normalize_email D (Some email))) = Inr c"
    "require_arming_key purpose key = Inr ()" "email_sha256_hex D c = Inr sha" "purpose_uri purpose = Inr uri"
    "pubkey_request D N (challenges_url s sha) ''POST'' (Some (otp_request_body D c uri key)) False h
       = (Inr resp, h')"
    "jget_str resp ''id'' = Some i"
    "s' = s\<lparr>ml_otp_challenge_ids := (ml_otp_challenge_ids s)(challenge_key sha purpose \<mapsto> i)\<rparr>"
    by (auto simp: request_otp_def abind_Inr_iff get_state_def put_state_def on_net_run)
  show ?thesis
  proof (rule that)
    show "email_sha256_hex D email = Inr sha" using run(2,4) canonical_hash by metis
    show "pubkey_request D N (challenges_url s sha) ''POST''
       (Some (otp_request_body D (normalize_email D (Some email)) uri key)) False h = (Inr resp, h')"
      using run(2,6) by (simp add: require_canonical_Inr)
    show "ml_base_url s \<noteq> []" using run(1) by (auto simp: require_base_url_def split: if_splits)
  qed (use run in simp_all)
qed

text \<open>
  C35. A one-time password answers the challenge it was requested for: after a successful
  request for a mailbox and purpose, and after anything else the client does except asking
  again for this mailbox and this purpose (requests for other mailboxes, and for other purposes
  of the same mailbox, do not disturb it), verifying a code posts it, trimmed, to the challenge that the server named
  in its answer to that request, for that mailbox hash; and the result is read as a grant of
  that purpose. The request itself named the canonical mailbox and the purpose's URI, and for
  \<open>enroll\<close> and \<open>replace_msk\<close> bound the hash of a 32-byte MSK.
\<close>

theorem otp_answers_its_challenge:
  assumes "hash_lengths D" and "hex_doc D"
    and "request_otp D N email purpose key (s, h) = (Inr (), w1)"
    and "email_sha256_hex D email = Inr sha"
    and "(mailer_step D N sha purpose)\<^sup>*\<^sup>* w1 (s2, h2)"
    and "email_sha256_hex D other = email_sha256_hex D email"
  shows "\<exists>uri resp i. purpose_uri purpose = Inr uri
    \<and> pubkey_request D N (join_url (ml_base_url s) (''/v1/mailboxes/'' @ sha @ ''/challenges'')) ''POST''
        (Some (otp_request_body D (normalize_email D (Some email)) uri key)) False h = (Inr resp, snd w1)
    \<and> jget_str resp ''id'' = Some i
    \<and> (purpose \<in> {''enroll'', ''replace_msk''} \<longrightarrow> (\<exists>k. key = Some k \<and> length k = 32))
    \<and> mailer_verify_otp D N other otp purpose (s2, h2) =
        (case pubkey_request D N (join_url (ml_base_url s)
            (''/v1/mailboxes/'' @ sha @ ''/challenges/'' @ i @ ''/responses'')) ''POST''
            (Some (jobj [(''response'', jobj [(''code'', JStr (trim otp))])])) False h2 of
           (Inl e, h3) \<Rightarrow> (Inl e, s2, h3)
         | (Inr answer, h3) \<Rightarrow> (parse_mailer_grant answer (is_vault_purpose purpose), s2, h3))"
proof -
  obtain s1 h1 where w1: "w1 = (s1, h1)" by fastforce
  obtain uri resp i where run: "purpose_uri purpose = Inr uri"
    "pubkey_request D N (challenges_url s sha) ''POST''
       (Some (otp_request_body D (normalize_email D (Some email)) uri key)) False h = (Inr resp, h1)"
    "jget_str resp ''id'' = Some i" "require_arming_key purpose key = Inr ()" "ml_base_url s \<noteq> []"
    "s1 = s\<lparr>ml_otp_challenge_ids := (ml_otp_challenge_ids s)(challenge_key sha purpose \<mapsto> i)\<rparr>"
  proof -
    from assms(3) [unfolded w1] obtain sha' uri resp i where "email_sha256_hex D email = Inr sha'"
      "purpose_uri purpose = Inr uri"
      "pubkey_request D N (challenges_url s sha') ''POST''
         (Some (otp_request_body D (normalize_email D (Some email)) uri key)) False h = (Inr resp, h1)"
      "jget_str resp ''id'' = Some i" "require_arming_key purpose key = Inr ()" "ml_base_url s \<noteq> []"
      "s1 = s\<lparr>ml_otp_challenge_ids := (ml_otp_challenge_ids s)(challenge_key sha' purpose \<mapsto> i)\<rparr>"
      by (rule request_otp_runs)
    with assms(4) that show ?thesis by simp
  qed
  have "holds_id (ml_base_url s) (challenge_key sha purpose) (Some i) (fst w1)"
    by (simp add: w1 run(6) holds_id_def)
  from mailer_steps_keep_id [OF assms(1,2) email_sha256_hex_hex64 [OF assms(1,2,4)] assms(5) this]
  have s2: "ml_base_url s2 = ml_base_url s" "ml_otp_challenge_ids s2 (challenge_key sha purpose) = Some i"
    by (simp_all add: holds_id_def)
  have "mailer_verify_otp D N other otp purpose (s2, h2) =
      (case pubkey_request D N (responses_url s2 sha i) ''POST''
            (Some (jobj [(''response'', jobj [(''code'', JStr (trim otp))])])) False h2 of
           (Inl e, h3) \<Rightarrow> (Inl e, s2, h3)
         | (Inr answer, h3) \<Rightarrow> (parse_mailer_grant answer (is_vault_purpose purpose), s2, h3))"
    using assms(4,6) s2 run(5)
    by (simp add: mailer_verify_otp_def abind_apply get_state_def require_base_url_def on_net_def
        split: prod.split sum.split)
  moreover have "purpose \<in> {''enroll'', ''replace_msk''} \<longrightarrow> (\<exists>k. key = Some k \<and> length k = 32)"
    using run(4) by (auto simp: require_arming_key_def split: if_splits)
  ultimately show ?thesis
    using run(1,2,3) by (simp add: w1 s2(1) responses_url_def challenges_url_def)
qed

definition answering_deps :: deps where
  "answering_deps = sample_deps\<lparr>json_parse := (\<lambda>s. Inr (jobj [(''id'', JStr s)]))\<rparr>"

definition otp_script :: script where
  "otp_script = [Inr (200, Some ''c1''), Inr (200, Some ''c2''), Inr (200, Some ''c3'')]"

definition sample_mailer :: mailer where
  "sample_mailer = mailer_with_http ''https://m''"

lemma json_parse_unused:
  "fold_utf8 (D\<lparr>json_parse := f\<rparr>) = fold_utf8 D" "word_char (D\<lparr>json_parse := f\<rparr>) = word_char D"
  "local_chars (D\<lparr>json_parse := f\<rparr>) = local_chars D"
  "domain_label_chars (D\<lparr>json_parse := f\<rparr>) = domain_label_chars D"
  "disallowed_in_address (D\<lparr>json_parse := f\<rparr>) = disallowed_in_address D"
  "digits_only (D\<lparr>json_parse := f\<rparr>) = digits_only D" "has_letter (D\<lparr>json_parse := f\<rparr>) = has_letter D"
  "is_valid_local_part (D\<lparr>json_parse := f\<rparr>) = is_valid_local_part D"
  "is_valid_label (D\<lparr>json_parse := f\<rparr>) = is_valid_label D"
  "is_valid_domain (D\<lparr>json_parse := f\<rparr>) = is_valid_domain D"
  "normalize_email (D\<lparr>json_parse := f\<rparr>) = normalize_email D"
  "is_valid_email (D\<lparr>json_parse := f\<rparr>) = is_valid_email D"
proof -
  have nfc: "nfc (D\<lparr>json_parse := f\<rparr>) = nfc D" by simp
  show fold: "fold_utf8 (D\<lparr>json_parse := f\<rparr>) = fold_utf8 D" by (rule ext) (simp add: fold_utf8_def)
  show word: "word_char (D\<lparr>json_parse := f\<rparr>) = word_char D" by (rule ext) (simp add: word_char_def)
  show lchars: "local_chars (D\<lparr>json_parse := f\<rparr>) = local_chars D"
    by (rule ext) (simp add: local_chars_def word)
  show dchars: "domain_label_chars (D\<lparr>json_parse := f\<rparr>) = domain_label_chars D"
    by (rule ext) (simp add: domain_label_chars_def word)
  show dis: "disallowed_in_address (D\<lparr>json_parse := f\<rparr>) = disallowed_in_address D"
    by (rule ext) (simp add: disallowed_in_address_def)
  show digits: "digits_only (D\<lparr>json_parse := f\<rparr>) = digits_only D" by (rule ext) (simp add: digits_only_def)
  show letter: "has_letter (D\<lparr>json_parse := f\<rparr>) = has_letter D" by (rule ext) (simp add: has_letter_def)
  show lpart: "is_valid_local_part (D\<lparr>json_parse := f\<rparr>) = is_valid_local_part D"
    by (rule ext) (simp add: is_valid_local_part_def lchars)
  show label: "is_valid_label (D\<lparr>json_parse := f\<rparr>) = is_valid_label D"
    by (rule ext) (simp add: is_valid_label_def dchars)
  show dom: "is_valid_domain (D\<lparr>json_parse := f\<rparr>) = is_valid_domain D"
    by (rule ext) (simp add: is_valid_domain_def label digits letter)
  show "normalize_email (D\<lparr>json_parse := f\<rparr>) = normalize_email D"
    by (rule ext) (unfold normalize_email_def fold nfc, rule refl)
  show "is_valid_email (D\<lparr>json_parse := f\<rparr>) = is_valid_email D"
    by (rule ext) (unfold is_valid_email_def dis lpart dom, rule refl)
qed

lemma answering_hash:
  "\<exists>sha. email_sha256_hex answering_deps sample_email = Inr sha"
  "require_canonical_email answering_deps (Some (normalize_email answering_deps (Some sample_email)))
     = Inr (normalize_email answering_deps (Some sample_email))"
proof -
  have same: "normalize_email answering_deps = normalize_email sample_deps"
    "is_valid_email answering_deps = is_valid_email sample_deps"
    unfolding answering_deps_def by (rule json_parse_unused)+
  show "require_canonical_email answering_deps (Some (normalize_email answering_deps (Some sample_email)))
     = Inr (normalize_email answering_deps (Some sample_email))"
    by (simp add: require_canonical_email_def same sample_email_canonical)
  then show "\<exists>sha. email_sha256_hex answering_deps sample_email = Inr sha"
    by (simp add: email_sha256_hex_def)
qed

lemma answered_request:
  assumes "trim received = received" and "received \<noteq> []"
  shows "pubkey_request answering_deps sample_net url m body rec (Inr (200, Some received) # r)
    = (Inr (jobj [(''id'', JStr received)]), r)"
proof -
  have "parse_body answering_deps (Some received) = jobj [(''id'', JStr received)]"
    using assms by (simp add: parse_body_def answering_deps_def)
  then have "request_answer answering_deps rec False 200 (Some received) = Inr (jobj [(''id'', JStr received)])"
    by (simp add: request_answer_def)
  moreover have attempts: "CONNECTION_ATTEMPTS = Suc 3" by (simp add: CONNECTION_ATTEMPTS_def)
  ultimately show ?thesis
    unfolding pubkey_request_def attempts request_attempts.simps by (simp add: sample_net_def)
qed

lemma sample_trims: "trim ''c1'' = ''c1''" "trim ''c2'' = ''c2''" "trim ''c3'' = ''c3''" "trim ''https://m'' = ''https://m''"
  by (simp_all add: trim_def chars_of_ascii_text ascii_def char_is_whitespace_def)

lemma answering_deps_ok: "hash_lengths answering_deps" "hex_doc answering_deps"
  using sample_deps_ok(1,2) by (simp_all add: answering_deps_def hash_lengths_def hex_doc_def)

theorem otp_answers_its_challenge_witness:
  "\<exists>s1 s2. request_otp answering_deps sample_net sample_email ''vault_open'' None
       (sample_mailer, otp_script) = (Inr (), s1, tl otp_script)
     \<and> request_otp answering_deps sample_net sample_email ''vault_backup'' None
       (s1, tl otp_script) = (Inr (), s2, tl (tl otp_script))
     \<and> mailer_verify_otp answering_deps sample_net sample_email ''1'' ''vault_open'' (s2, tl (tl otp_script))
       = (parse_mailer_grant (jobj [(''id'', JStr ''c3'')]) True, s2, [])"
proof -
  obtain sha where sha: "email_sha256_hex answering_deps sample_email = Inr sha"
    using answering_hash(1) by blast
  let ?c = "normalize_email answering_deps (Some sample_email)"
  have c: "email_sha256_hex answering_deps ?c = Inr sha"
    using canonical_hash [OF answering_hash(2)] sha by simp
  obtain s1 where run: "request_otp answering_deps sample_net sample_email ''vault_open'' None
      (sample_mailer, otp_script) = (Inr (), s1, tl otp_script)" and s1: "ml_base_url s1 = ''https://m''"
    using c by (simp add: request_otp_def abind_apply get_state_def put_state_def on_net_def sample_mailer_def
        mailer_with_http_def require_base_url_def answering_hash(2) require_arming_key_def
        purpose_uri_def otp_script_def answered_request sample_trims jget_str_def)
  obtain s2 where again: "request_otp answering_deps sample_net sample_email ''vault_backup'' None
      (s1, tl otp_script) = (Inr (), s2, tl (tl otp_script))"
    using c s1 by (simp add: request_otp_def abind_apply get_state_def put_state_def on_net_def
        require_base_url_def answering_hash(2) require_arming_key_def
        purpose_uri_def otp_script_def answered_request sample_trims jget_str_def)
  have "(mailer_step answering_deps sample_net sha ''vault_open'')\<^sup>*\<^sup>* (s1, tl otp_script) (s2, tl (tl otp_script))"
    by (rule r_into_rtranclp [of "mailer_step answering_deps sample_net sha ''vault_open''"])
      (rule mailer_step.other_purpose [OF again], simp)
  from otp_answers_its_challenge [OF answering_deps_ok run sha this refl, of "''1''"] run again
  show ?thesis
    by (auto simp: answered_request sample_trims is_vault_purpose_def otp_script_def)
qed

text \<open>
  A negative \<open>max-age\<close>, which the server chooses, ends the refresh in a panic: the cast to
  \<open>u64\<close> makes it a duration that no clock reading can be moved by.
\<close>

lemma negative_max_age_panics:
  assumes "nt_get_config N (join_url (ml_base_url s) ''/v1/challenges/config'') h
      = (Inr (Some ''max-age=-1'', 200, Inr (JObj obj)), h1)"
    and "ml_base_url s \<noteq> []" and "ml_config s = None"
  shows "fst (fetch_id_token_config N (s, h)) = None"
proof -
  have "trim ''max-age=-1'' = ''max-age=-1''"
    by (simp add: trim_def chars_of_ascii_text ascii_def char_is_whitespace_def)
  then have "max_age_seconds (Some ''max-age=-1'') = - 1"
    by (simp add: max_age_seconds_def parse_i64_def is_digit_def digits_val_def digit_val_def)
  moreover have "unat (word_of_int (- 1) :: u64) = 2 ^ 64 - 1"
    by (simp add: unsigned_minus_1_eq_mask mask_eq_exp_minus_1)
  ultimately show ?thesis
    using assms
    by (simp add: fetch_id_token_config_def refresh_config_def require_base_url_def instant_plus_def
        Let_def split: prod.split)
qed

text \<open>The mailer arms 32-byte keys only, although an MSK of 1984 bytes is accepted elsewhere.\<close>

lemma hybrid_key_cannot_arm:
  assumes "length k = 1984"
  shows "require_msk_public_key (Some k) = Inr k"
    and "require_arming_key ''enroll'' (Some k) \<noteq> Inr ()"
  using assms by (simp_all add: require_msk_public_key_Inr require_arming_key_def)

end
