(* ===== verification/Wasm_Api.thy ===== *)
theory Wasm_Api
  imports Mailer
begin

text \<open>
  The browser bindings of \<open>wasm_api.rs\<close>: JSON texts in, JSON texts and error texts out. The
  error of a binding is the text of its \<open>JsValue\<close>.
\<close>

section \<open>Conversions\<close>

definition perr_display :: "perr \<Rightarrow> string" where
  "perr_display e = ''PubkeyError('' @ pe_code e @ ''): '' @ pe_message e"

definition js_act :: "('w, perr, 'a) act \<Rightarrow> ('w, string, 'a) act" where
  "js_act m = (\<lambda>w. case m w of (r, w) \<Rightarrow> (map_err perr_display r, w))"

definition json_string :: "deps \<Rightarrow> json \<Rightarrow> string" where
  "json_string D v = json_print D v"

definition document_json :: "deps \<Rightarrow> discovery_document \<Rightarrow> string" where
  "document_json D doc = json_string D (JObj (dd_raw doc))"

definition seed_signer :: "dalek \<Rightarrow> bytes \<Rightarrow> string + msk_signing" where
  "seed_signer K seed =
     (if length seed \<noteq> 32 then Inl ''MSK seed must be 32 bytes''
      else Inr (ed25519_msk_signing K (ed25519_from_seed K seed)))"

definition text_option :: "string \<Rightarrow> string option" where
  "text_option s = (if s = [] then None else Some s)"

definition parse_optional :: "deps \<Rightarrow> string \<Rightarrow> string + json option" where
  "parse_optional D s =
     (if s = [] then Inr None else and_then (json_parse D s) (\<lambda>v. Inr (Some v)))"

section \<open>Selection and the directory clients\<close>

text \<open>\<open>parse_array\<close> is \<open>serde_json::from_str\<close> at the type \<open>Vec<Value>\<close>.\<close>

definition select_best_artifact_json ::
  "deps \<Rightarrow> (string \<Rightarrow> string + json list) \<Rightarrow> string \<Rightarrow> string \<Rightarrow> string \<Rightarrow> string + string option"
where
  "select_best_artifact_json D parse_array artifacts_json capabilities_json purpose =
     and_then (parse_array artifacts_json) (\<lambda>artifacts.
     and_then (json_parse D capabilities_json) (\<lambda>capabilities.
     Inr (map_option (\<lambda>a. json_string D (JObj a))
       (select_best_artifact D artifacts (Some capabilities) None (text_option purpose)))))"

definition wasm_discovery_new :: "string + unit \<Rightarrow> string \<Rightarrow> string + discovery_client" where
  "wasm_discovery_new http_new read_base_url =
     map_err perr_display (discovery_client_new http_new read_base_url)"

definition wasm_discovery_discover_mailbox ::
  "deps \<Rightarrow> 'h net \<Rightarrow> discovery_client \<Rightarrow> string \<Rightarrow> ('h, string, string) act"
where
  "wasm_discovery_discover_mailbox D N C mailbox =
     abind (js_act (discovery_client_discover_mailbox D N C mailbox)) (\<lambda>doc.
     aret (document_json D doc))"

definition wasm_pubkey_new :: "string + unit \<Rightarrow> string \<Rightarrow> string \<Rightarrow> string + pubkey_client" where
  "wasm_pubkey_new http_new read_base_url write_base_url =
     map_err perr_display (builder_build http_new
       (builder_write_base_url write_base_url (builder_read_base_url read_base_url builder_new)))"

definition wasm_discover_mailbox ::
  "deps \<Rightarrow> 'h net \<Rightarrow> pubkey_client \<Rightarrow> string \<Rightarrow> ('h, string, string) act"
where
  "wasm_discover_mailbox D N C mailbox =
     abind (js_act (discover_mailbox D N C mailbox)) (\<lambda>doc. aret (document_json D doc))"

definition wasm_get_best_key ::
  "deps \<Rightarrow> 'h net \<Rightarrow> pubkey_client \<Rightarrow> string \<Rightarrow> string \<Rightarrow> string \<Rightarrow> string \<Rightarrow> ('h, string, string) act"
where
  "wasm_get_best_key D N C email purpose key_id capabilities_json =
     abind (alift (parse_optional D capabilities_json)) (\<lambda>capabilities.
     abind (js_act (get_best_key D N C (Some email) None (text_option purpose) (text_option key_id)
       capabilities)) (\<lambda>v.
     aret (json_string D v)))"

definition wasm_create_challenge ::
  "deps \<Rightarrow> 'h net \<Rightarrow> pubkey_client \<Rightarrow> string \<Rightarrow> string \<Rightarrow> string \<Rightarrow> string \<Rightarrow> ('h, string, string) act"
where
  "wasm_create_challenge D N C mailbox kind purpose input_json =
     abind (alift (parse_optional D input_json)) (\<lambda>input.
     abind (js_act (create_challenge D N C mailbox kind purpose input)) (\<lambda>ch.
     aret (json_string D (JObj (dc_raw ch)))))"

definition wasm_respond_to_challenge ::
  "deps \<Rightarrow> 'h net \<Rightarrow> pubkey_client \<Rightarrow> string \<Rightarrow> string \<Rightarrow> string \<Rightarrow> ('h, string, string) act"
where
  "wasm_respond_to_challenge D N C mailbox challenge_id response_json =
     abind (alift (json_parse D response_json)) (\<lambda>response.
     abind (js_act (respond_to_challenge D N C mailbox challenge_id response)) (\<lambda>ch.
     aret (json_string D (JObj (dc_raw ch)))))"

definition wasm_mutate ::
  "deps \<Rightarrow> dalek \<Rightarrow> 'h net \<Rightarrow> pubkey_client \<Rightarrow> string \<Rightarrow> string \<Rightarrow> string \<Rightarrow> bytes \<Rightarrow> ('h, string, string) act"
where
  "wasm_mutate D K N C email operation payload_json msk_seed =
     abind (alift (json_parse D payload_json)) (\<lambda>payload.
     abind (alift (seed_signer K msk_seed)) (\<lambda>signer.
     abind (js_act (mutate D N C email operation payload signer)) (\<lambda>v.
     aret (json_string D v))))"

definition wasm_verify_enroll ::
  "deps \<Rightarrow> dalek \<Rightarrow> 'h net \<Rightarrow> pubkey_client \<Rightarrow> string \<Rightarrow> string \<Rightarrow> bytes \<Rightarrow> string \<Rightarrow> ('h, string, string) act"
where
  "wasm_verify_enroll D K N C email otp_grant msk_seed device_json =
     abind (alift (seed_signer K msk_seed)) (\<lambda>signer.
     abind (alift (parse_optional D device_json)) (\<lambda>device.
     abind (js_act (verify_enroll_for_identity D N C (Some email) None None otp_grant signer device)) (\<lambda>v.
     aret (json_string D v))))"

section \<open>The mailer client\<close>

definition wasm_mailer_new :: "string + unit \<Rightarrow> string \<Rightarrow> string + mailer" where
  "wasm_mailer_new http_new base_url = map_err perr_display (mailer_new http_new base_url)"

definition wasm_request_otp ::
  "deps \<Rightarrow> 'h net \<Rightarrow> string \<Rightarrow> string \<Rightarrow> bytes option \<Rightarrow> (mailer \<times> 'h, string, unit) act"
where
  "wasm_request_otp D N email purpose msk_public_key = js_act (request_otp D N email purpose msk_public_key)"

definition option_text :: "string option \<Rightarrow> json" where
  "option_text v = (case v of Some s \<Rightarrow> JStr s | None \<Rightarrow> JNull)"

definition wasm_verify_otp ::
  "deps \<Rightarrow> 'h net \<Rightarrow> string \<Rightarrow> string \<Rightarrow> string \<Rightarrow> (mailer \<times> 'h, string, string) act"
where
  "wasm_verify_otp D N email otp purpose =
     abind (js_act (mailer_verify_otp D N email otp purpose)) (\<lambda>g.
     aret (json_string D (jobj [(''identity_id'', option_text (mg_identity_id g)),
       (''otp_grant'', JStr (mg_otp_grant g)), (''vault_grant'', option_text (mg_vault_grant g))])))"

section \<open>The device of an enrolment\<close>

text \<open>
  The browser binding enrols by mailbox only, and then the client does not sign a first
  device: every device text that parses gives the same run as none.
\<close>

lemma enroll_by_mailbox_ignores_device:
  "verify_enroll_for_identity D N C (Some email) None None otp_grant msk device
     = verify_enroll_for_identity D N C (Some email) None None otp_grant msk None"
proof (rule ext)
  fix h
  have blank: "require_identity_id [] \<noteq> Inr ()"
    by (simp add: require_identity_id_def hex64_def)
  show "verify_enroll_for_identity D N C (Some email) None None otp_grant msk device h
     = verify_enroll_for_identity D N C (Some email) None None otp_grant msk None h"
    using blank
    by (auto simp: verify_enroll_for_identity_def abind_apply Let_def and_then_def
        split: sum.splits option.splits)
qed

lemma wasm_device_ignored:
  assumes "json_parse D device_json = Inr v"
  shows "wasm_verify_enroll D K N C email otp_grant msk_seed device_json
    = wasm_verify_enroll D K N C email otp_grant msk_seed []"
proof -
  have parsed: "parse_optional D device_json = Inr (if device_json = [] then None else Some v)"
    "parse_optional D [] = Inr None"
    using assms by (simp_all add: parse_optional_def)
  have lifted: "abind (alift (Inr a)) k = k a" for a :: "json option" and k :: "json option \<Rightarrow> ('h, string, string) act"
    by (simp add: abind_def alift_def)
  show ?thesis
    unfolding wasm_verify_enroll_def parsed lifted
      enroll_by_mailbox_ignores_device [of _ _ _ _ _ _ "if device_json = [] then None else Some v"] ..
qed

end
