(* ===== verification/Spec2Isabelle.thy ===== *)
theory Spec2Isabelle
  imports Pairing_Flow Folder_Sync Key_Id Arming Wasm_Api
begin

text \<open>
  Verification of the Rust crates of the pubkey SDK: \<open>crates/discovery\<close> (the directory of
  public keys) and \<open>crates/scomm-vault\<close> (the key vault on top of the CKVF container). The
  Dart packages of the repository are not modelled; they are cited where they differ.

  \<^bold>\<open>The program.\<close> A mailbox address is normalized and hashed (\<open>identity.rs\<close>); the hash names the
  mailbox in every request. The directory clients (\<open>pubkey_client.rs\<close>) read discovery documents
  and keys, select a key (\<open>select.rs\<close>, \<open>document.rs\<close>), and send operations signed by the master
  signing key, the MSK (\<open>canonical.rs\<close>, \<open>signer.rs\<close>), through one HTTP helper that retries
  (\<open>http.rs\<close>). The mailer client (\<open>mailer.rs\<close>) proves possession of the mailbox and obtains
  grants (\<open>grant_v1.rs\<close>). A vault holds the private keys; \<open>key_vault.rs\<close> keeps it in a local
  store (\<open>local_vault_store.rs\<close>), pushes it to and pulls it from a vault host
  (\<open>vault_host_client.rs\<close>), and recovers it with a pepper that an oblivious PRF protects (\<open>oprf\<close>,
  \<open>host_pepper_oprf.rs\<close>). A new device receives the vault in a pairing (\<open>pairing\<close>), and
  \<open>vault_sync.rs\<close> stores generations on a folder that is not trusted.

  \<^bold>\<open>Theories and sources.\<close> Each theory states at its top which file it models; definitions keep
  the names of the code, with a prefix where a name is taken.

  \<^item> \<open>Prelude\<close>: \<open>Result\<close> as a sum, \<open>async fn\<close> as \<open>act\<close> (a function from a state to a result and a
    state; what happened before an error stays), \<open>keeps I m\<close> for \<open>m keeps the invariant I\<close>.
  \<^item> \<open>Rust_Std\<close>: \<open>str\<close> as UTF-8 bytes in a \<open>string\<close>, searching, splitting, trimming, \<open>Display\<close> and
    \<open>from_str\<close> of integers, hexadecimal. \<open>Json\<close>: \<open>serde_json::Value\<close> with key-ordered maps.
  \<^item> \<open>Deps\<close>: the third-party crates that both crates call, a record of parameters, with their
    documented behaviour as named predicates. \<open>Ckvf\<close>: the container crate in the same way, and
    \<open>errors.rs\<close> of the vault crate.
  \<^item> \<open>Signed_Text\<close>: \<open>canonical.rs\<close>, \<open>signing.rs\<close>. \<open>Grants\<close>: \<open>grant_v1.rs\<close>, \<open>authorization.rs\<close>.
  \<^item> \<open>Oprf\<close>: \<open>oprf/rfc9497.rs\<close>, \<open>oprf/identity_voprf.rs\<close>, \<open>oprf/poprf.rs\<close>. \<open>Vault_Host\<close>:
    \<open>vault_host_client.rs\<close>, \<open>host_pepper_oprf.rs\<close>. \<open>Local_Store\<close>: \<open>local_vault_store.rs\<close>.
    \<open>Key_Vault\<close>: \<open>key_vault.rs\<close>, whose state is the record \<open>kv\<close>.
  \<^item> \<open>Cpace\<close>, \<open>Pairing_Protocol\<close>, \<open>Pairing_Flow\<close>: the three files of \<open>pairing\<close>. \<open>Folder_Sync\<close>:
    \<open>vault_sync.rs\<close> over a model of \<open>std::fs\<close> in which any call may fail.
  \<^item> \<open>Discovery_Http\<close>: \<open>errors.rs\<close>, \<open>http.rs\<close>, \<open>config.rs\<close>, \<open>identity_wire.rs\<close>, \<open>locator.rs\<close>;
    its record \<open>net\<close> holds the transport, the clocks and the random source. \<open>Identity\<close>:
    \<open>identity.rs\<close>. \<open>Key_Id\<close>: \<open>scomm_key_id.rs\<close>. \<open>Selection\<close>: \<open>select.rs\<close>, \<open>document.rs\<close>. \<open>Device\<close>:
    \<open>device.rs\<close>, \<open>signer.rs\<close>. \<open>Pubkey_Client\<close>: \<open>pubkey_client.rs\<close>;
    \<open>Arming\<close> follows its arming requests from input to wire. \<open>Mailer\<close>: \<open>mailer.rs\<close>, whose
    state is the record \<open>mailer\<close>. \<open>Wasm_Api\<close>: \<open>wasm_api.rs\<close>.

  \<^bold>\<open>Interfaces.\<close> \<open>framing\<close> (an unambiguous length prefix) is interpreted by the framing of RFC 9497
  and by that of CPace. \<open>local_store\<close> is what \<open>KeyVault\<close> relies on, interpreted by the in-memory
  store. \<open>sync_store\<close> is the promise of a generation store, interpreted by the folder.
  \<open>wire_transport\<close> is what the clients rely on from the HTTP layer, interpreted by
  \<open>pubkey_request\<close> on a network that records its requests.
\<close>

text \<open>
  \<^bold>\<open>What is shown.\<close>

  \<^item> Signatures (C1 to C4, C24, C33, C34): a signed text of single-line fields determines them, and
    such texts of different kinds never coincide (the code checks no field for line breaks; what
    they break is stated in C1, C2 and C24), an envelope says what it was asked to say, the two
    crates sign the same bytes, a key upload carries a proof of possession bound to its
    envelope, and an enrolment arms the key and device asked for.
  \<^item> Formats (C5, C6, C10, C11, C22, C23, C39, C40): exact acceptance, round trips and layouts
    of grants, URL escapes, vault reads, pairing codes, OpenPGP packets in all six length
    encodings and key ids (and, as the lemma \<open>uuid_v8_layout\<close>, UUIDs), and where the two
    parsers of a grant differ.
  \<^item> Cryptographic protocols (C7 to C9, C12, C20, C21, C25, C26): completeness of the proofs and
    correctness of the PRFs, agreement and binding of CPace, a pairing that completes, and a
    pairing accepted only after approval. They hold for every group that satisfies the laws;
    hardness assumptions are no part of them.
  \<^item> State (C13 to C19, C28 to C30, C35): an open vault is stored, unless a \<open>clear\<close> failed or the
    caller edited it through \<open>vault_mut\<close>, a push that succeeds on a bound vault is synced, a pull
    trusts only signed heads, merges and metadata are as specified, a failed change closes the
    vault, generations never change while the metadata of the folder can be read, heads form a
    chain, and a one-time password goes to the challenge it was requested for.
  \<^item> Requests (C31, C32): attempts are bounded, a replayed write counts as success only after a
    lost connection, and no request whose body the directory client builds carries a mailbox;
    two operations send an envelope of the caller as it is.
  \<^item> Names (C36 to C38): the hash of a mailbox is that of one canonical address, and the selected
    key is a published one that nothing eligible outranks.
  \<^item> Waits (C27): both polling loops of a pairing end with their deadline, as far as the clock
    gets there.

  \<^bold>\<open>Bounds and fuel.\<close> The loops of the code with a fixed bound keep it: four attempts of a request
  (\<open>CONNECTION_ATTEMPTS\<close>) and four rounds of a push. The two polling loops of a pairing have no
  bound in the code and take fuel, one unit per round; C27 shows
  that running out of it means that no round so far read a clock past the deadline, and that
  \<open>Suc n\<close> units are enough on a native target when \<open>n\<close> intervals, in whole milliseconds, are more
  than the time left and the clock is not set back. On \<open>wasm32\<close> the loops do not wait. The packet
  reader of \<open>Key_Id\<close> recurses on the bytes that are left. Integers of the code that can wrap
  are words (\<open>u64\<close> generations, bytes), or \<open>int\<close> with the wrap written out (\<open>i64_wrap\<close>); \<open>i64\<close>
  values of JSON are range-checked by \<open>as_i64\<close>.

  \<^bold>\<open>Panics.\<close> An \<open>unwrap\<close> that an earlier check protects is total here, with a remark. Where the
  code can panic, the result is \<open>None\<close>: slicing a UUID inside a character
  (\<open>uuid_last_16_bits\<close>) and the expiry of the mailer configuration, which a negative
  \<open>max-age\<close> of the server makes overflow (\<open>negative_max_age_panics\<close>).

  \<^bold>\<open>Not modelled.\<close> The CKVF container, hashing, curve arithmetic, AEAD, RFC 8785, Unicode tables,
  \<open>reqwest\<close>, clocks and RFC 3339 dates are parameters. Left out are \<open>lib.rs\<close> and \<open>mod.rs\<close>
  (re-exports), the exported URIs of \<open>types.rs\<close> that no code reads, the conversions of
  \<open>wasm-bindgen\<close>, memory wiping, and the concurrency of one \<open>KeyVault\<close>, whose methods take
  \<open>&mut self\<close> and so never interleave.

  \<^bold>\<open>Plan.\<close> What remains is depth: convergence of repeated pull and push between two
  devices, and a refinement of the folder store and the vault host to one generation store.
\<close>

end
